theory Spec2Isabelle
  imports Complex_Main "HOL-Library.Char_ord" "HOL-Library.List_Lexorder"
begin

section \<open>Search item identifier (modules/facebook/fetch.py, fetch\_search\_for\_posts)\<close>

text \<open>
  The task-cache key of a search is
  \<^verbatim>\<open>'/'.join((request.casefold(), from_date.isoformat() or '', to_date.isoformat() or '', search_type))\<close>.
  \<^verbatim>\<open>str.casefold\<close> and \<^verbatim>\<open>datetime.isoformat\<close> belong to the Python library, so they
  are parameters of the model; \<open>search_type\<close> is the \<^verbatim>\<open>Literal['top', 'latest', 'hashtag']\<close>
  of the signature.
\<close>

datatype search_type = Top | Latest | Hashtag

fun search_type_str :: "search_type \<Rightarrow> string" where
  "search_type_str Top = ''top''"
| "search_type_str Latest = ''latest''"
| "search_type_str Hashtag = ''hashtag''"

text \<open>Python's \<^verbatim>\<open>sep.join(parts)\<close>.\<close>

fun join :: "string \<Rightarrow> string list \<Rightarrow> string" where
  "join sep [] = []"
| "join sep [x] = x"
| "join sep (x # y # ys) = x @ sep @ join sep (y # ys)"

text \<open>\<^verbatim>\<open>d.isoformat() if d is not None else ''\<close>\<close>

definition date_part :: "('d \<Rightarrow> string) \<Rightarrow> 'd option \<Rightarrow> string" where
  "date_part isoformat d = (case d of None \<Rightarrow> [] | Some x \<Rightarrow> isoformat x)"

definition search_item_id ::
  "(string \<Rightarrow> string) \<Rightarrow> ('d \<Rightarrow> string) \<Rightarrow> string \<Rightarrow> 'd option \<Rightarrow> 'd option \<Rightarrow> search_type \<Rightarrow> string"
where
  "search_item_id casefold isoformat request from_date to_date stype =
     join ''/'' [casefold request, date_part isoformat from_date,
                 date_part isoformat to_date, search_type_str stype]"

text \<open>
  What the proof needs of \<^verbatim>\<open>isoformat\<close>: distinct dates print differently, the text is
  never empty and never contains the separator (it is made of digits and \<^verbatim>\<open>-T:.+\<close>).
\<close>

definition iso_like :: "('d \<Rightarrow> string) \<Rightarrow> bool" where
  "iso_like isoformat \<longleftrightarrow>
     inj isoformat \<and> (\<forall>d. isoformat d \<noteq> []) \<and> (\<forall>d. CHR ''/'' \<notin> set (isoformat d))"


section \<open>Fetched records and Python values\<close>

text \<open>The exception classes that the modelled code can raise.\<close>

datatype exn = ApiRequestError | ValueError | KeyError | TypeError

text \<open>
  A fetched record is a JSON object. The core reads its \<^verbatim>\<open>id\<close> and, depending on the kind,
  \<^verbatim>\<open>owner_id\<close>, \<^verbatim>\<open>group_id\<close> and \<^verbatim>\<open>comments_count\<close>; these are the first four fields (a
  field that a kind does not have is never read for it; objects that lack a key the core
  reads, a \<^verbatim>\<open>KeyError\<close>, are outside the model). The Output Sink writes the whole object:
  \<open>columns\<close> are the keys of the object other than \<^verbatim>\<open>id\<close>, in the order of the object, each
  with the text that is written to the CSV file for its value. Identifiers are strings, as
  the \<^verbatim>\<open>item_id: str\<close> parameters they are passed to.
\<close>

record entity =
  item_id :: string
  owner_id :: "string option"
  group_id :: "string option"
  comments_count :: "int option"
  columns :: "(string \<times> string) list"

text \<open>Truth value of \<^verbatim>\<open>if x:\<close> for a string or \<^verbatim>\<open>None\<close>, and for a number or \<^verbatim>\<open>None\<close>.\<close>

definition truthy_str :: "string option \<Rightarrow> bool" where
  "truthy_str v = (case v of None \<Rightarrow> False | Some s \<Rightarrow> s \<noteq> [])"

definition truthy_int :: "int option \<Rightarrow> bool" where
  "truthy_int v = (case v of None \<Rightarrow> False | Some n \<Rightarrow> n \<noteq> 0)"

text \<open>
  \<^verbatim>\<open>int(s)\<close> for a string of code points below 256: whitespace around, an optional sign,
  decimal digits with single underscores between digits; \<open>None\<close> stands for \<^verbatim>\<open>ValueError\<close>.
  The whitespace that \<^verbatim>\<open>int\<close> skips is tab, line feed, vertical tab, form feed, carriage
  return and space, and of the other code points the two Unicode blanks (next line,
  no-break space), which are first turned into spaces; the separators 28 to 31 are not
  skipped.
\<close>

definition is_space :: "char \<Rightarrow> bool" where
  "is_space c \<longleftrightarrow> (of_char c :: nat) \<in> {9, 10, 11, 12, 13, 32, 133, 160}"

definition strip :: "string \<Rightarrow> string" where
  "strip s = rev (dropWhile is_space (rev (dropWhile is_space s)))"

definition digit_val :: "char \<Rightarrow> nat option" where
  "digit_val c = (let v = (of_char c :: nat) in if 48 \<le> v \<and> v \<le> 57 then Some (v - 48) else None)"

fun digits :: "nat \<Rightarrow> string \<Rightarrow> nat option" where
  "digits acc [] = Some acc"
| "digits acc [c] = (case digit_val c of None \<Rightarrow> None | Some v \<Rightarrow> Some (10 * acc + v))"
| "digits acc (c # d # ds) =
     (if c = CHR ''_''
      then (case digit_val d of None \<Rightarrow> None | Some v \<Rightarrow> digits (10 * acc + v) ds)
      else (case digit_val c of None \<Rightarrow> None | Some v \<Rightarrow> digits (10 * acc + v) (d # ds)))"

definition nat_literal :: "string \<Rightarrow> nat option" where
  "nat_literal s =
     (case s of [] \<Rightarrow> None
      | c # cs \<Rightarrow> (case digit_val c of None \<Rightarrow> None | Some v \<Rightarrow> digits v cs))"

definition py_int :: "string \<Rightarrow> int option" where
  "py_int s =
     (case strip s of
        [] \<Rightarrow> None
      | c # cs \<Rightarrow>
          if c = CHR ''+'' then map_option int (nat_literal cs)
          else if c = CHR ''-'' then map_option (\<lambda>n. - int n) (nat_literal cs)
          else map_option int (nat_literal (c # cs)))"

text \<open>\<^verbatim>\<open>str(n)\<close> for an integer: its decimal digits, after a minus sign when it is negative.\<close>

fun digits_of :: "nat \<Rightarrow> string" where
  "digits_of n =
     (if n < 10 then [char_of (48 + n)] else digits_of (n div 10) @ [char_of (48 + n mod 10)])"

declare digits_of.simps [simp del]

definition py_str :: "int \<Rightarrow> string" where
  "py_str k = (if k < 0 then CHR ''-'' # digits_of (nat (- k)) else digits_of (nat k))"

section \<open>Remote Call Client: the retry loop (modules/utils.py, make\_request)\<close>

text \<open>
  The decoded body of an answer, the value of \<^verbatim>\<open>await resp.json()\<close>. Numbers are read as
  integers; an object is an association list in which the first pair of a key counts.
\<close>

datatype json =
    Null
  | Boolean bool
  | Number int
  | String string
  | Array "json list"
  | Object "(string \<times> json) list"

text \<open>
  One pass of \<^verbatim>\<open>for n in count()\<close> either raises one of the caught transport exceptions
  (timeout, connection error), raises something else inside the \<^verbatim>\<open>try\<close> (which
  propagates), or receives an HTTP status code with a decoded body.
\<close>

datatype attempt = Transport_error | Other_exception | Http int json

text \<open>
  How the call ends: by the exception that an attempt has raised inside the \<^verbatim>\<open>try\<close>, by
  an exception raised in the \<^verbatim>\<open>else\<close> branch, or by returning \<^verbatim>\<open>ApiResponse(**resp_data)\<close>,
  given here by its fields \<^verbatim>\<open>data\<close>, \<^verbatim>\<open>error\<close> and \<^verbatim>\<open>status\<close>.
\<close>

datatype outcome = Propagated | Raised exn | Returned json json json

text \<open>
  \<^verbatim>\<open>resp_data['status']\<close>: \<^verbatim>\<open>KeyError\<close> when the object has no such key, \<^verbatim>\<open>TypeError\<close> when
  the body is not an object.
\<close>

definition subscript_status :: "json \<Rightarrow> exn + json" where
  "subscript_status resp_data =
     (case resp_data of
        Object d \<Rightarrow> (case map_of d ''status'' of None \<Rightarrow> Inl KeyError | Some v \<Rightarrow> Inr v)
      | _ \<Rightarrow> Inl TypeError)"

text \<open>
  Whether a value accepts the format specification \<^verbatim>\<open>:10\<close> of an f-string: strings and
  numbers do, \<^verbatim>\<open>None\<close>, lists and dictionaries raise \<^verbatim>\<open>TypeError\<close>.
\<close>

fun formats :: "json \<Rightarrow> bool" where
  "formats (String s) = True"
| "formats (Number n) = True"
| "formats (Boolean b) = True"
| "formats Null = False"
| "formats (Array xs) = False"
| "formats (Object d) = False"

text \<open>
  The first statement of the \<^verbatim>\<open>else\<close> branch,
  \<^verbatim>\<open>logger.debug(f"... {resp_data['status']:10} ...")\<close>: the f-string is evaluated whatever
  the log level, before the status code is looked at. The value is the exception it
  raises, if any.
\<close>

definition debug_line :: "json \<Rightarrow> exn option" where
  "debug_line resp_data =
     (case subscript_status resp_data of
        Inl e \<Rightarrow> Some e
      | Inr v \<Rightarrow> if formats v then None else Some TypeError)"

text \<open>
  \<^verbatim>\<open>ApiResponse(**resp_data)\<close>: the dataclass has the three fields \<^verbatim>\<open>data\<close>, \<^verbatim>\<open>error\<close> and
  \<^verbatim>\<open>status\<close>, none with a default, so any other set of keys is a \<^verbatim>\<open>TypeError\<close>.
\<close>

definition api_response_of :: "json \<Rightarrow> outcome" where
  "api_response_of resp_data =
     (case resp_data of
        Object d \<Rightarrow>
          (case (map_of d ''data'', map_of d ''error'', map_of d ''status'') of
             (Some x, Some e, Some s) \<Rightarrow>
               if set (map fst d) = {''data'', ''error'', ''status''} then Returned x e s
               else Raised TypeError
           | _ \<Rightarrow> Raised TypeError)
      | _ \<Rightarrow> Raised TypeError)"

text \<open>
  \<^verbatim>\<open>min(n, 5) * random.uniform(0.75, 1.25)\<close>, with the float read as a real and the value
  drawn by \<^verbatim>\<open>random.uniform\<close> passed in.
\<close>

definition backoff :: "nat \<Rightarrow> real \<Rightarrow> real" where
  "backoff n u = real (min n 5) * u"

text \<open>
  The loop, from attempt \<open>n\<close> on: \<open>net k\<close> is what attempt \<open>k\<close> meets, \<open>jitter k\<close> the
  random factor drawn in it, \<open>sleeps\<close> the durations slept so far. The result is how the
  call ends, with all sleeps; \<open>None\<close> when the loop never ends.
\<close>

partial_function (option) make_request_from ::
  "(nat \<Rightarrow> attempt) \<Rightarrow> (nat \<Rightarrow> real) \<Rightarrow> nat \<Rightarrow> real list \<Rightarrow> (outcome \<times> real list) option"
where
  "make_request_from net jitter n sleeps =
     (case net n of
        Transport_error \<Rightarrow> make_request_from net jitter (Suc n) (sleeps @ [backoff n (jitter n)])
      | Other_exception \<Rightarrow> Some (Propagated, sleeps)
      | Http status_code resp_data \<Rightarrow>
          (case debug_line resp_data of
             Some e \<Rightarrow> Some (Raised e, sleeps)
           | None \<Rightarrow>
               if status_code = 429
               then make_request_from net jitter (Suc n) (sleeps @ [backoff n (jitter n)])
               else Some (api_response_of resp_data, sleeps)))"

definition make_request_retry ::
  "(nat \<Rightarrow> attempt) \<Rightarrow> (nat \<Rightarrow> real) \<Rightarrow> (outcome \<times> real list) option" where
  "make_request_retry net jitter = make_request_from net jitter 0 []"

text \<open>An attempt after which the loop goes round again, and how any other attempt ends the call.\<close>

fun retried :: "attempt \<Rightarrow> bool" where
  "retried Transport_error = True"
| "retried Other_exception = False"
| "retried (Http status_code resp_data) = (debug_line resp_data = None \<and> status_code = 429)"

fun ended :: "attempt \<Rightarrow> outcome" where
  "ended Transport_error = Propagated"
| "ended Other_exception = Propagated"
| "ended (Http status_code resp_data) =
     (case debug_line resp_data of Some e \<Rightarrow> Raised e | None \<Rightarrow> api_response_of resp_data)"

section \<open>Output Sink, CSV mode (modules/facebook/save.py, modules/utils.py)\<close>

text \<open>
  \<^verbatim>\<open>config.OUTPUT_FORMAT\<close> is \<^verbatim>\<open>'csv'\<close>, its value in config.py; the \<^verbatim>\<open>'postgres'\<close> branch
  hands the rows to the database and is not modelled.

  A row dictionary, as the save functions hand it to \<^verbatim>\<open>save_items_to_csv\<close>, is an
  association list from field name to the text that \<^verbatim>\<open>csv.writer\<close> writes for the value;
  the first pair of a key counts. The dictionary of a record holds its \<^verbatim>\<open>id\<close> and its
  columns.

  A CSV file is \<open>None\<close> while it does not exist, and otherwise its header line and its
  data lines in the order written, each a list of cells. The byte order mark (written
  first, and skipped by \<^verbatim>\<open>fp.read(1)\<close> in \<^verbatim>\<open>init\<close>) and the quoting are not represented:
  \<^verbatim>\<open>csv.DictReader\<close> reads back, cell by cell, what \<^verbatim>\<open>csv.writer\<close> has written.
\<close>

type_synonym dict = "(string \<times> string) list"

definition as_dict :: "entity \<Rightarrow> dict" where
  "as_dict item = (''id'', item_id item) # columns item"

record csv_file =
  header :: "string list"
  body :: "string list list"

type_synonym connection = "int \<times> string \<times> string"

text \<open>The five files of \<^verbatim>\<open>config.CSV_PATH\<close> and the module's global de-duplication sets.\<close>

record sink =
  facebook_posts_csv :: "csv_file option"
  facebook_comments_csv :: "csv_file option"
  facebook_profiles_csv :: "csv_file option"
  facebook_searches_for_posts_csv :: "csv_file option"
  facebook_connections_csv :: "csv_file option"
  saved_posts :: "int set"
  saved_comments :: "int set"
  saved_profiles :: "int set"
  saved_searches_for_posts :: "string set"
  saved_connections :: "connection set"

text \<open>The data lines of a file; a missing file has none.\<close>

definition rows :: "csv_file option \<Rightarrow> string list list" where
  "rows file = (case file of None \<Rightarrow> [] | Some f \<Rightarrow> body f)"

text \<open>\<^verbatim>\<open>more_itertools.unique_everseen(iterable, key)\<close>: the first item of every key.\<close>

fun unique_everseen_from :: "'k set \<Rightarrow> ('r \<Rightarrow> 'k) \<Rightarrow> 'r list \<Rightarrow> 'r list" where
  "unique_everseen_from seen key [] = []"
| "unique_everseen_from seen key (x # xs) =
     (if key x \<in> seen then unique_everseen_from seen key xs
      else x # unique_everseen_from (insert (key x) seen) key xs)"

definition unique_everseen :: "('r \<Rightarrow> 'k) \<Rightarrow> 'r list \<Rightarrow> 'r list" where
  "unique_everseen key xs = unique_everseen_from {} key xs"

text \<open>
  \<^verbatim>\<open>(item[field] for field in fields)\<close>, the cells of a line or the key of a row: \<open>None\<close>
  stands for the \<^verbatim>\<open>KeyError\<close> of a row that lacks one of the fields. A key of the row that
  is not among the fields is not written.
\<close>

definition cells :: "string list \<Rightarrow> dict \<Rightarrow> string list option" where
  "cells fieldnames item = those (map (map_of item) fieldnames)"

text \<open>
  \<^verbatim>\<open>csv_writer.writerows(..)\<close> writes the lines one by one: when a row raises, the lines of
  the rows before it have been written, and the file is closed with them (\<^verbatim>\<open>finally\<close>).
\<close>

fun writerows :: "string list \<Rightarrow> dict list \<Rightarrow> string list list \<Rightarrow> exn option \<times> string list list" where
  "writerows fieldnames [] written = (None, written)"
| "writerows fieldnames (item # items) written =
     (case cells fieldnames item of
        None \<Rightarrow> (Some KeyError, written)
      | Some line \<Rightarrow> writerows fieldnames items (written @ [line]))"

text \<open>
  \<^verbatim>\<open>save_items_to_csv(items, table, pk_fields)\<close>, the file of \<^verbatim>\<open>table\<close> passed in and
  returned together with the exception raised, if any. The rows are collected first
  (\<^verbatim>\<open>tuple(unique_everseen(..))\<close>), where the key of a row without one of the \<^verbatim>\<open>pk_fields\<close>
  raises; nothing is opened when no row is left. Otherwise \<^verbatim>\<open>fields\<close> is
  \<^verbatim>\<open>sorted(items[0].keys())\<close>, the sorted keys of the first row of this call; the file is
  created (mode \<^verbatim>\<open>'x'\<close>) with \<^verbatim>\<open>fields\<close> as its header line, or appended to (mode \<^verbatim>\<open>'a'\<close>)
  with its header line as it is; and every row of the call is written by \<^verbatim>\<open>fields\<close>.
\<close>

definition save_items_to_csv ::
  "string list \<Rightarrow> dict list \<Rightarrow> csv_file option \<Rightarrow> exn option \<times> csv_file option" where
  "save_items_to_csv pk_fields items file =
     (if list_ex (\<lambda>item. cells pk_fields item = None) items then (Some KeyError, file)
      else
        let items = unique_everseen (cells pk_fields) items in
        if items = [] then (None, file)
        else
          let fieldnames = sort (remdups (map fst (hd items))) in
          (case file of
             None \<Rightarrow>
               (case writerows fieldnames items [] of
                  (e, written) \<Rightarrow> (e, Some \<lparr>header = fieldnames, body = written\<rparr>))
           | Some f \<Rightarrow>
               (case writerows fieldnames items (body f) of
                  (e, written) \<Rightarrow> (e, Some (f\<lparr>body := written\<rparr>)))))"

text \<open>
  \<^verbatim>\<open>normalize_*_csv\<close> reformat the values of some columns, which raises \<^verbatim>\<open>KeyError\<close> for a
  record without one of them; the reformatting itself is not represented (a column is
  carried as the text written for it), and values of another type than the one the
  reformatting expects are outside the model. \<^verbatim>\<open>normalize_searches_for_posts_csv\<close> deletes
  the key \<^verbatim>\<open>post_count\<close>.
\<close>

definition requires :: "string list \<Rightarrow> dict \<Rightarrow> exn + dict" where
  "requires fieldnames item =
     (if list_all (\<lambda>field. map_of item field \<noteq> None) fieldnames then Inr item else Inl KeyError)"

definition normalize_post_csv :: "dict \<Rightarrow> exn + dict" where
  "normalize_post_csv item =
     requires [''attached_medias_id'', ''attached_medias_preview_content'',
       ''attached_medias_preview_url'', ''text_tagged_users'', ''text_tags'', ''text''] item"

definition normalize_comment_csv :: "dict \<Rightarrow> exn + dict" where
  "normalize_comment_csv item = requires [''text_tagged_users'', ''text_tags'', ''text''] item"

definition normalize_profile_csv :: "dict \<Rightarrow> exn + dict" where
  "normalize_profile_csv item =
     requires [''categories'', ''current_city'', ''education'', ''hometown'', ''workplace'',
       ''langs'', ''biography''] item"

definition normalize_searches_for_posts_csv :: "dict \<Rightarrow> exn + dict" where
  "normalize_searches_for_posts_csv item =
     (if map_of item ''post_count'' = None then Inl KeyError
      else Inr (filter (\<lambda>(field, v). field \<noteq> ''post_count'') item))"

text \<open>
  The generator that a save function hands to \<^verbatim>\<open>save_items_to_csv\<close>,
  \<^verbatim>\<open>(normalize(item) for item in items if <key of item> not in saved)\<close>, consumed to its
  end: item by item the test (where \<^verbatim>\<open>int()\<close> may raise), then the normalization of the
  items that pass. \<open>is_new\<close> is the test.
\<close>

fun items_to_save :: "(entity \<Rightarrow> exn + bool) \<Rightarrow> (dict \<Rightarrow> exn + dict) \<Rightarrow> entity list \<Rightarrow> exn + dict list" where
  "items_to_save is_new normalize_csv [] = Inr []"
| "items_to_save is_new normalize_csv (item # items) =
     (case is_new item of
        Inl e \<Rightarrow> Inl e
      | Inr False \<Rightarrow> items_to_save is_new normalize_csv items
      | Inr True \<Rightarrow>
          (case normalize_csv (as_dict item) of
             Inl e \<Rightarrow> Inl e
           | Inr row \<Rightarrow>
               (case items_to_save is_new normalize_csv items of
                  Inl e \<Rightarrow> Inl e
                | Inr rest \<Rightarrow> Inr (row # rest))))"

text \<open>\<^verbatim>\<open>int(item['id']) not in saved\<close>\<close>

definition new_int_id :: "int set \<Rightarrow> entity \<Rightarrow> exn + bool" where
  "new_int_id saved item =
     (case py_int (item_id item) of None \<Rightarrow> Inl ValueError | Some k \<Rightarrow> Inr (k \<notin> saved))"

text \<open>\<^verbatim>\<open>int(item['id']) for item in items\<close>; \<open>None\<close> stands for the \<^verbatim>\<open>ValueError\<close> of \<^verbatim>\<open>int()\<close>.\<close>

fun int_ids :: "string list \<Rightarrow> int list option" where
  "int_ids [] = Some []"
| "int_ids (i # is) =
     (case py_int i of
        None \<Rightarrow> None
      | Some k \<Rightarrow> (case int_ids is of None \<Rightarrow> None | Some ks \<Rightarrow> Some (k # ks)))"

text \<open>
  The \<^verbatim>\<open>'csv'\<close> branch of \<^verbatim>\<open>save_posts\<close>, \<^verbatim>\<open>save_comments\<close> and \<^verbatim>\<open>save_profiles\<close>, which differ
  in the normalization, the file and the set: the rows are saved, and when that has not
  raised the identifiers of all the items are added to the set.
\<close>

definition save_by_int_id ::
  "(dict \<Rightarrow> exn + dict) \<Rightarrow> entity list \<Rightarrow> csv_file option \<Rightarrow> int set
     \<Rightarrow> exn option \<times> csv_file option \<times> int set" where
  "save_by_int_id normalize_csv items file saved =
     (case items_to_save (new_int_id saved) normalize_csv items of
        Inl e \<Rightarrow> (Some e, file, saved)
      | Inr dicts \<Rightarrow>
          (case save_items_to_csv [''id''] dicts file of
             (Some e, file') \<Rightarrow> (Some e, file', saved)
           | (None, file') \<Rightarrow>
               (case int_ids (map item_id items) of
                  None \<Rightarrow> (Some ValueError, file', saved)
                | Some ks \<Rightarrow> (None, file', saved \<union> set ks))))"

definition save_posts :: "entity list \<Rightarrow> sink \<Rightarrow> exn option \<times> sink" where
  "save_posts items s =
     (case save_by_int_id normalize_post_csv items (facebook_posts_csv s) (saved_posts s) of
        (e, file, saved) \<Rightarrow> (e, s\<lparr>facebook_posts_csv := file, saved_posts := saved\<rparr>))"

definition save_comments :: "entity list \<Rightarrow> sink \<Rightarrow> exn option \<times> sink" where
  "save_comments items s =
     (case save_by_int_id normalize_comment_csv items (facebook_comments_csv s) (saved_comments s) of
        (e, file, saved) \<Rightarrow> (e, s\<lparr>facebook_comments_csv := file, saved_comments := saved\<rparr>))"

definition save_profiles :: "entity list \<Rightarrow> sink \<Rightarrow> exn option \<times> sink" where
  "save_profiles items s =
     (case save_by_int_id normalize_profile_csv items (facebook_profiles_csv s) (saved_profiles s) of
        (e, file, saved) \<Rightarrow> (e, s\<lparr>facebook_profiles_csv := file, saved_profiles := saved\<rparr>))"

text \<open>Searches are keyed by the identifier itself, no \<^verbatim>\<open>int()\<close>.\<close>

definition save_searches_for_posts :: "entity list \<Rightarrow> sink \<Rightarrow> exn option \<times> sink" where
  "save_searches_for_posts items s =
     (case items_to_save (\<lambda>item. Inr (item_id item \<notin> saved_searches_for_posts s))
             normalize_searches_for_posts_csv items of
        Inl e \<Rightarrow> (Some e, s)
      | Inr dicts \<Rightarrow>
          (case save_items_to_csv [''id''] dicts (facebook_searches_for_posts_csv s) of
             (Some e, file) \<Rightarrow> (Some e, s\<lparr>facebook_searches_for_posts_csv := file\<rparr>)
           | (None, file) \<Rightarrow>
               (None, s\<lparr>facebook_searches_for_posts_csv := file,
                         saved_searches_for_posts :=
                           saved_searches_for_posts s \<union> set (map item_id items)\<rparr>)))"

text \<open>
  \<^verbatim>\<open>save_connections\<close> first builds the rows \<^verbatim>\<open>{'id': int(item_id), 'parent_id':
  str(parent_item_id), 'collection': collection}\<close>, where \<^verbatim>\<open>int()\<close> may raise. In the row
  dictionary the number is carried as the text written for it, \<^verbatim>\<open>str\<close> of it, which is a
  different text for a different number.
\<close>

definition connection_row :: "connection \<Rightarrow> dict" where
  "connection_row c =
     (case c of (k, parent, collection) \<Rightarrow>
        [(''id'', py_str k), (''parent_id'', parent), (''collection'', collection)])"

definition save_connections :: "string \<Rightarrow> string list \<Rightarrow> string \<Rightarrow> sink \<Rightarrow> exn option \<times> sink" where
  "save_connections parent_item_id item_ids collection s =
     (case int_ids item_ids of
        None \<Rightarrow> (Some ValueError, s)
      | Some ks \<Rightarrow>
          (let items = map (\<lambda>k. (k, parent_item_id, collection)) ks;
               items_to_save = filter (\<lambda>item. item \<notin> saved_connections s) items
           in case save_items_to_csv [''id'', ''parent_id'', ''collection'']
                     (map connection_row items_to_save) (facebook_connections_csv s) of
                (Some e, file) \<Rightarrow> (Some e, s\<lparr>facebook_connections_csv := file\<rparr>)
              | (None, file) \<Rightarrow>
                  (None, s\<lparr>facebook_connections_csv := file,
                            saved_connections := saved_connections s \<union> set items\<rparr>)))"

text \<open>
  \<^verbatim>\<open>item[field]\<close> for a line as \<^verbatim>\<open>csv.DictReader\<close> hands it over: the cell under that name
  of the header line, \<^verbatim>\<open>None\<close> when the line is too short to have one, \<^verbatim>\<open>KeyError\<close> when the
  header line has no such name. Lines without any cell are passed over by the reader.
\<close>

definition field_of :: "csv_file \<Rightarrow> string list \<Rightarrow> string \<Rightarrow> exn + string option" where
  "field_of f line field =
     (if field \<in> set (header f) then Inr (map_of (zip (header f) line) field) else Inl KeyError)"

definition dict_lines :: "csv_file option \<Rightarrow> (csv_file \<times> string list) list" where
  "dict_lines file =
     (case file of None \<Rightarrow> [] | Some f \<Rightarrow> map (Pair f) (filter (\<lambda>line. line \<noteq> []) (body f)))"

text \<open>\<^verbatim>\<open>int(item['id'])\<close> for such a line; \<^verbatim>\<open>int(None)\<close> is a \<^verbatim>\<open>TypeError\<close>.\<close>

definition int_id_of :: "csv_file \<times> string list \<Rightarrow> exn + int" where
  "int_id_of item =
     (case field_of (fst item) (snd item) ''id'' of
        Inl e \<Rightarrow> Inl e
      | Inr None \<Rightarrow> Inl TypeError
      | Inr (Some i) \<Rightarrow> (case py_int i of None \<Rightarrow> Inl ValueError | Some k \<Rightarrow> Inr k))"

text \<open>
  \<^verbatim>\<open>item['id']\<close>, and \<^verbatim>\<open>(int(item['id']), str(item['parent_id']), item['collection'])\<close>. The
  value is a set with the element to add. Where the cell is missing, the element that the
  code adds holds \<^verbatim>\<open>None\<close> in the place of a string, so that it is equal to nothing that is
  looked up in the set later: the model adds nothing.
\<close>

definition text_id_of :: "csv_file \<times> string list \<Rightarrow> exn + string set" where
  "text_id_of item =
     (case field_of (fst item) (snd item) ''id'' of
        Inl e \<Rightarrow> Inl e
      | Inr None \<Rightarrow> Inr {}
      | Inr (Some i) \<Rightarrow> Inr {i})"

definition connection_of :: "csv_file \<times> string list \<Rightarrow> exn + connection set" where
  "connection_of item =
     (case int_id_of item of
        Inl e \<Rightarrow> Inl e
      | Inr k \<Rightarrow>
          (case field_of (fst item) (snd item) ''parent_id'' of
             Inl e \<Rightarrow> Inl e
           | Inr parent \<Rightarrow>
               (case field_of (fst item) (snd item) ''collection'' of
                  Inl e \<Rightarrow> Inl e
                | Inr None \<Rightarrow> Inr {}
                | Inr (Some collection) \<Rightarrow>
                    Inr {(k, case parent of None \<Rightarrow> ''None'' | Some p \<Rightarrow> p, collection)})))"

text \<open>\<^verbatim>\<open>saved.update(f(item) for item in csv.DictReader(fp))\<close>, up to the first line that raises.\<close>

fun read_all :: "('a \<Rightarrow> exn + 'b) \<Rightarrow> 'a list \<Rightarrow> exn + 'b list" where
  "read_all f [] = Inr []"
| "read_all f (x # xs) =
     (case f x of
        Inl e \<Rightarrow> Inl e
      | Inr y \<Rightarrow> (case read_all f xs of Inl e \<Rightarrow> Inl e | Inr ys \<Rightarrow> Inr (y # ys)))"

text \<open>
  \<^verbatim>\<open>init()\<close>: every existing file is read back and the identifiers of its lines are added
  to the matching set (\<^verbatim>\<open>FileNotFoundError\<close> is passed over); an exception of a line ends
  \<^verbatim>\<open>init\<close>, and with it the run.
\<close>

definition init :: "sink \<Rightarrow> exn + sink" where
  "init s =
     (case read_all int_id_of (dict_lines (facebook_posts_csv s)) of
        Inl e \<Rightarrow> Inl e
      | Inr ps \<Rightarrow>
     (case read_all int_id_of (dict_lines (facebook_comments_csv s)) of
        Inl e \<Rightarrow> Inl e
      | Inr cs \<Rightarrow>
     (case read_all int_id_of (dict_lines (facebook_profiles_csv s)) of
        Inl e \<Rightarrow> Inl e
      | Inr fs \<Rightarrow>
     (case read_all text_id_of (dict_lines (facebook_searches_for_posts_csv s)) of
        Inl e \<Rightarrow> Inl e
      | Inr ss \<Rightarrow>
     (case read_all connection_of (dict_lines (facebook_connections_csv s)) of
        Inl e \<Rightarrow> Inl e
      | Inr ns \<Rightarrow>
          Inr (s\<lparr>saved_posts := saved_posts s \<union> set ps,
                  saved_comments := saved_comments s \<union> set cs,
                  saved_profiles := saved_profiles s \<union> set fs,
                  saved_searches_for_posts := saved_searches_for_posts s \<union> \<Union> (set ss),
                  saved_connections := saved_connections s \<union> \<Union> (set ns)\<rparr>))))))"

text \<open>An output directory without files and a process that has saved nothing yet.\<close>

definition empty_sink :: sink where
  "empty_sink = \<lparr>facebook_posts_csv = None, facebook_comments_csv = None,
     facebook_profiles_csv = None, facebook_searches_for_posts_csv = None,
     facebook_connections_csv = None, saved_posts = {}, saved_comments = {},
     saved_profiles = {}, saved_searches_for_posts = {}, saved_connections = {}\<rparr>"

text \<open>
  A later run: a new process starts with empty sets over the files the earlier runs
  left, and calls \<^verbatim>\<open>init()\<close> before anything is saved.
\<close>

definition new_process :: "sink \<Rightarrow> sink" where
  "new_process s = s\<lparr>saved_posts := {}, saved_comments := {}, saved_profiles := {},
     saved_searches_for_posts := {}, saved_connections := {}\<rparr>"

definition start_run :: "sink \<Rightarrow> exn + sink" where
  "start_run s = init (new_process s)"

text \<open>
  What a sequence of runs does to the sink: batches saved to the five tables, and
  restarts of the process in between. A save that raises leaves the sink as it is at
  that point, with the lines it has written. A run whose \<^verbatim>\<open>init()\<close> raises is over: what
  the sequence holds up to the next restart does not happen.
\<close>

datatype sink_op =
    Save_posts_op "entity list"
  | Save_comments_op "entity list"
  | Save_profiles_op "entity list"
  | Save_searches_op "entity list"
  | Save_connections_op string "string list" string
  | New_run_op

fun sink_save :: "sink_op \<Rightarrow> sink \<Rightarrow> exn option \<times> sink" where
  "sink_save (Save_posts_op items) s = save_posts items s"
| "sink_save (Save_comments_op items) s = save_comments items s"
| "sink_save (Save_profiles_op items) s = save_profiles items s"
| "sink_save (Save_searches_op items) s = save_searches_for_posts items s"
| "sink_save (Save_connections_op parent ids collection) s = save_connections parent ids collection s"
| "sink_save New_run_op s = (None, s)"

text \<open>\<open>alive\<close>: the process of the current run has not ended in \<^verbatim>\<open>init()\<close>.\<close>

fun sink_steps :: "sink_op list \<Rightarrow> bool \<Rightarrow> sink \<Rightarrow> sink" where
  "sink_steps [] alive s = s"
| "sink_steps (op # ops) alive s =
     (if op = New_run_op
      then (case start_run s of
              Inl e \<Rightarrow> sink_steps ops False s
            | Inr s' \<Rightarrow> sink_steps ops True s')
      else if alive then sink_steps ops True (snd (sink_save op s))
      else sink_steps ops False s)"

definition sink_run :: "sink_op list \<Rightarrow> sink \<Rightarrow> sink" where
  "sink_run ops s = sink_steps ops True s"

section \<open>Remote API and Task State Store as the orchestrator sees them (modules/utils.py)\<close>

text \<open>
  A request as \<^verbatim>\<open>make_request\<close> sends it: method, URL and the parameters that are not
  \<^verbatim>\<open>None\<close> (\<^verbatim>\<open>clean_params\<close>; the access token that is added to them is left out). A
  parameter dictionary keeps its insertion order.
\<close>

datatype http_method = Get | Post

datatype param = Int_param int | Str_param string

type_synonym params = "(string \<times> param option) list"

record request =
  req_method :: http_method
  req_url :: string
  req_params :: "(string \<times> param) list"

text \<open>\<^verbatim>\<open>{k: v for k, v in params.items() if v is not None}\<close>\<close>

fun clean_params :: "params \<Rightarrow> (string \<times> param) list" where
  "clean_params [] = []"
| "clean_params ((k, None) # ps) = clean_params ps"
| "clean_params ((k, Some v) # ps) = (k, v) # clean_params ps"

text \<open>\<^verbatim>\<open>d[k] = v\<close>: the value is replaced in place, a new key goes to the end.\<close>

fun dict_set :: "'k \<Rightarrow> 'v \<Rightarrow> ('k \<times> 'v) list \<Rightarrow> ('k \<times> 'v) list" where
  "dict_set k v [] = [(k, v)]"
| "dict_set k v ((k', v') # d) = (if k' = k then (k, v) # d else (k', v') # dict_set k v d)"

text \<open>
  \<^verbatim>\<open>ApiResponse\<close>. The \<^verbatim>\<open>data\<close> dictionary has one of four shapes, by endpoint: a record, a
  collection page (\<^verbatim>\<open>items\<close>, \<^verbatim>\<open>page_info.has_next_page\<close>, \<^verbatim>\<open>page_info.cursor\<close>), the
  \<^verbatim>\<open>task_id\<close> of an accepted update, the \<^verbatim>\<open>status\<close> of an update job. Where the code
  subscripts \<^verbatim>\<open>data\<close> and the shape is another one, the model raises \<^verbatim>\<open>KeyError\<close> there
  (\<^verbatim>\<open>TypeError\<close> when \<^verbatim>\<open>data\<close> is \<^verbatim>\<open>None\<close>). \<^verbatim>\<open>error\<close> is a dictionary or \<^verbatim>\<open>None\<close>.
\<close>

datatype payload =
    Item entity
  | Page "entity list" bool "string option"
  | Task_id string
  | Job_status string

record api_response =
  data :: "payload option"
  error :: "(string \<times> string) list option"
  status :: string

text \<open>
  The remote side: the answer to a request, given the requests made before it. For the
  orchestrator \<^verbatim>\<open>make_request\<close> is the answer that ends its retry loop.
\<close>

type_synonym api = "request list \<Rightarrow> request \<Rightarrow> api_response"

text \<open>
  What the orchestrator acts on: the \<^verbatim>\<open>tasks\<close> table of the task cache (item identifier
  to status), the requests made so far, and the Output Sink.
\<close>

record world =
  task_cache :: "string \<rightharpoonup> string"
  requests :: "request list"
  outputs :: sink

definition API_URL :: string where
  "API_URL = ''https://api.data365.co/v1.1''"

definition get_task_status :: "string \<Rightarrow> world \<Rightarrow> string option" where
  "get_task_status item w = task_cache w item"

definition set_task_status :: "string \<Rightarrow> string \<Rightarrow> world \<Rightarrow> world" where
  "set_task_status item st w = w\<lparr>task_cache := (task_cache w)(item \<mapsto> st)\<rparr>"

definition make_request :: "api \<Rightarrow> http_method \<Rightarrow> string \<Rightarrow> params \<Rightarrow> world \<Rightarrow> api_response \<times> world" where
  "make_request api m url ps w =
     (let req = \<lparr>req_method = m, req_url = url, req_params = clean_params ps\<rparr>
      in (api (requests w) req, w\<lparr>requests := requests w @ [req]\<rparr>))"

definition request_update :: "api \<Rightarrow> string \<Rightarrow> params \<Rightarrow> world \<Rightarrow> (exn + string) \<times> world" where
  "request_update api url ps w =
     (case make_request api Post (API_URL @ ''/'' @ url @ ''/update'') ps w of
        (resp, w') \<Rightarrow>
          if status resp \<noteq> ''accepted'' then (Inl ApiRequestError, w')
          else (case data resp of
                  None \<Rightarrow> (Inl TypeError, w')
                | Some (Task_id t) \<Rightarrow> (Inr t, w')
                | Some _ \<Rightarrow> (Inl KeyError, w')))"

definition get_update_status :: "api \<Rightarrow> string \<Rightarrow> params \<Rightarrow> world \<Rightarrow> (exn + string) \<times> world" where
  "get_update_status api url ps w =
     (case make_request api Get (API_URL @ ''/'' @ url @ ''/update'') ps w of
        (resp, w') \<Rightarrow>
          if status resp \<noteq> ''ok'' then (Inl ApiRequestError, w')
          else (case data resp of
                  None \<Rightarrow> (Inl TypeError, w')
                | Some (Job_status st) \<Rightarrow> (Inr st, w')
                | Some _ \<Rightarrow> (Inl KeyError, w')))"

text \<open>
  \<^verbatim>\<open>resp.error['code'] == 'NotFoundError'\<close>, evaluated only when the status is \<^verbatim>\<open>'fail'\<close>:
  \<^verbatim>\<open>TypeError\<close> when \<^verbatim>\<open>error\<close> is \<^verbatim>\<open>None\<close>, \<^verbatim>\<open>KeyError\<close> when it has no \<^verbatim>\<open>code\<close>.
\<close>

definition error_code_is :: "api_response \<Rightarrow> string \<Rightarrow> exn + bool" where
  "error_code_is resp c =
     (case error resp of
        None \<Rightarrow> Inl TypeError
      | Some e \<Rightarrow> (case map_of e ''code'' of None \<Rightarrow> Inl KeyError | Some c' \<Rightarrow> Inr (c' = c)))"

text \<open>What \<^verbatim>\<open>get_item\<close> makes of the answer.\<close>

definition item_of_response :: "api_response \<Rightarrow> exn + entity option" where
  "item_of_response resp =
     (case (if status resp = ''fail'' then error_code_is resp ''NotFoundError'' else Inr False) of
        Inl e \<Rightarrow> Inl e
      | Inr True \<Rightarrow> Inr None
      | Inr False \<Rightarrow>
          if status resp \<noteq> ''ok'' then Inl ApiRequestError
          else (case data resp of
                  None \<Rightarrow> Inr None
                | Some (Item x) \<Rightarrow> Inr (Some x)
                | Some _ \<Rightarrow> Inl KeyError))"

definition get_item :: "api \<Rightarrow> string \<Rightarrow> params \<Rightarrow> world \<Rightarrow> (exn + entity option) \<times> world" where
  "get_item api url ps w =
     (case make_request api Get (API_URL @ ''/'' @ url) ps w of
        (resp, w') \<Rightarrow> (item_of_response resp, w'))"

text \<open>The one request that \<^verbatim>\<open>get_item\<close> makes.\<close>

definition item_request :: "string \<Rightarrow> params \<Rightarrow> request" where
  "item_request url ps =
     \<lparr>req_method = Get, req_url = API_URL @ ''/'' @ url, req_params = clean_params ps\<rparr>"

text \<open>
  A \<^verbatim>\<open>'fail'\<close> answer whose error code is \<^verbatim>\<open>NotFoundError\<close>; and an answer that is not
  \<^verbatim>\<open>'ok'\<close> and, when its status is \<^verbatim>\<open>'fail'\<close>, carries an error code other than
  \<^verbatim>\<open>NotFoundError\<close>.
\<close>

definition not_found :: "api_response \<Rightarrow> bool" where
  "not_found resp \<longleftrightarrow> status resp = ''fail'' \<and> error_code_is resp ''NotFoundError'' = Inr True"

definition other_failure :: "api_response \<Rightarrow> bool" where
  "other_failure resp \<longleftrightarrow>
     status resp \<noteq> ''ok''
     \<and> (status resp \<noteq> ''fail'' \<or> error_code_is resp ''NotFoundError'' = Inr False)"

text \<open>
  \<^verbatim>\<open>get_collection\<close> is an asynchronous generator. Its state between two \<^verbatim>\<open>__anext__\<close>
  calls: not started (holding the caller's parameters), or suspended at \<^verbatim>\<open>yield\<close> with
  its own parameters and the page info of the answer just yielded.
\<close>

datatype page_gen = Gen_start params | Gen_yielded params bool "string option"

text \<open>One pass of the \<^verbatim>\<open>while True\<close> body up to the \<^verbatim>\<open>yield\<close> (or the \<^verbatim>\<open>return\<close>).\<close>

definition get_collection_page ::
  "api \<Rightarrow> string \<Rightarrow> params \<Rightarrow> world \<Rightarrow> (exn + (entity list \<times> page_gen) option) \<times> world" where
  "get_collection_page api url ps w =
     (case make_request api Get url ps w of
        (resp, w') \<Rightarrow>
          if status resp \<noteq> ''ok'' then (Inl ApiRequestError, w')
          else (case data resp of
                  None \<Rightarrow> (Inl TypeError, w')
                | Some (Page items has_next_page cursor) \<Rightarrow>
                    if items = [] then (Inr None, w')
                    else (Inr (Some (items, Gen_yielded ps has_next_page cursor)), w')
                | Some _ \<Rightarrow> (Inl KeyError, w')))"

text \<open>
  \<^verbatim>\<open>__anext__\<close>: \<open>Inr None\<close> is the end of the iteration, \<open>Inr (Some (batch, g))\<close> a yielded
  batch with the generator's next state.
\<close>

definition get_collection_next ::
  "api \<Rightarrow> string \<Rightarrow> page_gen \<Rightarrow> world \<Rightarrow> (exn + (entity list \<times> page_gen) option) \<times> world" where
  "get_collection_next api url g w =
     (case g of
        Gen_start ps \<Rightarrow>
          get_collection_page api (API_URL @ ''/'' @ url)
            (dict_set ''max_page_size'' (Some (Int_param 100)) (dict_set ''cursor'' None ps)) w
      | Gen_yielded ps has_next_page cursor \<Rightarrow>
          if \<not> has_next_page then (Inr None, w)
          else get_collection_page api (API_URL @ ''/'' @ url)
                 (dict_set ''cursor'' (map_option Str_param cursor) ps) w)"

text \<open>
  The generator consumed to its end: the batches it yields and how it ends (\<open>None\<close>
  normally, \<open>Some e\<close> by raising). The fuel \<open>n\<close> bounds the number of \<^verbatim>\<open>__anext__\<close> calls;
  \<open>None\<close> is a generator that has not ended within it.
\<close>

primrec get_collection_from ::
  "nat \<Rightarrow> api \<Rightarrow> string \<Rightarrow> page_gen \<Rightarrow> world \<Rightarrow> ((entity list list \<times> exn option) \<times> world) option" where
  "get_collection_from 0 api url g w = None"
| "get_collection_from (Suc n) api url g w =
     (case get_collection_next api url g w of
        (Inl e, w') \<Rightarrow> Some (([], Some e), w')
      | (Inr None, w') \<Rightarrow> Some (([], None), w')
      | (Inr (Some (batch, g')), w') \<Rightarrow>
          (case get_collection_from n api url g' w' of
             None \<Rightarrow> None
           | Some ((batches, ending), w'') \<Rightarrow> Some ((batch # batches, ending), w'')))"

definition get_collection ::
  "nat \<Rightarrow> api \<Rightarrow> string \<Rightarrow> params \<Rightarrow> world \<Rightarrow> ((entity list list \<times> exn option) \<times> world) option" where
  "get_collection n api url ps w = get_collection_from n api url (Gen_start ps) w"


section \<open>Crawl Orchestrator (modules/facebook/fetch.py)\<close>

text \<open>
  First the coroutines run one at a time: \<^verbatim>\<open>await asyncio.gather(*tasks_batch)\<close> over the
  sub-batches of \<^verbatim>\<open>ichunked(tasks, config.TASKS_BATCH_SIZE)\<close> is taken as running the
  tasks to completion in list order, stopping at the first exception, which is one of the
  orders in which the event loop can run them. The interleavings of concurrent
  coroutines at their \<^verbatim>\<open>await\<close> points are the subject of a later section. Time
  (\<^verbatim>\<open>asyncio.sleep\<close>) is not represented. A computation yields an exception or a value
  together with the new world; \<open>None\<close> means that it has not ended within its fuel, which
  bounds the depth of nested invocations, the number of pages of a collection and the
  number of polls of an update job.
\<close>

type_synonym 'a result = "((exn + 'a) \<times> world) option"

definition and_then :: "'a result \<Rightarrow> ('a \<Rightarrow> world \<Rightarrow> 'b result) \<Rightarrow> 'b result" where
  "and_then r f =
     (case r of None \<Rightarrow> None | Some (Inl e, w) \<Rightarrow> Some (Inl e, w) | Some (Inr x, w) \<Rightarrow> f x w)"

definition returns :: "'a \<Rightarrow> world \<Rightarrow> 'a result" where
  "returns x w = Some (Inr x, w)"

text \<open>
  What the functions put into their \<^verbatim>\<open>tasks\<close> lists. A spawned \<^verbatim>\<open>fetch_comment\<close> or
  \<^verbatim>\<open>fetch_post\<close> gets \<^verbatim>\<open>item_id\<close>, \<^verbatim>\<open>this_item\<close>, \<^verbatim>\<open>fetch_comments\<close> and \<^verbatim>\<open>max_comments\<close>; a
  spawned \<^verbatim>\<open>fetch_profile\<close> only the identifier, every other parameter at its default.
\<close>

datatype coroutine =
    Fetch_comment string "entity option" bool "int option"
  | Fetch_post string "entity option" bool "int option"
  | Fetch_profile string
  | Save_posts "entity list"
  | Save_comments "entity list"
  | Save_profiles "entity list"
  | Save_searches_for_posts "entity list"
  | Save_connections string "string list" string

type_synonym awaiter = "coroutine \<Rightarrow> world \<Rightarrow> unit result"

text \<open>
  \<^verbatim>\<open>for tasks_batch in ichunked(tasks, config.TASKS_BATCH_SIZE): await asyncio.gather(*tasks_batch)\<close>
\<close>

primrec run_tasks :: "awaiter \<Rightarrow> coroutine list \<Rightarrow> world \<Rightarrow> unit result" where
  "run_tasks aw [] w = returns () w"
| "run_tasks aw (t # ts) w = and_then (aw t w) (\<lambda>_. run_tasks aw ts)"

text \<open>A save operation run on the world's sink.\<close>

definition on_output :: "(sink \<Rightarrow> exn option \<times> sink) \<Rightarrow> world \<Rightarrow> unit result" where
  "on_output save w =
     (case save (outputs w) of
        (None, s) \<Rightarrow> Some (Inr (), w\<lparr>outputs := s\<rparr>)
      | (Some e, s) \<Rightarrow> Some (Inl e, w\<lparr>outputs := s\<rparr>))"

text \<open>
  The update block, the same in \<^verbatim>\<open>fetch_post\<close>, \<^verbatim>\<open>fetch_profile\<close> and
  \<^verbatim>\<open>fetch_search_for_posts\<close>: the polling loop
  \<^verbatim>\<open>while True: sleep; task_status = get_update_status(..); if task_status in ('finished', 'fail', 'unknown'): set_task_status(item_id, 'collecting'); break\<close>
\<close>

primrec poll_update :: "nat \<Rightarrow> api \<Rightarrow> string \<Rightarrow> params \<Rightarrow> string \<Rightarrow> world \<Rightarrow> unit result" where
  "poll_update 0 api url ps item w = None"
| "poll_update (Suc n) api url ps item w =
     (case get_update_status api url ps w of
        (Inl e, w') \<Rightarrow> Some (Inl e, w')
      | (Inr task_status, w') \<Rightarrow>
          if task_status \<in> {''finished'', ''fail'', ''unknown''}
          then returns () (set_task_status item ''collecting'' w')
          else poll_update n api url ps item w')"

text \<open>
  \<^verbatim>\<open>if task_status is None: request_update(..); set_task_status(item_id, 'created')\<close>, then
  the polling loop. \<open>task_status\<close> is the local variable read from the task cache earlier.
\<close>

definition update_job ::
  "nat \<Rightarrow> api \<Rightarrow> string \<Rightarrow> params \<Rightarrow> string \<Rightarrow> string option \<Rightarrow> world \<Rightarrow> unit result" where
  "update_job n api url ps item task_status w =
     and_then
       (if task_status = None
        then (case request_update api url ps w of
                (Inl e, w') \<Rightarrow> Some (Inl e, w')
              | (Inr task_id, w') \<Rightarrow> returns () (set_task_status item ''created'' w'))
        else returns () w)
       (\<lambda>_. poll_update n api url ps item)"

text \<open>
  \<^verbatim>\<open>if this_item: x = this_item else: x = get_item(..); if x is not None: tasks.append(save([x]))\<close>:
  the record, if any, and the initial \<^verbatim>\<open>tasks\<close>.
\<close>

definition fetch_self ::
  "api \<Rightarrow> string \<Rightarrow> params \<Rightarrow> entity option \<Rightarrow> (entity list \<Rightarrow> coroutine) \<Rightarrow> world
     \<Rightarrow> (entity option \<times> coroutine list) result" where
  "fetch_self api url ps this_item save w =
     (case this_item of
        Some x \<Rightarrow> returns (Some x, []) w
      | None \<Rightarrow>
          (case get_item api url ps w of
             (Inl e, w') \<Rightarrow> Some (Inl e, w')
           | (Inr None, w') \<Rightarrow> returns (None, []) w'
           | (Inr (Some x), w') \<Rightarrow> returns (Some x, [save [x]]) w'))"

text \<open>\<^verbatim>\<open>if x['owner_id']: tasks.append(fetch_profile(x['owner_id']))\<close>\<close>

definition profile_task :: "string option \<Rightarrow> coroutine list" where
  "profile_task ref = (case ref of None \<Rightarrow> [] | Some p \<Rightarrow> if p = [] then [] else [Fetch_profile p])"

text \<open>
  The \<^verbatim>\<open>async for batch in get_collection(..)\<close> loop, the same for every child relation:
  the tasks of the batch (\<open>spawn batch\<close>: one fetch per child, the save of the batch, the
  save of its connections) are added to \<^verbatim>\<open>tasks\<close>; the count is compared with the limit
  and the loop left if it is reached; otherwise the tasks are awaited and cleared. The
  value is the \<^verbatim>\<open>tasks\<close> list after the loop.
\<close>

primrec collect_children ::
  "nat \<Rightarrow> api \<Rightarrow> awaiter \<Rightarrow> string \<Rightarrow> (entity list \<Rightarrow> coroutine list) \<Rightarrow> int option
     \<Rightarrow> page_gen \<Rightarrow> coroutine list \<Rightarrow> nat \<Rightarrow> world \<Rightarrow> coroutine list result" where
  "collect_children 0 api aw url spawn max_items g tasks fetched_count w = None"
| "collect_children (Suc n) api aw url spawn max_items g tasks fetched_count w =
     (case get_collection_next api url g w of
        (Inl e, w') \<Rightarrow> Some (Inl e, w')
      | (Inr None, w') \<Rightarrow> returns tasks w'
      | (Inr (Some (batch, g')), w') \<Rightarrow>
          (let tasks' = tasks @ spawn batch;
               fetched_count' = fetched_count + length batch
           in if (case max_items of None \<Rightarrow> False | Some m \<Rightarrow> m \<le> int fetched_count')
              then returns tasks' w'
              else and_then (run_tasks aw tasks' w')
                     (\<lambda>_. collect_children n api aw url spawn max_items g' [] fetched_count')))"

text \<open>The end of every fetch function: the remaining tasks, then status \<^verbatim>\<open>finished\<close>.\<close>

definition finish :: "awaiter \<Rightarrow> string \<Rightarrow> coroutine list \<Rightarrow> world \<Rightarrow> unit result" where
  "finish aw item tasks w =
     and_then (run_tasks aw tasks w) (\<lambda>_ w'. returns () (set_task_status item ''finished'' w'))"

definition flag :: "bool \<Rightarrow> param option" where
  "flag b = Some (Int_param (if b then 1 else 0))"

text \<open>The \<^verbatim>\<open>params\<close> dictionaries of the four functions, and \<^verbatim>\<open>{**params, 'order_by': 'date_desc'}\<close>.\<close>

definition comment_params :: "bool \<Rightarrow> int option \<Rightarrow> params" where
  "comment_params fetch_comments max_comments =
     [(''load_comments'', flag fetch_comments),
      (''max_comments'', map_option Int_param max_comments)]"

definition post_params :: "bool \<Rightarrow> int option \<Rightarrow> params" where
  "post_params fetch_comments max_comments =
     [(''load_comments'', flag fetch_comments),
      (''max_comments'', map_option Int_param max_comments)]"

definition profile_params ::
  "bool \<Rightarrow> bool \<Rightarrow> bool \<Rightarrow> int option \<Rightarrow> int option \<Rightarrow> string option \<Rightarrow> string option \<Rightarrow> params" where
  "profile_params fetch_feed_posts fetch_community_posts fetch_comments max_posts max_comments
       from_date to_date =
     [(''from_date'', map_option Str_param from_date),
      (''to_date'', map_option Str_param to_date),
      (''load_feed_posts'', flag fetch_feed_posts),
      (''load_community_posts'', flag fetch_community_posts),
      (''load_comments'', flag fetch_comments),
      (''max_posts'', map_option Int_param max_posts),
      (''max_comments'', map_option Int_param max_comments)]"

definition search_params ::
  "bool \<Rightarrow> int option \<Rightarrow> int option \<Rightarrow> string option \<Rightarrow> string option \<Rightarrow> params" where
  "search_params fetch_comments max_posts max_comments from_date to_date =
     [(''from_date'', map_option Str_param from_date),
      (''to_date'', map_option Str_param to_date),
      (''load_comments'', flag fetch_comments),
      (''max_posts'', map_option Int_param max_posts),
      (''max_comments'', map_option Int_param max_comments)]"

definition date_desc :: "params \<Rightarrow> params" where
  "date_desc ps = dict_set ''order_by'' (Some (Str_param ''date_desc'')) ps"

subsection \<open>fetch\_comment\<close>

definition replies_tasks :: "bool \<Rightarrow> int option \<Rightarrow> entity \<Rightarrow> entity list \<Rightarrow> coroutine list" where
  "replies_tasks fetch_comments max_comments comment replies_batch =
     map (\<lambda>reply. Fetch_comment (item_id reply) (Some reply) fetch_comments max_comments) replies_batch
     @ [Save_comments replies_batch,
        Save_connections (item_id comment) (map item_id replies_batch) ''facebook/comment/replies'']"

definition fetch_comment ::
  "nat \<Rightarrow> api \<Rightarrow> awaiter \<Rightarrow> string \<Rightarrow> entity option \<Rightarrow> bool \<Rightarrow> int option \<Rightarrow> world \<Rightarrow> unit result" where
  "fetch_comment n api aw item this_item fetch_comments max_comments w =
     (if get_task_status item w = Some ''finished'' then returns () w
      else
        let ps = comment_params fetch_comments max_comments
        in and_then (fetch_self api (''facebook/comment/'' @ item) ps this_item (\<lambda>xs. Save_comments xs) w)
             (\<lambda>(comment, tasks) w1.
                case comment of
                  None \<Rightarrow> finish aw item tasks w1
                | Some c \<Rightarrow>
                    (let tasks = tasks @ profile_task (owner_id c)
                     in if fetch_comments \<and> truthy_int (comments_count c)
                        then and_then
                               (collect_children n api aw (''facebook/comment/'' @ item @ ''/replies'')
                                  (replies_tasks fetch_comments max_comments c) max_comments
                                  (Gen_start (date_desc ps))
                                  tasks 0 w1)
                               (finish aw item)
                        else finish aw item tasks w1)))"

subsection \<open>fetch\_post\<close>

definition comments_tasks :: "bool \<Rightarrow> int option \<Rightarrow> entity \<Rightarrow> entity list \<Rightarrow> coroutine list" where
  "comments_tasks fetch_comments max_comments post comments_batch =
     map (\<lambda>comment. Fetch_comment (item_id comment) (Some comment) fetch_comments max_comments)
       comments_batch
     @ [Save_comments comments_batch,
        Save_connections (item_id post) (map item_id comments_batch) ''facebook/post/comments'']"

text \<open>Lines 114 to 173: fetch self, fan out, mark finished.\<close>

definition fetch_post_collect ::
  "nat \<Rightarrow> api \<Rightarrow> awaiter \<Rightarrow> string \<Rightarrow> params \<Rightarrow> entity option \<Rightarrow> bool \<Rightarrow> int option \<Rightarrow> world \<Rightarrow> unit result" where
  "fetch_post_collect n api aw item ps this_item fetch_comments max_comments w =
     and_then (fetch_self api (''facebook/post/'' @ item) ps this_item (\<lambda>xs. Save_posts xs) w)
       (\<lambda>(post, tasks) w1.
          case post of
            None \<Rightarrow> finish aw item tasks w1
          | Some p \<Rightarrow>
              (let tasks = tasks @ profile_task (owner_id p) @ profile_task (group_id p)
               in if fetch_comments \<and> truthy_int (comments_count p)
                  then and_then
                         (collect_children n api aw (''facebook/post/'' @ item @ ''/comments'')
                            (comments_tasks fetch_comments max_comments p) max_comments
                            (Gen_start (date_desc ps))
                            tasks 0 w1)
                         (finish aw item)
                  else finish aw item tasks w1))"

text \<open>
  Lines 98 to 173, what follows the cache check: \<open>task_status\<close> is the value that the
  check has read.
\<close>

definition fetch_post_body ::
  "nat \<Rightarrow> api \<Rightarrow> awaiter \<Rightarrow> string \<Rightarrow> string option \<Rightarrow> bool \<Rightarrow> entity option \<Rightarrow> bool \<Rightarrow> int option
     \<Rightarrow> world \<Rightarrow> unit result" where
  "fetch_post_body n api aw item task_status update this_item fetch_comments max_comments w =
     (let ps = post_params fetch_comments max_comments
      in and_then
           (if update then update_job n api (''facebook/post/'' @ item) ps item task_status w
            else returns () w)
           (\<lambda>_. fetch_post_collect n api aw item ps this_item fetch_comments max_comments))"

definition fetch_post ::
  "nat \<Rightarrow> api \<Rightarrow> awaiter \<Rightarrow> string \<Rightarrow> bool \<Rightarrow> entity option \<Rightarrow> bool \<Rightarrow> int option \<Rightarrow> world \<Rightarrow> unit result" where
  "fetch_post n api aw item update this_item fetch_comments max_comments w =
     (let task_status = get_task_status item w
      in if task_status = Some ''finished'' then returns () w
         else fetch_post_body n api aw item task_status update this_item fetch_comments
                max_comments w)"

subsection \<open>fetch\_profile\<close>

text \<open>
  \<open>from_date\<close> and \<open>to_date\<close> stand for the \<^verbatim>\<open>isoformat()\<close> text of the dates, which is all
  the function uses of them.
\<close>

definition posts_tasks ::
  "bool \<Rightarrow> int option \<Rightarrow> entity \<Rightarrow> string \<Rightarrow> entity list \<Rightarrow> coroutine list" where
  "posts_tasks fetch_comments max_comments parent collection posts_batch =
     map (\<lambda>post. Fetch_post (item_id post) (Some post) fetch_comments max_comments) posts_batch
     @ [Save_posts posts_batch,
        Save_connections (item_id parent) (map item_id posts_batch) collection]"

definition fetch_profile ::
  "nat \<Rightarrow> api \<Rightarrow> awaiter \<Rightarrow> string \<Rightarrow> bool \<Rightarrow> entity option \<Rightarrow> bool \<Rightarrow> bool \<Rightarrow> bool
     \<Rightarrow> int option \<Rightarrow> int option \<Rightarrow> string option \<Rightarrow> string option \<Rightarrow> world \<Rightarrow> unit result" where
  "fetch_profile n api aw item update this_item fetch_feed_posts fetch_community_posts
       fetch_comments max_posts max_comments from_date to_date w =
     (if get_task_status item w = Some ''finished'' then returns () w
      else
        let ps = profile_params fetch_feed_posts fetch_community_posts fetch_comments max_posts
                   max_comments from_date to_date
        in and_then
             (if update
              then update_job n api (''facebook/profile/'' @ item) ps item (get_task_status item w) w
              else returns () w)
             (\<lambda>_ w0.
                and_then (fetch_self api (''facebook/profile/'' @ item) ps this_item (\<lambda>xs. Save_profiles xs) w0)
                  (\<lambda>(profile, tasks) w1.
                     case profile of
                       None \<Rightarrow> finish aw item tasks w1
                     | Some p \<Rightarrow>
                         and_then
                           (if fetch_feed_posts
                            then collect_children n api aw (''facebook/profile/'' @ item @ ''/feed/posts'')
                                   (posts_tasks fetch_comments max_comments p ''facebook/profile/feed/posts'')
                                   max_posts (Gen_start (date_desc ps)) tasks 0 w1
                            else returns tasks w1)
                           (\<lambda>tasks w2.
                              and_then
                                (if fetch_community_posts
                                 then collect_children n api aw
                                        (''facebook/profile/'' @ item @ ''/community/posts'')
                                        (posts_tasks fetch_comments max_comments p
                                           ''facebook/profile/community/posts'')
                                        max_posts (Gen_start (date_desc ps)) tasks 0 w2
                                 else returns tasks w2)
                                (finish aw item)))))"

subsection \<open>fetch\_search\_for\_posts\<close>

definition fetch_search_for_posts ::
  "(string \<Rightarrow> string) \<Rightarrow> nat \<Rightarrow> api \<Rightarrow> awaiter \<Rightarrow> string \<Rightarrow> bool \<Rightarrow> entity option \<Rightarrow> bool
     \<Rightarrow> int option \<Rightarrow> int option \<Rightarrow> string option \<Rightarrow> string option \<Rightarrow> search_type \<Rightarrow> world \<Rightarrow> unit result" where
  "fetch_search_for_posts casefold n api aw request update this_item fetch_comments
       max_posts max_comments from_date to_date stype w =
     (let item = search_item_id casefold (\<lambda>text. text) request from_date to_date stype
      in if get_task_status item w = Some ''finished'' then returns () w
      else
        let ps = search_params fetch_comments max_posts max_comments from_date to_date;
            url = ''facebook/search/'' @ request @ ''/posts/'' @ search_type_str stype
        in and_then
             (if update then update_job n api url ps item (get_task_status item w) w
              else returns () w)
             (\<lambda>_ w0.
                and_then (fetch_self api url ps this_item (\<lambda>xs. Save_searches_for_posts xs) w0)
                  (\<lambda>(search, tasks) w1.
                     case search of
                       None \<Rightarrow> finish aw item tasks w1
                     | Some s \<Rightarrow>
                         and_then
                           (collect_children n api aw (url @ ''/posts'')
                              (posts_tasks fetch_comments max_comments s ''facebook/search/posts'')
                              max_posts
                              (Gen_start (date_desc ps))
                              tasks 0 w1)
                           (finish aw item))))"

subsection \<open>Awaiting a spawned coroutine\<close>

primrec await :: "nat \<Rightarrow> api \<Rightarrow> coroutine \<Rightarrow> world \<Rightarrow> unit result" where
  "await 0 api c w = None"
| "await (Suc n) api c w =
     (case c of
        Fetch_comment item this_item fetch_comments max_comments \<Rightarrow>
          fetch_comment n api (await n api) item this_item fetch_comments max_comments w
      | Fetch_post item this_item fetch_comments max_comments \<Rightarrow>
          fetch_post n api (await n api) item False this_item fetch_comments max_comments w
      | Fetch_profile item \<Rightarrow>
          fetch_profile n api (await n api) item False None False False False None None None None w
      | Save_posts items \<Rightarrow> on_output (save_posts items) w
      | Save_comments items \<Rightarrow> on_output (save_comments items) w
      | Save_profiles items \<Rightarrow> on_output (save_profiles items) w
      | Save_searches_for_posts items \<Rightarrow> on_output (save_searches_for_posts items) w
      | Save_connections parent ids collection \<Rightarrow>
          on_output (save_connections parent ids collection) w)"

text \<open>
  The top-level invocations that run.py hands to the scheduler, with fuel \<open>n\<close>:
  \<^verbatim>\<open>update=True\<close>, no \<^verbatim>\<open>this_item\<close>.
\<close>

definition crawl_post :: "nat \<Rightarrow> api \<Rightarrow> string \<Rightarrow> bool \<Rightarrow> int option \<Rightarrow> world \<Rightarrow> unit result" where
  "crawl_post n api item fetch_comments max_comments w =
     fetch_post n api (await n api) item True None fetch_comments max_comments w"

definition crawl_profile ::
  "nat \<Rightarrow> api \<Rightarrow> string \<Rightarrow> bool \<Rightarrow> bool \<Rightarrow> bool \<Rightarrow> int option \<Rightarrow> int option
     \<Rightarrow> string option \<Rightarrow> string option \<Rightarrow> world \<Rightarrow> unit result" where
  "crawl_profile n api item fetch_feed_posts fetch_community_posts fetch_comments max_posts
       max_comments from_date to_date w =
     fetch_profile n api (await n api) item True None fetch_feed_posts fetch_community_posts
       fetch_comments max_posts max_comments from_date to_date w"

definition crawl_search ::
  "(string \<Rightarrow> string) \<Rightarrow> nat \<Rightarrow> api \<Rightarrow> string \<Rightarrow> bool \<Rightarrow> int option \<Rightarrow> int option
     \<Rightarrow> string option \<Rightarrow> string option \<Rightarrow> search_type \<Rightarrow> world \<Rightarrow> unit result" where
  "crawl_search casefold n api request fetch_comments max_posts max_comments from_date to_date
       stype w =
     fetch_search_for_posts casefold n api (await n api) request True None fetch_comments
       max_posts max_comments from_date to_date stype w"

section \<open>The coroutines of fetch.py as concurrent tasks\<close>

text \<open>
  The same functions once more, with their \<^verbatim>\<open>await\<close> points: between two of them a coroutine
  runs alone, at each of them any other task may run. A coroutine is given by what remains
  of it: it has returned; it has raised; it awaits an operation on the task cache, the
  remote API or the sink, which is done in one step on the world and yields the rest; or
  it awaits \<^verbatim>\<open>asyncio.gather\<close> of coroutines that are still to be made tasks, with the rest
  that follows when all of them have returned. \<open>Wait\<close> is \<open>Gather\<close> after the tasks have
  been created, holding their positions in the pool. \<open>Stuck\<close> ends a coroutine whose fuel
  (nested invocations, pages, polls) is exhausted: it never resumes.
\<close>

datatype co =
    Return
  | Throw exn
  | Stuck
  | Act "world \<Rightarrow> co \<times> world"
  | Gather "co list" co
  | Wait "nat list" co

text \<open>An awaited operation that returns a value or raises.\<close>

definition act :: "(world \<Rightarrow> (exn + 'a) \<times> world) \<Rightarrow> ('a \<Rightarrow> co) \<Rightarrow> co" where
  "act f k = Act (\<lambda>w. case f w of (Inl e, w') \<Rightarrow> (Throw e, w') | (Inr x, w') \<Rightarrow> (k x, w'))"

text \<open>\<^verbatim>\<open>await utils.get_task_status(item_id)\<close> and \<^verbatim>\<open>await utils.set_task_status(item_id, status)\<close>\<close>

definition read_status :: "string \<Rightarrow> (string option \<Rightarrow> co) \<Rightarrow> co" where
  "read_status item k = Act (\<lambda>w. (k (get_task_status item w), w))"

definition write_status :: "string \<Rightarrow> string \<Rightarrow> co \<Rightarrow> co" where
  "write_status item st k = Act (\<lambda>w. (k, set_task_status item st w))"

text \<open>\<^verbatim>\<open>await asyncio.sleep(..)\<close>: the coroutine is suspended, the world is not touched.\<close>

definition sleep :: "co \<Rightarrow> co" where
  "sleep k = Act (\<lambda>w. (k, w))"

text \<open>A save function: it has no \<^verbatim>\<open>await\<close> inside that suspends it, and is one step.\<close>

definition save_task :: "(sink \<Rightarrow> exn option \<times> sink) \<Rightarrow> co" where
  "save_task save =
     Act (\<lambda>w. case save (outputs w) of
                 (None, s) \<Rightarrow> (Return, w\<lparr>outputs := s\<rparr>)
               | (Some e, s) \<Rightarrow> (Throw e, w\<lparr>outputs := s\<rparr>))"

text \<open>\<^verbatim>\<open>more_itertools.ichunked(iterable, n)\<close>, and \<^verbatim>\<open>config.TASKS_BATCH_SIZE\<close>.\<close>

fun ichunked :: "nat \<Rightarrow> 'a list \<Rightarrow> 'a list list" where
  "ichunked n xs = (if n = 0 \<or> xs = [] then [] else take n xs # ichunked n (drop n xs))"

declare ichunked.simps [simp del]

definition TASKS_BATCH_SIZE :: nat where
  "TASKS_BATCH_SIZE = 5"

text \<open>
  \<^verbatim>\<open>for tasks_batch in ichunked(tasks, config.TASKS_BATCH_SIZE): await asyncio.gather(*tasks_batch)\<close>,
  then \<open>k\<close>. \<open>start\<close> makes the coroutine of a task when \<^verbatim>\<open>gather\<close> schedules it.
\<close>

definition gather_batches :: "(coroutine \<Rightarrow> co) \<Rightarrow> coroutine list \<Rightarrow> co \<Rightarrow> co" where
  "gather_batches start tasks k =
     foldr (\<lambda>tasks_batch rest. Gather (map start tasks_batch) rest)
       (ichunked TASKS_BATCH_SIZE tasks) k"

text \<open>The polling loop and the update block, see \<open>poll_update\<close> and \<open>update_job\<close>.\<close>

primrec poll_update_co :: "nat \<Rightarrow> api \<Rightarrow> string \<Rightarrow> params \<Rightarrow> string \<Rightarrow> co \<Rightarrow> co" where
  "poll_update_co 0 api url ps item k = Stuck"
| "poll_update_co (Suc n) api url ps item k =
     sleep
       (act (get_update_status api url ps)
          (\<lambda>task_status.
             if task_status \<in> {''finished'', ''fail'', ''unknown''}
             then write_status item ''collecting'' k
             else poll_update_co n api url ps item k))"

definition update_job_co :: "nat \<Rightarrow> api \<Rightarrow> string \<Rightarrow> params \<Rightarrow> string \<Rightarrow> string option \<Rightarrow> co \<Rightarrow> co" where
  "update_job_co n api url ps item task_status k =
     (if task_status = None
      then act (request_update api url ps)
             (\<lambda>task_id. write_status item ''created'' (poll_update_co n api url ps item k))
      else poll_update_co n api url ps item k)"

text \<open>Fetching the record itself, see \<open>fetch_self\<close>.\<close>

definition fetch_self_co ::
  "api \<Rightarrow> string \<Rightarrow> params \<Rightarrow> entity option \<Rightarrow> (entity list \<Rightarrow> coroutine)
     \<Rightarrow> (entity option \<times> coroutine list \<Rightarrow> co) \<Rightarrow> co" where
  "fetch_self_co api url ps this_item save k =
     (case this_item of
        Some x \<Rightarrow> k (Some x, [])
      | None \<Rightarrow>
          act (get_item api url ps)
            (\<lambda>item. case item of None \<Rightarrow> k (None, []) | Some x \<Rightarrow> k (Some x, [save [x]])))"

text \<open>The loop over the pages of a child relation, see \<open>collect_children\<close>.\<close>

primrec collect_children_co ::
  "nat \<Rightarrow> api \<Rightarrow> (coroutine \<Rightarrow> co) \<Rightarrow> string \<Rightarrow> (entity list \<Rightarrow> coroutine list) \<Rightarrow> int option
     \<Rightarrow> page_gen \<Rightarrow> coroutine list \<Rightarrow> nat \<Rightarrow> (coroutine list \<Rightarrow> co) \<Rightarrow> co" where
  "collect_children_co 0 api start url spawn max_items g tasks fetched_count k = Stuck"
| "collect_children_co (Suc n) api start url spawn max_items g tasks fetched_count k =
     act (get_collection_next api url g)
       (\<lambda>page.
          case page of
            None \<Rightarrow> k tasks
          | Some (batch, g') \<Rightarrow>
              (let tasks' = tasks @ spawn batch;
                   fetched_count' = fetched_count + length batch
               in if (case max_items of None \<Rightarrow> False | Some m \<Rightarrow> m \<le> int fetched_count')
                  then k tasks'
                  else gather_batches start tasks'
                         (collect_children_co n api start url spawn max_items g' []
                            fetched_count' k)))"

text \<open>The end of every fetch function, see \<open>finish\<close>.\<close>

definition finish_co :: "(coroutine \<Rightarrow> co) \<Rightarrow> string \<Rightarrow> coroutine list \<Rightarrow> co" where
  "finish_co start item tasks = gather_batches start tasks (write_status item ''finished'' Return)"

definition fetch_comment_co ::
  "nat \<Rightarrow> api \<Rightarrow> (coroutine \<Rightarrow> co) \<Rightarrow> string \<Rightarrow> entity option \<Rightarrow> bool \<Rightarrow> int option \<Rightarrow> co" where
  "fetch_comment_co n api start item this_item fetch_comments max_comments =
     read_status item
       (\<lambda>task_status.
          if task_status = Some ''finished'' then Return
          else
            let ps = comment_params fetch_comments max_comments
            in fetch_self_co api (''facebook/comment/'' @ item) ps this_item (\<lambda>xs. Save_comments xs)
                 (\<lambda>(comment, tasks).
                    case comment of
                      None \<Rightarrow> finish_co start item tasks
                    | Some c \<Rightarrow>
                        (let tasks = tasks @ profile_task (owner_id c)
                         in if fetch_comments \<and> truthy_int (comments_count c)
                            then collect_children_co n api start
                                   (''facebook/comment/'' @ item @ ''/replies'')
                                   (replies_tasks fetch_comments max_comments c) max_comments
                                   (Gen_start (date_desc ps)) tasks 0 (finish_co start item)
                            else finish_co start item tasks)))"

definition fetch_post_collect_co ::
  "nat \<Rightarrow> api \<Rightarrow> (coroutine \<Rightarrow> co) \<Rightarrow> string \<Rightarrow> params \<Rightarrow> entity option \<Rightarrow> bool \<Rightarrow> int option \<Rightarrow> co" where
  "fetch_post_collect_co n api start item ps this_item fetch_comments max_comments =
     fetch_self_co api (''facebook/post/'' @ item) ps this_item (\<lambda>xs. Save_posts xs)
       (\<lambda>(post, tasks).
          case post of
            None \<Rightarrow> finish_co start item tasks
          | Some p \<Rightarrow>
              (let tasks = tasks @ profile_task (owner_id p) @ profile_task (group_id p)
               in if fetch_comments \<and> truthy_int (comments_count p)
                  then collect_children_co n api start (''facebook/post/'' @ item @ ''/comments'')
                         (comments_tasks fetch_comments max_comments p) max_comments
                         (Gen_start (date_desc ps)) tasks 0 (finish_co start item)
                  else finish_co start item tasks))"

definition fetch_post_co ::
  "nat \<Rightarrow> api \<Rightarrow> (coroutine \<Rightarrow> co) \<Rightarrow> string \<Rightarrow> bool \<Rightarrow> entity option \<Rightarrow> bool \<Rightarrow> int option \<Rightarrow> co" where
  "fetch_post_co n api start item update this_item fetch_comments max_comments =
     read_status item
       (\<lambda>task_status.
          if task_status = Some ''finished'' then Return
          else
            let ps = post_params fetch_comments max_comments;
                rest = fetch_post_collect_co n api start item ps this_item fetch_comments max_comments
            in if update
               then update_job_co n api (''facebook/post/'' @ item) ps item task_status rest
               else rest)"

text \<open>
  In \<^verbatim>\<open>fetch_profile\<close> and \<^verbatim>\<open>fetch_search_for_posts\<close> the update block reads the task cache
  again (lines 204 and 332), which is one more \<^verbatim>\<open>await\<close>.
\<close>

definition fetch_profile_co ::
  "nat \<Rightarrow> api \<Rightarrow> (coroutine \<Rightarrow> co) \<Rightarrow> string \<Rightarrow> bool \<Rightarrow> entity option \<Rightarrow> bool \<Rightarrow> bool \<Rightarrow> bool
     \<Rightarrow> int option \<Rightarrow> int option \<Rightarrow> string option \<Rightarrow> string option \<Rightarrow> co" where
  "fetch_profile_co n api start item update this_item fetch_feed_posts fetch_community_posts
       fetch_comments max_posts max_comments from_date to_date =
     read_status item
       (\<lambda>task_status.
          if task_status = Some ''finished'' then Return
          else
            let ps = profile_params fetch_feed_posts fetch_community_posts fetch_comments max_posts
                       max_comments from_date to_date;
                rest =
                  fetch_self_co api (''facebook/profile/'' @ item) ps this_item (\<lambda>xs. Save_profiles xs)
                    (\<lambda>(profile, tasks).
                       case profile of
                         None \<Rightarrow> finish_co start item tasks
                       | Some p \<Rightarrow>
                           (let community =
                                  (\<lambda>tasks.
                                     if fetch_community_posts
                                     then collect_children_co n api start
                                            (''facebook/profile/'' @ item @ ''/community/posts'')
                                            (posts_tasks fetch_comments max_comments p
                                               ''facebook/profile/community/posts'')
                                            max_posts (Gen_start (date_desc ps)) tasks 0
                                            (finish_co start item)
                                     else finish_co start item tasks)
                            in if fetch_feed_posts
                               then collect_children_co n api start
                                      (''facebook/profile/'' @ item @ ''/feed/posts'')
                                      (posts_tasks fetch_comments max_comments p
                                         ''facebook/profile/feed/posts'')
                                      max_posts (Gen_start (date_desc ps)) tasks 0 community
                               else community tasks))
            in if update
               then read_status item
                      (\<lambda>task_status.
                         update_job_co n api (''facebook/profile/'' @ item) ps item task_status rest)
               else rest)"

definition fetch_search_for_posts_co ::
  "(string \<Rightarrow> string) \<Rightarrow> nat \<Rightarrow> api \<Rightarrow> (coroutine \<Rightarrow> co) \<Rightarrow> string \<Rightarrow> bool \<Rightarrow> entity option \<Rightarrow> bool
     \<Rightarrow> int option \<Rightarrow> int option \<Rightarrow> string option \<Rightarrow> string option \<Rightarrow> search_type \<Rightarrow> co" where
  "fetch_search_for_posts_co casefold n api start request update this_item fetch_comments
       max_posts max_comments from_date to_date stype =
     (let item = search_item_id casefold (\<lambda>text. text) request from_date to_date stype
      in read_status item
           (\<lambda>task_status.
              if task_status = Some ''finished'' then Return
              else
                let ps = search_params fetch_comments max_posts max_comments from_date to_date;
                    url = ''facebook/search/'' @ request @ ''/posts/'' @ search_type_str stype;
                    rest =
                      fetch_self_co api url ps this_item (\<lambda>xs. Save_searches_for_posts xs)
                        (\<lambda>(search, tasks).
                           case search of
                             None \<Rightarrow> finish_co start item tasks
                           | Some s \<Rightarrow>
                               collect_children_co n api start (url @ ''/posts'')
                                 (posts_tasks fetch_comments max_comments s ''facebook/search/posts'')
                                 max_posts (Gen_start (date_desc ps)) tasks 0
                                 (finish_co start item))
                in if update
                   then read_status item
                          (\<lambda>task_status. update_job_co n api url ps item task_status rest)
                   else rest))"

text \<open>The coroutine of a task that a fetch function has put into its \<^verbatim>\<open>tasks\<close> list.\<close>

primrec task :: "nat \<Rightarrow> api \<Rightarrow> coroutine \<Rightarrow> co" where
  "task 0 api c = Stuck"
| "task (Suc n) api c =
     (case c of
        Fetch_comment item this_item fetch_comments max_comments \<Rightarrow>
          fetch_comment_co n api (task n api) item this_item fetch_comments max_comments
      | Fetch_post item this_item fetch_comments max_comments \<Rightarrow>
          fetch_post_co n api (task n api) item False this_item fetch_comments max_comments
      | Fetch_profile item \<Rightarrow>
          fetch_profile_co n api (task n api) item False None False False False None None None None
      | Save_posts items \<Rightarrow> save_task (save_posts items)
      | Save_comments items \<Rightarrow> save_task (save_comments items)
      | Save_profiles items \<Rightarrow> save_task (save_profiles items)
      | Save_searches_for_posts items \<Rightarrow> save_task (save_searches_for_posts items)
      | Save_connections parent ids collection \<Rightarrow>
          save_task (save_connections parent ids collection))"

text \<open>
  What is started: one of the top-level invocations of run.py (\<^verbatim>\<open>update=True\<close>, no
  \<^verbatim>\<open>this_item\<close>), with its parameters, or a task of a fetch function. \<open>updates\<close> is the item
  on which the update block of an invocation writes the statuses \<^verbatim>\<open>created\<close> and
  \<^verbatim>\<open>collecting\<close>.
\<close>

datatype crawl =
    Post_crawl string bool "int option"
  | Profile_crawl string bool bool bool "int option" "int option" "string option" "string option"
  | Search_crawl string bool "int option" "int option" "string option" "string option" search_type
  | Child coroutine

fun start :: "(string \<Rightarrow> string) \<Rightarrow> nat \<Rightarrow> api \<Rightarrow> crawl \<Rightarrow> co" where
  "start casefold n api (Post_crawl item fetch_comments max_comments) =
     fetch_post_co n api (task n api) item True None fetch_comments max_comments"
| "start casefold n api (Profile_crawl item fetch_feed_posts fetch_community_posts fetch_comments
       max_posts max_comments from_date to_date) =
     fetch_profile_co n api (task n api) item True None fetch_feed_posts fetch_community_posts
       fetch_comments max_posts max_comments from_date to_date"
| "start casefold n api (Search_crawl request fetch_comments max_posts max_comments from_date
       to_date stype) =
     fetch_search_for_posts_co casefold n api (task n api) request True None fetch_comments
       max_posts max_comments from_date to_date stype"
| "start casefold n api (Child c) = task n api c"


subsection \<open>The event loop\<close>

text \<open>
  The tasks of the event loop are a pool of coroutines, a task being known by its position.
  One step resumes the task at position \<open>i\<close>: an awaited operation is done on the world; a
  \<^verbatim>\<open>gather\<close> adds its coroutines to the pool as new tasks and waits for them; a task that
  waits raises the exception of a task it waits for that has raised (the waited tasks that
  have not ended run on), resumes when all of them have returned, and stays as it is
  otherwise. Nothing happens for a task that has ended, and for a position without task.
\<close>

definition is_Return :: "co \<Rightarrow> bool" where
  "is_Return c = (case c of Return \<Rightarrow> True | _ \<Rightarrow> False)"

definition raised_of :: "co \<Rightarrow> exn option" where
  "raised_of c = (case c of Throw e \<Rightarrow> Some e | _ \<Rightarrow> None)"

definition first_raised :: "co list \<Rightarrow> exn option" where
  "first_raised cs = (case List.find (\<lambda>c. raised_of c \<noteq> None) cs of None \<Rightarrow> None | Some c \<Rightarrow> raised_of c)"

definition step :: "nat \<Rightarrow> co list \<Rightarrow> world \<Rightarrow> co list \<times> world" where
  "step i pool w =
     (if length pool \<le> i then (pool, w)
      else
        (case pool ! i of
           Act f \<Rightarrow> (case f w of (c, w') \<Rightarrow> (pool[i := c], w'))
         | Gather cs k \<Rightarrow>
             (pool[i := Wait [length pool ..< length pool + length cs] k] @ cs, w)
         | Wait ids k \<Rightarrow>
             (case first_raised (map (\<lambda>j. pool ! j) ids) of
                Some e \<Rightarrow> (pool[i := Throw e], w)
              | None \<Rightarrow>
                  if list_all (\<lambda>j. is_Return (pool ! j)) ids then (pool[i := k], w)
                  else (pool, w))
         | _ \<Rightarrow> (pool, w)))"

text \<open>
  A run of the event loop: the positions of the tasks resumed, in order. Every
  interleaving of the tasks at their \<^verbatim>\<open>await\<close> points is such a run, also one in which a
  task is cancelled or abandoned (it is never resumed again).
\<close>

fun run_pool :: "nat list \<Rightarrow> co list \<Rightarrow> world \<Rightarrow> co list \<times> world" where
  "run_pool [] pool w = (pool, w)"
| "run_pool (i # is) pool w = (case step i pool w of (pool', w') \<Rightarrow> run_pool is pool' w')"



section \<open>A collection endpoint that serves given pages\<close>

text \<open>
  An \<^verbatim>\<open>'ok'\<close> answer holding a collection page; and the request that the Paginator is
  expected to make for a page: the caller's parameters with \<^verbatim>\<open>max_page_size = 100\<close> and the
  cursor (\<^verbatim>\<open>None\<close>, hence left out, for the first page).
\<close>

definition page_response :: "entity list \<Rightarrow> bool \<Rightarrow> string option \<Rightarrow> api_response" where
  "page_response items has_next_page cursor =
     \<lparr>data = Some (Page items has_next_page cursor), error = None, status = ''ok''\<rparr>"

definition first_page_params :: "params \<Rightarrow> params" where
  "first_page_params ps = dict_set ''max_page_size'' (Some (Int_param 100)) (dict_set ''cursor'' None ps)"

definition page_request :: "string \<Rightarrow> params \<Rightarrow> string option \<Rightarrow> request" where
  "page_request url ps cursor =
     \<lparr>req_method = Get, req_url = API_URL @ ''/'' @ url,
      req_params = clean_params (dict_set ''cursor'' (map_option Str_param cursor) (first_page_params ps))\<rparr>"

text \<open>
  How the server ends the collection: the last page carries \<^verbatim>\<open>has_next_page = false\<close>, or
  the page after the last one has no items (whatever its page info).
\<close>

datatype collection_end = No_next_page | Empty_page bool "string option"

text \<open>
  The server answers the successive page requests, the first made after \<open>history\<close> with
  \<open>cursor\<close>, with the given pages (items and the cursor of the page info), each with
  \<^verbatim>\<open>has_next_page = true\<close> except a last page that ends the collection.
\<close>

fun serves ::
  "api \<Rightarrow> request list \<Rightarrow> string \<Rightarrow> params \<Rightarrow> string option \<Rightarrow> (entity list \<times> string option) list
     \<Rightarrow> collection_end \<Rightarrow> bool" where
  "serves api history url ps cursor [] ending =
     (case ending of
        No_next_page \<Rightarrow> True
      | Empty_page has_next_page c \<Rightarrow>
          api history (page_request url ps cursor) = page_response [] has_next_page c)"
| "serves api history url ps cursor ((items, next_cursor) # pages) ending =
     (api history (page_request url ps cursor)
        = page_response items (pages \<noteq> [] \<or> ending \<noteq> No_next_page) next_cursor
      \<and> serves api (history @ [page_request url ps cursor]) url ps next_cursor pages ending)"

text \<open>
  The cursors of the requests made: the first page without cursor, every later page with
  the cursor of the page before it.
\<close>

fun cursors_from :: "string option \<Rightarrow> (entity list \<times> string option) list \<Rightarrow> collection_end \<Rightarrow> string option list" where
  "cursors_from cursor [] ending = (case ending of No_next_page \<Rightarrow> [] | Empty_page _ _ \<Rightarrow> [cursor])"
| "cursors_from cursor ((items, next_cursor) # pages) ending = cursor # cursors_from next_cursor pages ending"

definition cursors_sent :: "(entity list \<times> string option) list \<Rightarrow> collection_end \<Rightarrow> string option list" where
  "cursors_sent pages ending =
     None # (case ending of No_next_page \<Rightarrow> butlast (map snd pages) | Empty_page _ _ \<Rightarrow> map snd pages)"


section \<open>Scheduler (modules/utils.py, schedule)\<close>

text \<open>
  The scheduler sees a top-level invocation only through its task: whether it is done
  when \<^verbatim>\<open>asyncio.wait\<close> returns, and whether it has returned or raised. An invocation is its
  position in the stream together with how it ends (\<open>None\<close>: it returns; \<open>Some e\<close>: it raises
  \<open>e\<close>). When it ends is up to the event loop: \<open>done_at k i\<close> says that invocation \<open>i\<close>, if
  in flight, is among the \<^verbatim>\<open>done\<close> tasks of the \<open>k\<close>-th \<^verbatim>\<open>asyncio.wait\<close> (which returns at the
  first exception, when all are done, or after the 5 second timeout, so that any subset of
  the tasks can come back done).
\<close>

type_synonym invocation = "nat \<times> exn option"

definition MAX_QUEUE_SIZE :: nat where
  "MAX_QUEUE_SIZE = 5"

text \<open>
  What a run of \<^verbatim>\<open>schedule\<close> has done when it ends: the exception it raises, if any; the
  invocations for which a task was created, in order; those gathered as done; those
  cancelled; and the set of tasks passed to each \<^verbatim>\<open>asyncio.wait\<close>.
\<close>

record sched_run =
  raised :: "exn option"
  started :: "nat list"
  completed :: "nat list"
  cancelled :: "nat list"
  in_flight :: "nat list list"

text \<open>
  \<^verbatim>\<open>while has_more_coroutines and len(tasks) < config.MAX_QUEUE_SIZE\<close>, entered with
  \<^verbatim>\<open>has_more_coroutines\<close> true: tasks are created from the iterator until the set is full or
  \<^verbatim>\<open>next\<close> raises \<^verbatim>\<open>StopIteration\<close>. The value is the task set, the rest of the iterator and
  \<^verbatim>\<open>has_more_coroutines\<close>.
\<close>

primrec refill :: "nat \<Rightarrow> invocation list \<Rightarrow> invocation list \<Rightarrow> invocation list \<times> invocation list \<times> bool" where
  "refill max_queue_size [] tasks =
     (if length tasks < max_queue_size then (tasks, [], False) else (tasks, [], True))"
| "refill max_queue_size (c # coroutines) tasks =
     (if length tasks < max_queue_size then refill max_queue_size coroutines (tasks @ [c])
      else (tasks, c # coroutines, True))"

text \<open>
  \<^verbatim>\<open>await asyncio.gather(*done)\<close> raises the exception of the first done task that raised.
  \<^verbatim>\<open>done\<close> is a Python set, whose iteration order is not fixed; the tasks are taken here in
  the order of their creation.
\<close>

definition first_exception :: "invocation list \<Rightarrow> exn option" where
  "first_exception done = (case List.find (\<lambda>t. snd t \<noteq> None) done of None \<Rightarrow> None | Some t \<Rightarrow> snd t)"

text \<open>
  The outer \<^verbatim>\<open>while True\<close>, at its \<open>k\<close>-th pass, with fuel for \<open>n\<close> passes (\<open>None\<close>: it has not
  ended within them). \<^verbatim>\<open>asyncio.wait\<close> of an empty set raises \<^verbatim>\<open>ValueError\<close>.
\<close>

primrec schedule_loop ::
  "nat \<Rightarrow> nat \<Rightarrow> (nat \<Rightarrow> nat \<Rightarrow> bool) \<Rightarrow> nat \<Rightarrow> invocation list \<Rightarrow> invocation list \<Rightarrow> bool
     \<Rightarrow> sched_run \<Rightarrow> sched_run option" where
  "schedule_loop 0 max_queue_size done_at k tasks coroutines has_more_coroutines run = None"
| "schedule_loop (Suc n) max_queue_size done_at k tasks coroutines has_more_coroutines run =
     (case (if has_more_coroutines then refill max_queue_size coroutines tasks
            else (tasks, coroutines, False)) of
        (tasks1, coroutines1, has_more1) \<Rightarrow>
          (let run1 = run\<lparr>started := started run @ map fst (drop (length tasks) tasks1)\<rparr>
           in if tasks1 = [] \<and> \<not> has_more1 then Some run1
              else if tasks1 = [] then Some (run1\<lparr>raised := Some ValueError\<rparr>)
              else
                (let done = filter (\<lambda>t. done_at k (fst t)) tasks1;
                     pending = filter (\<lambda>t. \<not> done_at k (fst t)) tasks1;
                     run2 = run1\<lparr>in_flight := in_flight run1 @ [map fst tasks1]\<rparr>
                 in case first_exception done of
                      Some e \<Rightarrow> Some (run2\<lparr>raised := Some e, cancelled := map fst pending\<rparr>)
                    | None \<Rightarrow>
                        schedule_loop n max_queue_size done_at (Suc k) pending coroutines1 has_more1
                          (run2\<lparr>completed := completed run2 @ map fst done\<rparr>))))"

definition new_run :: sched_run where
  "new_run = \<lparr>raised = None, started = [], completed = [], cancelled = [], in_flight = []\<rparr>"

text \<open>\<^verbatim>\<open>schedule(coroutines)\<close> over a stream of invocations given by how each ends.\<close>

definition schedule :: "nat \<Rightarrow> nat \<Rightarrow> (nat \<Rightarrow> nat \<Rightarrow> bool) \<Rightarrow> exn option list \<Rightarrow> sched_run option" where
  "schedule n max_queue_size done_at stream =
     schedule_loop n max_queue_size done_at 0 [] (zip [0 ..< length stream] stream) True new_run"

text \<open>
  Every invocation ends: whatever the pass, an invocation in flight is done at some
  later \<^verbatim>\<open>asyncio.wait\<close>.
\<close>

definition every_invocation_ends :: "(nat \<Rightarrow> nat \<Rightarrow> bool) \<Rightarrow> bool" where
  "every_invocation_ends done_at \<longleftrightarrow> (\<forall>k i. \<exists>k'\<ge>k. done_at k' i)"

text \<open>The refill step of a pass, whether or not the iterator is known to be exhausted.\<close>

definition refilled :: "nat \<Rightarrow> invocation list \<Rightarrow> invocation list \<Rightarrow> bool
    \<Rightarrow> invocation list \<times> invocation list \<times> bool" where
  "refilled mx tasks coros hm = (if hm then refill mx coros tasks else (tasks, coros, False))"

text \<open>A state that the refill step leaves as it is.\<close>

definition settled :: "nat \<Rightarrow> invocation list \<Rightarrow> bool \<Rightarrow> bool" where
  "settled mx tasks hm \<longleftrightarrow> \<not> hm \<or> mx \<le> length tasks"

definition indexed :: "exn option list \<Rightarrow> invocation list" where
  "indexed stream = zip [0 ..< length stream] stream"

text \<open>
  What holds at the head of every pass of the loop: nothing has been raised or
  cancelled; the invocations started are the first ones of the stream, the iterator holds
  the others; each started invocation is in the task set or has been gathered; those
  gathered have returned; the task set, and each set that was waited for, has at most
  \<open>mx\<close> tasks.
\<close>

definition sched_inv ::
  "nat \<Rightarrow> exn option list \<Rightarrow> nat \<Rightarrow> invocation list \<Rightarrow> invocation list \<Rightarrow> bool \<Rightarrow> sched_run \<Rightarrow> bool" where
  "sched_inv mx stream k tasks coros hm run \<longleftrightarrow>
     raised run = None \<and> cancelled run = [] \<and> k = length (in_flight run)
     \<and> length (started run) \<le> length stream
     \<and> started run = [0 ..< length (started run)]
     \<and> coros = drop (length (started run)) (indexed stream)
     \<and> set (map fst tasks) \<union> set (completed run) = {0 ..< length (started run)}
     \<and> set tasks \<subseteq> set (indexed stream)
     \<and> (\<forall>i\<in>set (completed run). i < length stream \<and> stream ! i = None)
     \<and> length tasks \<le> mx
     \<and> (\<forall>T\<in>set (in_flight run). length T \<le> mx \<and> set T \<subseteq> set (started run))
     \<and> (\<not> hm \<longrightarrow> coros = [])"

text \<open>What holds of the run when \<^verbatim>\<open>schedule\<close> has ended, normally or by an exception.\<close>

definition sched_post :: "nat \<Rightarrow> exn option list \<Rightarrow> (nat \<Rightarrow> nat \<Rightarrow> bool) \<Rightarrow> sched_run \<Rightarrow> bool" where
  "sched_post mx stream done_at r \<longleftrightarrow>
     (\<forall>T\<in>set (in_flight r). length T \<le> mx)
     \<and> started r = [0 ..< length (started r)] \<and> length (started r) \<le> length stream
     \<and> (case raised r of
           None \<Rightarrow>
             cancelled r = [] \<and> started r = [0 ..< length stream]
             \<and> set (completed r) = {0 ..< length stream}
             \<and> (\<forall>i<length stream. stream ! i = None)
         | Some e \<Rightarrow>
             in_flight r \<noteq> []
             \<and> (\<exists>i\<in>set (last (in_flight r)).
                   done_at (length (in_flight r) - 1) i \<and> i < length stream \<and> stream ! i = Some e)
             \<and> cancelled r
                 = filter (\<lambda>i. \<not> done_at (length (in_flight r) - 1) i) (last (in_flight r))
             \<and> set (started r) = set (completed r) \<union> set (last (in_flight r)))"

section \<open>Concrete inputs used to run the theorems\<close>

text \<open>A two-valued stand-in for \<^verbatim>\<open>isoformat\<close>, used to run the theorem.\<close>

definition iso2 :: "bool \<Rightarrow> string" where
  "iso2 b = (if b then ''2021-01-02T00:00:00+00:00'' else ''2021-01-01T00:00:00+00:00'')"

text \<open>
  A post with identifier 7 and the columns that \<^verbatim>\<open>normalize_post_csv\<close> reads; a post with
  identifier 8 that has one column more, \<^verbatim>\<open>comments_count\<close>; and a process that has
  already saved 7 everywhere.
\<close>

definition post_columns :: dict where
  "post_columns =
     [(''attached_medias_id'', ''''), (''attached_medias_preview_content'', ''''),
      (''attached_medias_preview_url'', ''''), (''text'', ''hello''), (''text_tagged_users'', ''''),
      (''text_tags'', '''')]"

definition post_7 :: entity where
  "post_7 = \<lparr>item_id = ''7'', owner_id = None, group_id = None, comments_count = None,
     columns = post_columns\<rparr>"

definition post_8 :: entity where
  "post_8 = \<lparr>item_id = ''8'', owner_id = None, group_id = None, comments_count = Some 12,
     columns = (''comments_count'', ''12'') # post_columns\<rparr>"

definition sink_7 :: sink where
  "sink_7 = empty_sink\<lparr>saved_posts := {7}, saved_comments := {7}, saved_profiles := {7},
     saved_searches_for_posts := {''7''},
     saved_connections := {(7, ''1'', ''facebook/post/comments'')}\<rparr>"

text \<open>
  The scenario of the spec: post 123 with \<^verbatim>\<open>comments_count = 5\<close>, its comments served as a
  page of three and a page of two. The update job is accepted and reported finished at
  the first poll; the comments have no owner and no replies. Any other item is not found.
\<close>

definition comment_of :: "string \<Rightarrow> entity" where
  "comment_of i = \<lparr>item_id = i, owner_id = None, group_id = None, comments_count = Some 0,
     columns = [(''text'', ''hi''), (''text_tagged_users'', ''''), (''text_tags'', '''')]\<rparr>"

definition post_123 :: entity where
  "post_123 = \<lparr>item_id = ''123'', owner_id = None, group_id = None, comments_count = Some 5,
     columns = post_columns\<rparr>"

definition ok_response :: "payload \<Rightarrow> api_response" where
  "ok_response d = \<lparr>data = Some d, error = None, status = ''ok''\<rparr>"

definition accepted_response :: api_response where
  "accepted_response = \<lparr>data = Some (Task_id ''job-1''), error = None, status = ''accepted''\<rparr>"

definition not_found_response :: api_response where
  "not_found_response = \<lparr>data = None, error = Some [(''code'', ''NotFoundError'')], status = ''fail''\<rparr>"

definition mock_api :: api where
  "mock_api history req =
     (if req_method req = Post then accepted_response
      else if req_url req = API_URL @ ''/facebook/post/123/update''
      then ok_response (Job_status ''finished'')
      else if req_url req = API_URL @ ''/facebook/post/123''
      then ok_response (Item post_123)
      else if req_url req = API_URL @ ''/facebook/post/123/comments''
      then (if map_of (req_params req) ''cursor'' = None
            then ok_response (Page [comment_of ''1'', comment_of ''2'', comment_of ''3''] True
                   (Some ''page-2''))
            else ok_response (Page [comment_of ''4'', comment_of ''5''] False None))
      else not_found_response)"

definition world_0 :: world where
  "world_0 = \<lparr>task_cache = Map.empty, requests = [], outputs = empty_sink\<rparr>"

text \<open>The world in which that crawl ends.\<close>

definition params_123 :: "(string \<times> param) list" where
  "params_123 = [(''load_comments'', Int_param 1), (''max_comments'', Int_param 2)]"

definition world_123 :: world where
  "world_123 =
     \<lparr>task_cache = [''123'' \<mapsto> ''finished'', ''1'' \<mapsto> ''finished'', ''2'' \<mapsto> ''finished'',
                     ''3'' \<mapsto> ''finished''],
      requests =
        [\<lparr>req_method = Post, req_url = ''https://api.data365.co/v1.1/facebook/post/123/update'',
            req_params = params_123\<rparr>,
         \<lparr>req_method = Get, req_url = ''https://api.data365.co/v1.1/facebook/post/123/update'',
            req_params = params_123\<rparr>,
         \<lparr>req_method = Get, req_url = ''https://api.data365.co/v1.1/facebook/post/123'',
            req_params = params_123\<rparr>,
         \<lparr>req_method = Get, req_url = ''https://api.data365.co/v1.1/facebook/post/123/comments'',
            req_params = params_123 @ [(''order_by'', Str_param ''date_desc''),
                                        (''max_page_size'', Int_param 100)]\<rparr>],
      outputs =
        \<lparr>facebook_posts_csv =
             Some \<lparr>header = [''attached_medias_id'', ''attached_medias_preview_content'',
                      ''attached_medias_preview_url'', ''id'', ''text'', ''text_tagged_users'',
                      ''text_tags''],
                   body = [['''', '''', '''', ''123'', ''hello'', '''', '''']]\<rparr>,
           facebook_comments_csv =
             Some \<lparr>header = [''id'', ''text'', ''text_tagged_users'', ''text_tags''],
                   body = [[''1'', ''hi'', '''', ''''], [''2'', ''hi'', '''', ''''],
                           [''3'', ''hi'', '''', '''']]\<rparr>,
           facebook_profiles_csv = None,
           facebook_searches_for_posts_csv = None,
           facebook_connections_csv =
             Some \<lparr>header = [''collection'', ''id'', ''parent_id''],
                   body = [[''facebook/post/comments'', ''1'', ''123''],
                           [''facebook/post/comments'', ''2'', ''123''],
                           [''facebook/post/comments'', ''3'', ''123'']]\<rparr>,
           saved_posts = {123}, saved_comments = {1, 2, 3}, saved_profiles = {},
           saved_searches_for_posts = {},
           saved_connections =
             {(1, ''123'', ''facebook/post/comments''), (2, ''123'', ''facebook/post/comments''),
              (3, ''123'', ''facebook/post/comments'')}\<rparr>\<rparr>"

text \<open>An update job that is accepted and then reported \<^verbatim>\<open>failed\<close> at every poll.\<close>

definition failed_job_api :: api where
  "failed_job_api history req =
     (if req_method req = Post then accepted_response else ok_response (Job_status ''failed''))"

text \<open>An answer that is not \<^verbatim>\<open>'ok'\<close> and has no error payload.\<close>

definition bare_fail_response :: api_response where
  "bare_fail_response = \<lparr>data = None, error = None, status = ''fail''\<rparr>"

text \<open>
  A remote side that accepts an update job, reports it finished at the poll that follows,
  and answers every other request with \<^verbatim>\<open>'fail'\<close> and no error payload.
\<close>

definition bare_fail_api :: api where
  "bare_fail_api history req =
     (if req_method req = Post then accepted_response
      else if map req_method history = [Post] then ok_response (Job_status ''finished'')
      else bare_fail_response)"

text \<open>The pages of the comments of post 123, with the cursor of their page info.\<close>

definition comment_pages :: "(entity list \<times> string option) list" where
  "comment_pages =
     [([comment_of ''1'', comment_of ''2'', comment_of ''3''], Some ''page-2''),
      ([comment_of ''4'', comment_of ''5''], None)]"

text \<open>
  Seven invocations of which the sixth raises, six invocations that all return, and an event
  loop in which invocation \<open>i\<close> is done from the wait number \<open>i div 3 + 1\<close> on (the first
  wait times out with nothing done).
\<close>

definition stream_7 :: "exn option list" where
  "stream_7 = [None, None, None, None, None, Some ApiRequestError, None]"

definition stream_6 :: "exn option list" where
  "stream_6 = [None, None, None, None, None, None]"

definition steady_loop :: "nat \<Rightarrow> nat \<Rightarrow> bool" where
  "steady_loop k i \<longleftrightarrow> i < 3 * k"

definition run_7 :: sched_run where
  "run_7 = \<lparr>raised = Some ApiRequestError, started = [0, 1, 2, 3, 4, 5, 6], completed = [0, 1, 2],
     cancelled = [6], in_flight = [[0, 1, 2, 3, 4], [0, 1, 2, 3, 4], [3, 4, 5, 6]]\<rparr>"

definition run_6 :: sched_run where
  "run_6 = \<lparr>raised = None, started = [0, 1, 2, 3, 4, 5], completed = [0, 1, 2, 3, 4, 5],
     cancelled = [], in_flight = [[0, 1, 2, 3, 4], [0, 1, 2, 3, 4], [3, 4, 5]]\<rparr>"




text \<open>
  Two top-level invocations of post 123 in one event loop, started in \<open>world_0\<close>. Both read
  the task cache; the first runs to its end with its eight tasks (positions 2 to 7); then
  the second requests the update and writes its status.
\<close>

definition twice_123 :: "co list" where
  "twice_123 = map (start (\<lambda>text. text) 1 mock_api)
     [Post_crawl ''123'' True (Some 2), Post_crawl ''123'' True (Some 2)]"

definition first_to_its_end :: "nat list" where
  "first_to_its_end = [0, 1, 0, 0, 0, 0, 0, 0, 0, 0, 2, 3, 3, 4, 4, 5, 5, 6, 0, 0, 7, 0, 0]"

text \<open>
  Bodies of answers: a rate-limit answer in the envelope of the API, a rate-limit answer
  as a gateway in front of the API sends it, and an \<^verbatim>\<open>ok\<close> answer.
\<close>

definition rate_limit_envelope :: json where
  "rate_limit_envelope =
     Object [(''data'', Null), (''error'', Object [(''code'', String ''TooManyRequests'')]),
             (''status'', String ''fail'')]"

definition rate_limit_body :: json where
  "rate_limit_body = Object [(''message'', String ''Too Many Requests'')]"

definition ok_envelope :: json where
  "ok_envelope = Object [(''data'', Object []), (''error'', Null), (''status'', String ''ok'')]"

section \<open>Properties\<close>

subsection \<open>Search item identifier\<close>

lemma split_at_last_sep:
  assumes "xs @ c # ys = xs' @ c # ys'" and "c \<notin> set ys" and "c \<notin> set ys'"
  shows "xs = xs' \<and> ys = ys'"
  using assms
proof (induction xs arbitrary: xs')
  case Nil
  then show ?case by (cases xs') auto
next
  case (Cons a xs)
  then show ?case by (cases xs') auto
qed

lemma search_type_str_no_sep: "CHR ''/'' \<notin> set (search_type_str s)"
  by (cases s) simp_all

lemma search_type_str_inj: "search_type_str s = search_type_str t \<Longrightarrow> s = t"
  by (cases s; cases t) simp_all

lemma date_part_no_sep: "iso_like isof \<Longrightarrow> CHR ''/'' \<notin> set (date_part isof d)"
  by (cases d) (simp_all add: date_part_def iso_like_def)

lemma date_part_inj:
  assumes "iso_like isof" and "date_part isof d = date_part isof e"
  shows "d = e"
proof -
  from assms(1) have nonempty: "\<And>x. isof x \<noteq> []" and inj: "inj isof"
    by (simp_all add: iso_like_def)
  show ?thesis
  proof (cases d)
    case None
    show ?thesis
    proof (cases e)
      case None
      with \<open>d = None\<close> show ?thesis by simp
    next
      case (Some y)
      with \<open>d = None\<close> assms(2) have "isof y = []" by (simp add: date_part_def)
      with nonempty show ?thesis by blast
    qed
  next
    case (Some x)
    show ?thesis
    proof (cases e)
      case None
      with Some assms(2) have "isof x = []" by (simp add: date_part_def)
      with nonempty show ?thesis by blast
    next
      case (Some y)
      with \<open>d = Some x\<close> assms(2) have "isof x = isof y" by (simp add: date_part_def)
      with inj have "x = y" by (rule injD)
      with Some \<open>d = Some x\<close> show ?thesis by simp
    qed
  qed
qed

text \<open>
  C6. The composite search key is injective: two tuples of (normalized query text,
  optional from-date, optional to-date, search variant) that differ get different
  item identifiers.
\<close>

theorem search_item_id_injective:
  assumes isof: "iso_like isof"
    and differ: "(cf q1, f1, t1, s1) \<noteq> (cf q2, f2, t2, s2)"
  shows "search_item_id cf isof q1 f1 t1 s1 \<noteq> search_item_id cf isof q2 f2 t2 s2"
proof
  assume eq: "search_item_id cf isof q1 f1 t1 s1 = search_item_id cf isof q2 f2 t2 s2"
  let ?a1 = "cf q1 @ CHR ''/'' # date_part isof f1" and ?a2 = "cf q2 @ CHR ''/'' # date_part isof f2"
  let ?b1 = "?a1 @ CHR ''/'' # date_part isof t1" and ?b2 = "?a2 @ CHR ''/'' # date_part isof t2"
  from eq have "?b1 @ CHR ''/'' # search_type_str s1 = ?b2 @ CHR ''/'' # search_type_str s2"
    by (simp add: search_item_id_def)
  then have b: "?b1 = ?b2" and s: "search_type_str s1 = search_type_str s2"
    using split_at_last_sep [OF _ search_type_str_no_sep search_type_str_no_sep] by blast+
  from b have a: "?a1 = ?a2" and t: "date_part isof t1 = date_part isof t2"
    using split_at_last_sep [OF _ date_part_no_sep [OF isof] date_part_no_sep [OF isof]] by blast+
  from a have q: "cf q1 = cf q2" and f: "date_part isof f1 = date_part isof f2"
    using split_at_last_sep [OF _ date_part_no_sep [OF isof] date_part_no_sep [OF isof]] by blast+
  from q f t s differ show False
    using date_part_inj [OF isof] search_type_str_inj by blast
qed

lemma iso2_like: "iso_like iso2"
  by (auto simp: iso_like_def iso2_def inj_def split: if_splits)

theorem search_item_id_injective_witness:
  "iso_like iso2 \<and> (id ''a/b'', None, Some True, Top) \<noteq> (id ''a'', Some False, Some True, Top)
   \<and> search_item_id id iso2 ''a/b'' None (Some True) Top
       \<noteq> search_item_id id iso2 ''a'' (Some False) (Some True) Top"
proof -
  have d: "(id ''a/b'', None, Some True, Top) \<noteq> (id ''a'', Some False, Some True, Top)"
    by simp
  show ?thesis
    using iso2_like d
      search_item_id_injective [of iso2 id "''a/b''" None "Some True" Top "''a''" "Some False" "Some True" Top]
    by blast
qed

subsection \<open>Backoff of the retry loop\<close>

lemma backoff_bounds:
  assumes "3/4 \<le> u" and "u \<le> 5/4"
  shows "3/4 * real (min n 5) \<le> backoff n u \<and> backoff n u \<le> 5/4 * real (min n 5)"
proof -
  have "real (min n 5) * (3/4) \<le> real (min n 5) * u"
    using assms(1) by (rule mult_left_mono) simp
  moreover have "real (min n 5) * u \<le> real (min n 5) * (5/4)"
    using assms(2) by (rule mult_left_mono) simp
  ultimately show ?thesis by (simp add: backoff_def mult.commute)
qed

text \<open>
  The loop started at attempt \<open>n\<close> with \<open>k\<close> more retried attempts ahead of a final
  attempt that is not retried: it ends there, having added one sleep per retried attempt.
\<close>

lemma make_request_from_retries:
  assumes "\<forall>i<k. retried (net (n + i))" and "\<not> retried (net (n + k))"
  shows "make_request_from net jitter n sleeps =
           Some (ended (net (n + k)), sleeps @ map (\<lambda>i. backoff i (jitter i)) [n ..< n + k])"
  using assms
proof (induction k arbitrary: n sleeps)
  case 0
  then show ?case
    by (subst make_request_from.simps) (cases "net n"; auto split: option.splits)
next
  case (Suc k)
  from Suc.prems have now: "retried (net n)" by (metis add.right_neutral zero_less_Suc)
  have later: "\<forall>i<k. retried (net (Suc n + i))" and final: "\<not> retried (net (Suc n + k))"
    using Suc.prems by (auto dest: spec [where x = "Suc _"])
  have step: "make_request_from net jitter n sleeps =
      make_request_from net jitter (Suc n) (sleeps @ [backoff n (jitter n)])"
    using now by (subst make_request_from.simps) (cases "net n"; simp)
  have "[n ..< n + Suc k] = n # [Suc n ..< Suc n + k]"
    by (simp add: upt_conv_Cons)
  with Suc.IH [OF later final] step show ?case by simp
qed

lemma make_request_from_never:
  assumes "make_request_from net jitter n sleeps = Some r"
  shows "\<not> (\<forall>i. retried (net i))"
  using assms
proof (induction rule: make_request_from.raw_induct)
  case (1 loop net jitter n sleeps r)
  show ?case
  proof
    assume all: "\<forall>i. retried (net i)"
    then have now: "retried (net n)" by blast
    let ?sleeps = "sleeps @ [backoff n (jitter n)]"
    have "make_request_from net jitter n sleeps = make_request_from net jitter (Suc n) ?sleeps"
      using now by (subst make_request_from.simps) (cases "net n"; simp)
    with 1 have m: "make_request_from net jitter (Suc n) ?sleeps = Some r" by simp
    have l: "loop net jitter (Suc n) ?sleeps = Some r"
      using 1(2) now by (cases "net n") (simp_all split: if_splits)
    obtain a b where r: "r = (a, b)" by (cases r)
    note l = l [unfolded r] and m = m [unfolded r]
    from l m have "\<exists>i. \<not> retried (net i)" using 1(1) by blast
    with all show False by blast
  qed
qed (rule assms)

lemma make_request_from_forever:
  assumes "\<forall>i. retried (net i)"
  shows "make_request_from net jitter n sleeps = None"
proof (cases "make_request_from net jitter n sleeps")
  case None
  then show ?thesis .
next
  case (Some r)
  with assms make_request_from_never show ?thesis by blast
qed

text \<open>
  What the loop does for the attempts that it retries: after a timeout, a connection-level
  failure, or a 429 answer whose body passes the debug line, at attempt \<open>n\<close>, it sleeps
  between \<open>0.75 * min(n, 5)\<close> and \<open>1.25 * min(n, 5)\<close> seconds, and there is no bound on
  the number of retries: with \<open>k\<close> retried attempts before the first attempt that is not
  retried, the call ends at that attempt after exactly \<open>k\<close> sleeps; when every attempt is
  retried it never returns.
\<close>

lemma make_request_retries_bounded:
  assumes jitter: "\<forall>n. 3/4 \<le> jitter n \<and> jitter n \<le> 5/4"
  shows "((\<forall>i<k. retried (net i)) \<and> \<not> retried (net k) \<longrightarrow>
           (\<exists>sleeps. make_request_retry net jitter = Some (ended (net k), sleeps)
              \<and> length sleeps = k
              \<and> (\<forall>n<k. 3/4 * real (min n 5) \<le> sleeps ! n \<and> sleeps ! n \<le> 5/4 * real (min n 5))))
         \<and> ((\<forall>i. retried (net i)) \<longrightarrow> make_request_retry net jitter = None)"
proof (intro conjI impI)
  assume h: "(\<forall>i<k. retried (net i)) \<and> \<not> retried (net k)"
  then have "make_request_from net jitter 0 [] =
      Some (ended (net (0 + k)), [] @ map (\<lambda>i. backoff i (jitter i)) [0 ..< 0 + k])"
    using make_request_from_retries [of k net 0 jitter "[]"] by simp
  then show "\<exists>sleeps. make_request_retry net jitter = Some (ended (net k), sleeps)
            \<and> length sleeps = k
            \<and> (\<forall>n<k. 3/4 * real (min n 5) \<le> sleeps ! n \<and> sleeps ! n \<le> 5/4 * real (min n 5))"
    using jitter backoff_bounds by (simp add: make_request_retry_def)
next
  assume "\<forall>i. retried (net i)"
  then show "make_request_retry net jitter = None"
    by (simp add: make_request_retry_def make_request_from_forever)
qed

lemma debug_line_status: "debug_line (Object [(''data'', x), (''error'', e), (''status'', String s)]) = None"
  by (simp add: debug_line_def subscript_status_def)

lemma debug_line_plain: "debug_line rate_limit_body = Some KeyError"
  by (simp add: debug_line_def subscript_status_def rate_limit_body_def)

text \<open>
  C9, the failing input. Two 429 answers, then a 200 answer, the random factor always 1.
  When the 429 answers carry the envelope of the API (with a \<^verbatim>\<open>status\<close>), the call sleeps
  0 and 1 seconds and returns the third answer. When they carry a body without the key
  \<^verbatim>\<open>status\<close>, the debug line of the \<^verbatim>\<open>else\<close> branch raises \<^verbatim>\<open>KeyError\<close> at the first attempt,
  before the status code is compared with 429: the call is not retried and no sleep is
  made.
\<close>

theorem make_request_unretried_429:
  "make_request_retry (\<lambda>n. if n < 2 then Http 429 rate_limit_envelope else Http 200 ok_envelope)
       (\<lambda>n. 1)
     = Some (Returned (Object []) Null (String ''ok''), [0, 1])
   \<and> make_request_retry (\<lambda>n. if n < 2 then Http 429 rate_limit_body else Http 200 ok_envelope)
       (\<lambda>n. 1)
     = Some (Raised KeyError, [])"
proof
  let ?net = "\<lambda>n::nat. if n < 2 then Http 429 rate_limit_envelope else Http 200 ok_envelope"
  have "\<forall>i<2. retried (?net (0 + i))" "\<not> retried (?net (0 + 2))"
    by (simp_all add: rate_limit_envelope_def debug_line_status)
  from make_request_from_retries [of 2 ?net 0 "\<lambda>n. 1" "[]", OF this]
  show "make_request_retry ?net (\<lambda>n. 1) = Some (Returned (Object []) Null (String ''ok''), [0, 1])"
    by (simp add: make_request_retry_def ok_envelope_def debug_line_status api_response_of_def
        backoff_def upt_rec)
next
  let ?net = "\<lambda>n::nat. if n < 2 then Http 429 rate_limit_body else Http 200 ok_envelope"
  have "\<forall>i<0. retried (?net (0 + i))" "\<not> retried (?net (0 + 0))"
    by (simp_all add: debug_line_plain)
  from make_request_from_retries [of 0 ?net 0 "\<lambda>n. 1" "[]", OF this]
  show "make_request_retry ?net (\<lambda>n. 1) = Some (Raised KeyError, [])"
    by (simp add: make_request_retry_def debug_line_plain)
qed

subsection \<open>Output Sink\<close>

lemma unique_everseen_Nil [simp]: "unique_everseen key [] = []"
  by (simp add: unique_everseen_def)

lemma save_items_to_csv_Nil [simp]: "save_items_to_csv pk_fields [] file = (None, file)"
  by (simp add: save_items_to_csv_def)

lemma int_ids_props:
  "int_ids is = Some ks \<Longrightarrow> length ks = length is \<and> (\<forall>n<length is. py_int (is ! n) = Some (ks ! n))"
proof (induction "is" arbitrary: ks)
  case Nil
  then show ?case by simp
next
  case (Cons i "is")
  from Cons.prems obtain k ks' where k: "py_int i = Some k" "int_ids is = Some ks'" "ks = k # ks'"
    by (auto split: option.splits)
  from Cons.IH [OF k(2)] k show ?case by (auto simp: nth_Cons split: nat.splits)
qed

lemma int_ids_set:
  assumes "int_ids is = Some ks"
  shows "set ks = {k. \<exists>i\<in>set is. py_int i = Some k}"
proof -
  from int_ids_props [OF assms] have len: "length ks = length is"
    and nth: "\<forall>n<length is. py_int (is ! n) = Some (ks ! n)" by blast+
  show ?thesis
  proof (intro set_eqI iffI)
    fix k assume "k \<in> set ks"
    then obtain n where "n < length ks" "ks ! n = k" by (auto simp: in_set_conv_nth)
    with len nth have "is ! n \<in> set is" "py_int (is ! n) = Some k" by auto
    then show "k \<in> {k. \<exists>i\<in>set is. py_int i = Some k}" by blast
  next
    fix k assume "k \<in> {k. \<exists>i\<in>set is. py_int i = Some k}"
    then obtain i where "i \<in> set is" "py_int i = Some k" by blast
    then obtain n where "n < length is" "is ! n = i" by (auto simp: in_set_conv_nth)
    with nth \<open>py_int i = Some k\<close> len show "k \<in> set ks" by (auto simp: in_set_conv_nth)
  qed
qed

lemma int_ids_total: "(\<forall>i\<in>set is. py_int i \<noteq> None) \<Longrightarrow> \<exists>ks. int_ids is = Some ks"
  by (induction "is") auto

lemma int_ids_all_saved:
  assumes "\<forall>i\<in>set is. \<exists>k. py_int i = Some k \<and> g k \<in> saved"
  shows "\<exists>ks. int_ids is = Some ks \<and> g ` set ks \<subseteq> saved"
proof -
  from assms have "\<forall>i\<in>set is. py_int i \<noteq> None" by auto
  then obtain ks where ks: "int_ids is = Some ks" using int_ids_total by blast
  from int_ids_set [OF ks] assms have "g ` set ks \<subseteq> saved" by auto
  with ks show ?thesis by blast
qed

lemma items_to_save_none_new:
  "(\<forall>x\<in>set items. is_new x = Inr False) \<Longrightarrow> items_to_save is_new normalize_csv items = Inr []"
  by (induction items) simp_all

lemma save_by_int_id_noop:
  assumes "\<forall>x\<in>set items. \<exists>k. py_int (item_id x) = Some k \<and> k \<in> saved"
  shows "save_by_int_id normalize_csv items file saved = (None, file, saved)"
proof -
  from assms have "\<forall>x\<in>set items. new_int_id saved x = Inr False"
    by (auto simp: new_int_id_def)
  then have ns: "items_to_save (new_int_id saved) normalize_csv items = Inr []"
    by (rule items_to_save_none_new)
  from assms have "\<forall>i\<in>set (map item_id items). \<exists>k. py_int i = Some k \<and> id k \<in> saved"
    by simp
  from int_ids_all_saved [OF this] obtain ks
    where ks: "int_ids (map item_id items) = Some ks" "set ks \<subseteq> saved" by auto
  then have "saved \<union> set ks = saved" by blast
  with ns ks(1) show ?thesis by (simp add: save_by_int_id_def)
qed

lemma save_posts_noop:
  assumes "\<forall>x\<in>set items. \<exists>k. py_int (item_id x) = Some k \<and> k \<in> saved_posts s"
  shows "save_posts items s = (None, s)"
  by (simp add: save_posts_def save_by_int_id_noop [OF assms])

lemma save_comments_noop:
  assumes "\<forall>x\<in>set items. \<exists>k. py_int (item_id x) = Some k \<and> k \<in> saved_comments s"
  shows "save_comments items s = (None, s)"
  by (simp add: save_comments_def save_by_int_id_noop [OF assms])

lemma save_profiles_noop:
  assumes "\<forall>x\<in>set items. \<exists>k. py_int (item_id x) = Some k \<and> k \<in> saved_profiles s"
  shows "save_profiles items s = (None, s)"
  by (simp add: save_profiles_def save_by_int_id_noop [OF assms])

lemma save_searches_noop:
  assumes "\<forall>x\<in>set items. item_id x \<in> saved_searches_for_posts s"
  shows "save_searches_for_posts items s = (None, s)"
proof -
  from assms have "\<forall>x\<in>set items.
      (\<lambda>item. Inr (item_id item \<notin> saved_searches_for_posts s) :: exn + bool) x = Inr False"
    by simp
  then have "items_to_save (\<lambda>item. Inr (item_id item \<notin> saved_searches_for_posts s))
      normalize_searches_for_posts_csv items = Inr []"
    by (rule items_to_save_none_new)
  moreover from assms
  have "saved_searches_for_posts s \<union> set (map item_id items) = saved_searches_for_posts s"
    by auto
  ultimately show ?thesis by (simp add: save_searches_for_posts_def)
qed

lemma save_connections_noop:
  assumes "\<forall>i\<in>set ids. \<exists>k. py_int i = Some k \<and> (k, parent, coll) \<in> saved_connections s"
  shows "save_connections parent ids coll s = (None, s)"
proof -
  from int_ids_all_saved [of ids "\<lambda>k. (k, parent, coll)", OF assms] obtain ks
    where ks: "int_ids ids = Some ks" "(\<lambda>k. (k, parent, coll)) ` set ks \<subseteq> saved_connections s" by auto
  let ?items = "map (\<lambda>k. (k, parent, coll)) ks"
  from ks(2) have "filter (\<lambda>item. item \<notin> saved_connections s) ?items = []"
    by (auto simp: filter_empty_conv)
  moreover from ks(2) have "saved_connections s \<union> set ?items = saved_connections s" by auto
  ultimately show ?thesis using ks(1) by (simp add: save_connections_def)
qed

text \<open>
  C10. A save with nothing new is a no-op: when every record of the batch has its natural
  key in the in-memory de-duplication set already (in particular when the batch is empty),
  the save returns normally with the sink unchanged, so no file is created or appended
  to and the set is as before. This holds for each of the five save operations.
\<close>

theorem save_nothing_new_is_noop:
  "((\<forall>x\<in>set items. \<exists>k. py_int (item_id x) = Some k \<and> k \<in> saved_posts s)
      \<longrightarrow> save_posts items s = (None, s))
   \<and> ((\<forall>x\<in>set items. \<exists>k. py_int (item_id x) = Some k \<and> k \<in> saved_comments s)
      \<longrightarrow> save_comments items s = (None, s))
   \<and> ((\<forall>x\<in>set items. \<exists>k. py_int (item_id x) = Some k \<and> k \<in> saved_profiles s)
      \<longrightarrow> save_profiles items s = (None, s))
   \<and> ((\<forall>x\<in>set items. item_id x \<in> saved_searches_for_posts s)
      \<longrightarrow> save_searches_for_posts items s = (None, s))
   \<and> ((\<forall>i\<in>set ids. \<exists>k. py_int i = Some k \<and> (k, parent, coll) \<in> saved_connections s)
      \<longrightarrow> save_connections parent ids coll s = (None, s))"
  using save_posts_noop save_comments_noop save_profiles_noop save_searches_noop
    save_connections_noop by blast

lemma py_int_7: "py_int ''7'' = Some 7"
  by (simp add: py_int_def strip_def is_space_def nat_literal_def digit_val_def)

theorem save_nothing_new_is_noop_witness:
  "py_int (item_id post_7) = Some 7 \<and> 7 \<in> saved_posts sink_7
   \<and> save_posts [post_7] sink_7 = (None, sink_7)
   \<and> save_comments [post_7] sink_7 = (None, sink_7)
   \<and> save_profiles [post_7] sink_7 = (None, sink_7)
   \<and> item_id post_7 \<in> saved_searches_for_posts sink_7
   \<and> save_searches_for_posts [post_7] sink_7 = (None, sink_7)
   \<and> (7, ''1'', ''facebook/post/comments'') \<in> saved_connections sink_7
   \<and> save_connections ''1'' [''7''] ''facebook/post/comments'' sink_7 = (None, sink_7)
   \<and> save_posts [] empty_sink = (None, empty_sink)
   \<and> facebook_posts_csv sink_7 = None"
  using save_nothing_new_is_noop [of "[post_7]" sink_7 "[''7'']" "''1''" "''facebook/post/comments''"]
    save_nothing_new_is_noop [of "[]" empty_sink "[]" "''1''" "''facebook/post/comments''"]
  by (simp add: py_int_7 post_7_def sink_7_def empty_sink_def)

subsection \<open>Persistence across batches and runs\<close>

lemma sink_run_same_fields:
  "sink_run [Save_posts_op [post_7], Save_posts_op [post_7, post_7], New_run_op,
       Save_posts_op [post_7]] empty_sink
     = empty_sink\<lparr>facebook_posts_csv :=
         Some \<lparr>header = [''attached_medias_id'', ''attached_medias_preview_content'',
                  ''attached_medias_preview_url'', ''id'', ''text'', ''text_tagged_users'', ''text_tags''],
               body = [['''', '''', '''', ''7'', ''hello'', '''', '''']]\<rparr>,
         saved_posts := {7}\<rparr>"
  by code_simp

lemma sink_run_more_fields:
  "sink_run [Save_posts_op [post_7], Save_posts_op [post_8], New_run_op, Save_posts_op [post_8]]
       empty_sink
     = empty_sink\<lparr>facebook_posts_csv :=
         Some \<lparr>header = [''attached_medias_id'', ''attached_medias_preview_content'',
                  ''attached_medias_preview_url'', ''id'', ''text'', ''text_tagged_users'', ''text_tags''],
               body = [['''', '''', '''', ''7'', ''hello'', '''', ''''],
                       ['''', '''', '''', ''12'', ''8'', ''hello'', '''', ''''],
                       ['''', '''', '''', ''12'', ''8'', ''hello'', '''', '''']]\<rparr>,
         saved_posts := {7, 8, 12}\<rparr>"
  by code_simp

lemma start_run_more_fields:
  "map_sum id saved_posts
     (start_run (sink_run [Save_posts_op [post_7], Save_posts_op [post_8]] empty_sink))
     = Inr {7, 12}"
  by code_simp

text \<open>
  C8, the failing input. Post 7 is saved, then post 8, whose object has the same keys and
  \<^verbatim>\<open>comments_count\<close>; a later run starts and saves post 8 again. The file has been created
  with the sorted keys of post 7 as its header line, and the line of post 8 is written by
  the sorted keys of post 8, so that the cell under \<^verbatim>\<open>id\<close> holds its \<^verbatim>\<open>comments_count\<close>, 12:
  \<^verbatim>\<open>init()\<close> of the later run reads the identifiers 7 and 12, post 8 is not in the set, and its
  line is appended a second time. (When every record has the keys of post 7, the same
  succession of saves writes one line.)
\<close>

theorem persistence_duplicates_row:
  "rows (facebook_posts_csv
      (sink_run [Save_posts_op [post_7], Save_posts_op [post_8], New_run_op, Save_posts_op [post_8]]
         empty_sink))
     = [['''', '''', '''', ''7'', ''hello'', '''', ''''],
        ['''', '''', '''', ''12'', ''8'', ''hello'', '''', ''''],
        ['''', '''', '''', ''12'', ''8'', ''hello'', '''', '''']]
   \<and> map_sum id saved_posts
       (start_run (sink_run [Save_posts_op [post_7], Save_posts_op [post_8]] empty_sink))
     = Inr {7, 12}
   \<and> rows (facebook_posts_csv
      (sink_run [Save_posts_op [post_7], Save_posts_op [post_7, post_7], New_run_op,
         Save_posts_op [post_7]] empty_sink))
     = [['''', '''', '''', ''7'', ''hello'', '''', '''']]"
  by (simp add: sink_run_more_fields sink_run_same_fields start_run_more_fields rows_def)

subsection \<open>Crawl Orchestrator: the scenario\<close>

lemmas py_int_eval = py_int_def strip_def is_space_def nat_literal_def digit_val_def

lemma post_123_fields:
  "item_id post_123 = ''123''" "owner_id post_123 = None" "group_id post_123 = None"
  "comments_count post_123 = Some 5"
  by (simp_all add: post_123_def)

lemma comment_of_fields:
  "item_id (comment_of i) = i" "owner_id (comment_of i) = None"
  "comments_count (comment_of i) = Some 0"
  by (simp_all add: comment_of_def)

lemma save_post_123:
  "save_by_int_id normalize_post_csv [post_123] None {}
     = (None,
        Some \<lparr>header = [''attached_medias_id'', ''attached_medias_preview_content'',
                 ''attached_medias_preview_url'', ''id'', ''text'', ''text_tagged_users'',
                 ''text_tags''],
              body = [['''', '''', '''', ''123'', ''hello'', '''', '''']]\<rparr>,
        {123})"
  by code_simp

lemma save_comments_123:
  "save_by_int_id normalize_comment_csv [comment_of ''1'', comment_of ''2'', comment_of ''3''] None {}
     = (None,
        Some \<lparr>header = [''id'', ''text'', ''text_tagged_users'', ''text_tags''],
              body = [[''1'', ''hi'', '''', ''''], [''2'', ''hi'', '''', ''''],
                      [''3'', ''hi'', '''', '''']]\<rparr>,
        {1, 2, 3})"
  by code_simp

lemma int_ids_123: "int_ids [''1'', ''2'', ''3''] = Some [1, 2, 3]"
  by code_simp

lemma save_connection_rows_123:
  "save_items_to_csv [''id'', ''parent_id'', ''collection'']
       [connection_row (1, ''123'', ''facebook/post/comments''),
        connection_row (2, ''123'', ''facebook/post/comments''),
        connection_row (3, ''123'', ''facebook/post/comments'')] None
     = (None,
        Some \<lparr>header = [''collection'', ''id'', ''parent_id''],
              body = [[''facebook/post/comments'', ''1'', ''123''],
                      [''facebook/post/comments'', ''2'', ''123''],
                      [''facebook/post/comments'', ''3'', ''123'']]\<rparr>)"
  by code_simp

lemma save_connections_123:
  assumes "facebook_connections_csv s = None" and "saved_connections s = {}"
  shows "save_connections ''123'' [''1'', ''2'', ''3''] ''facebook/post/comments'' s
     = (None,
        s\<lparr>facebook_connections_csv :=
              Some \<lparr>header = [''collection'', ''id'', ''parent_id''],
                    body = [[''facebook/post/comments'', ''1'', ''123''],
                            [''facebook/post/comments'', ''2'', ''123''],
                            [''facebook/post/comments'', ''3'', ''123'']]\<rparr>,
            saved_connections :=
              {(1, ''123'', ''facebook/post/comments''), (2, ''123'', ''facebook/post/comments''),
               (3, ''123'', ''facebook/post/comments'')}\<rparr>)"
  unfolding save_connections_def int_ids_123
  using assms by (simp add: save_connection_rows_123)

lemma crawl_post_123_run:
  "crawl_post (Suc n) mock_api ''123'' True (Some 2) world_0 = Some (Inr (), world_123)"
  by (simp add: crawl_post_def fetch_post_def fetch_post_body_def fetch_post_collect_def
      update_job_def request_update_def get_update_status_def get_item_def item_of_response_def
      make_request_def fetch_self_def profile_task_def finish_def comments_tasks_def
      get_collection_next_def get_collection_page_def fetch_comment_def
      and_then_def returns_def on_output_def get_task_status_def set_task_status_def flag_def
      truthy_int_def error_code_is_def API_URL_def
      save_posts_def save_comments_def save_connections_123 save_post_123 save_comments_123
      empty_sink_def post_123_fields comment_of_fields
      mock_api_def ok_response_def accepted_response_def not_found_response_def
      world_0_def world_123_def params_123_def post_params_def comment_params_def date_desc_def Let_def
      fun_upd_twist insert_commute)

text \<open>
  C1, as the code has it. Crawling post 123 with \<^verbatim>\<open>fetch_comments\<close> and
  \<^verbatim>\<open>max_comments = 2\<close> against the API of the scenario (comments in pages of 3 and 2), with
  any fuel: the crawl ends normally, requests the first page of comments only (the loop is
  left after the batch that holds the 2nd comment), saves the post once, and saves the
  whole batch: 3 comments and 3 connection rows of collection
  \<^verbatim>\<open>facebook/post/comments\<close>.
\<close>

theorem crawl_post_123_whole_batch:
  "crawl_post (Suc n) mock_api ''123'' True (Some 2) world_0 = Some (Inr (), world_123)
   \<and> length (filter (\<lambda>r. req_url r = API_URL @ ''/facebook/post/123/comments'') (requests world_123)) = 1
   \<and> rows (facebook_posts_csv (outputs world_123)) = [['''', '''', '''', ''123'', ''hello'', '''', '''']]
   \<and> rows (facebook_comments_csv (outputs world_123)) =
        [[''1'', ''hi'', '''', ''''], [''2'', ''hi'', '''', ''''], [''3'', ''hi'', '''', '''']]
   \<and> rows (facebook_connections_csv (outputs world_123)) =
        [[''facebook/post/comments'', ''1'', ''123''], [''facebook/post/comments'', ''2'', ''123''],
         [''facebook/post/comments'', ''3'', ''123'']]"
  using crawl_post_123_run [of n]
  by (simp add: world_123_def rows_def API_URL_def)

text \<open>
  The claim as stated, at most 2 comments and at most 2 connection rows, fails on that
  run.
\<close>

theorem crawl_post_123_counterexample:
  "crawl_post 1 mock_api ''123'' True (Some 2) world_0 = Some (Inr (), world_123)
   \<and> \<not> length (rows (facebook_comments_csv (outputs world_123))) \<le> 2
   \<and> \<not> length (filter (\<lambda>line. hd line = ''facebook/post/comments'')
                 (rows (facebook_connections_csv (outputs world_123)))) \<le> 2"
  using crawl_post_123_run [of 0]
  by (simp add: world_123_def rows_def)

subsection \<open>Crawl Orchestrator: polling the update job\<close>

lemma poll_update_failed:
  "poll_update n failed_job_api url ps item w = None"
  by (induction n arbitrary: w)
     (simp_all add: get_update_status_def make_request_def failed_job_api_def ok_response_def)

text \<open>
  C2, the failing input. An update job whose status is \<^verbatim>\<open>failed\<close> never ends the polling
  loop, because the loop tests for \<^verbatim>\<open>'fail'\<close>: whatever the fuel, the top-level crawl of a
  post has not returned.
\<close>

theorem crawl_post_failed_job_never_returns:
  "crawl_post n failed_job_api ''123'' fetch_comments max_comments world_0 = None"
  by (simp add: crawl_post_def fetch_post_def fetch_post_body_def update_job_def
      request_update_def make_request_def get_task_status_def world_0_def post_params_def
      failed_job_api_def accepted_response_def and_then_def returns_def poll_update_failed Let_def)

subsection \<open>Finished tasks under concurrency\<close>






































text \<open>
  The race in the event loop. Of two top-level invocations of post 123, both read the task
  cache before either has written it. When the first has run to its end with all its
  tasks, 123 is \<^verbatim>\<open>finished\<close>; the second then requests the update (line 105) and writes
  \<^verbatim>\<open>created\<close> over it (line 106).
\<close>

lemma finished_overwritten_in_pool:
  "task_cache (snd (run_pool first_to_its_end twice_123 world_0)) ''123'' = Some ''finished''
   \<and> task_cache (snd (run_pool (first_to_its_end @ [1, 1]) twice_123 world_0)) ''123''
       = Some ''created''"
  by code_simp


subsection \<open>Crawl Orchestrator: a record that is not found\<close>

lemma not_found_item: "not_found resp \<Longrightarrow> item_of_response resp = Inr None"
  by (simp add: not_found_def item_of_response_def)

lemma other_failure_item: "other_failure resp \<Longrightarrow> item_of_response resp = Inl ApiRequestError"
  by (auto simp: other_failure_def item_of_response_def)

lemma get_item_one_request:
  "get_item api url ps w =
     (item_of_response (api (requests w) (item_request url ps)),
      w\<lparr>requests := requests w @ [item_request url ps]\<rparr>)"
  by (simp add: get_item_def make_request_def item_request_def Let_def)

lemma run_tasks_Nil: "run_tasks aw [] w = Some (Inr (), w)"
  by (simp add: returns_def)

lemma finish_Nil: "finish aw item [] w = Some (Inr (), set_task_status item ''finished'' w)"
  by (simp add: finish_def and_then_def returns_def)

lemma fetch_self_absent:
  "get_item api url ps w = (Inr None, w') \<Longrightarrow>
     fetch_self api url ps None save w = Some (Inr (None, []), w')"
  by (simp add: fetch_self_def returns_def)

lemma fetch_self_raises:
  "get_item api url ps w = (Inl e, w') \<Longrightarrow> fetch_self api url ps None save w = Some (Inl e, w')"
  by (simp add: fetch_self_def)

text \<open>
  \<open>updated\<close>: the update block of an invocation started in \<open>w\<close>, if it has one, has ended
  normally in \<open>w1\<close>.
\<close>

lemma fetch_post_absent:
  assumes "get_task_status item w \<noteq> Some ''finished''"
    and "(if update
          then update_job n api (''facebook/post/'' @ item) (post_params fc mc) item
                 (get_task_status item w) w
          else returns () w) = Some (Inr (), w1)"
    and "get_item api (''facebook/post/'' @ item) (post_params fc mc) w1 = (Inr None, w')"
  shows "fetch_post n api aw item update None fc mc w
           = Some (Inr (), set_task_status item ''finished'' w')"
  using assms
  by (cases update) (simp_all add: returns_def fetch_post_def fetch_post_body_def fetch_post_collect_def fetch_self_absent
      finish_Nil and_then_def Let_def)

lemma fetch_post_raises:
  assumes "get_task_status item w \<noteq> Some ''finished''"
    and "(if update
          then update_job n api (''facebook/post/'' @ item) (post_params fc mc) item
                 (get_task_status item w) w
          else returns () w) = Some (Inr (), w1)"
    and "get_item api (''facebook/post/'' @ item) (post_params fc mc) w1 = (Inl e, w')"
  shows "fetch_post n api aw item update None fc mc w = Some (Inl e, w')"
  using assms
  by (cases update) (simp_all add: returns_def fetch_post_def fetch_post_body_def fetch_post_collect_def fetch_self_raises
      and_then_def Let_def)

lemma fetch_comment_absent:
  assumes "get_task_status item w \<noteq> Some ''finished''"
    and "get_item api (''facebook/comment/'' @ item) (comment_params fc mc) w = (Inr None, w')"
  shows "fetch_comment n api aw item None fc mc w
           = Some (Inr (), set_task_status item ''finished'' w')"
  using assms
  by (simp add: fetch_comment_def fetch_self_absent finish_Nil and_then_def Let_def)

lemma fetch_comment_raises:
  assumes "get_task_status item w \<noteq> Some ''finished''"
    and "get_item api (''facebook/comment/'' @ item) (comment_params fc mc) w = (Inl e, w')"
  shows "fetch_comment n api aw item None fc mc w = Some (Inl e, w')"
  using assms
  by (simp add: fetch_comment_def fetch_self_raises and_then_def Let_def)

lemma fetch_profile_absent:
  assumes "get_task_status item w \<noteq> Some ''finished''"
    and "(if update
          then update_job n api (''facebook/profile/'' @ item)
                 (profile_params ffp fcp fc mp mc fd td) item (get_task_status item w) w
          else returns () w) = Some (Inr (), w1)"
    and "get_item api (''facebook/profile/'' @ item) (profile_params ffp fcp fc mp mc fd td) w1
           = (Inr None, w')"
  shows "fetch_profile n api aw item update None ffp fcp fc mp mc fd td w
           = Some (Inr (), set_task_status item ''finished'' w')"
  using assms
  by (cases update) (simp_all add: returns_def fetch_profile_def fetch_self_absent finish_Nil and_then_def Let_def)

lemma fetch_profile_raises:
  assumes "get_task_status item w \<noteq> Some ''finished''"
    and "(if update
          then update_job n api (''facebook/profile/'' @ item)
                 (profile_params ffp fcp fc mp mc fd td) item (get_task_status item w) w
          else returns () w) = Some (Inr (), w1)"
    and "get_item api (''facebook/profile/'' @ item) (profile_params ffp fcp fc mp mc fd td) w1
           = (Inl e, w')"
  shows "fetch_profile n api aw item update None ffp fcp fc mp mc fd td w = Some (Inl e, w')"
  using assms
  by (cases update) (simp_all add: returns_def fetch_profile_def fetch_self_raises and_then_def Let_def)

lemma fetch_search_absent:
  assumes "get_task_status (search_item_id cf (\<lambda>text. text) request fd td stype) w \<noteq> Some ''finished''"
    and "(if update
          then update_job n api (''facebook/search/'' @ request @ ''/posts/'' @ search_type_str stype)
                 (search_params fc mp mc fd td) (search_item_id cf (\<lambda>text. text) request fd td stype)
                 (get_task_status (search_item_id cf (\<lambda>text. text) request fd td stype) w) w
          else returns () w) = Some (Inr (), w1)"
    and "get_item api (''facebook/search/'' @ request @ ''/posts/'' @ search_type_str stype)
           (search_params fc mp mc fd td) w1 = (Inr None, w')"
  shows "fetch_search_for_posts cf n api aw request update None fc mp mc fd td stype w
           = Some (Inr (), set_task_status (search_item_id cf (\<lambda>text. text) request fd td stype)
                ''finished'' w')"
  using assms
  by (cases update) (simp_all add: returns_def fetch_search_for_posts_def fetch_self_absent finish_Nil and_then_def Let_def)

lemma fetch_search_raises:
  assumes "get_task_status (search_item_id cf (\<lambda>text. text) request fd td stype) w \<noteq> Some ''finished''"
    and "(if update
          then update_job n api (''facebook/search/'' @ request @ ''/posts/'' @ search_type_str stype)
                 (search_params fc mp mc fd td) (search_item_id cf (\<lambda>text. text) request fd td stype)
                 (get_task_status (search_item_id cf (\<lambda>text. text) request fd td stype) w) w
          else returns () w) = Some (Inr (), w1)"
    and "get_item api (''facebook/search/'' @ request @ ''/posts/'' @ search_type_str stype)
           (search_params fc mp mc fd td) w1 = (Inl e, w')"
  shows "fetch_search_for_posts cf n api aw request update None fc mp mc fd td stype w
           = Some (Inl e, w')"
  using assms
  by (cases update) (simp_all add: returns_def fetch_search_for_posts_def fetch_self_raises and_then_def Let_def)

text \<open>
  What \<^verbatim>\<open>get_item\<close> does with the answers that carry what the code reads of them. It makes
  one request. A \<^verbatim>\<open>'fail'\<close> answer with error code \<^verbatim>\<open>NotFoundError\<close> makes it return \<^verbatim>\<open>None\<close>;
  an answer that is not \<^verbatim>\<open>'ok'\<close> and, when its status is \<^verbatim>\<open>'fail'\<close>, carries another error
  code makes it raise \<^verbatim>\<open>ApiRequestError\<close>. In the fetch functions (by the lemmas above, with
  or without the update block, no \<^verbatim>\<open>this_item\<close>, item not finished): when \<^verbatim>\<open>get_item\<close>
  returns \<^verbatim>\<open>None\<close> the invocation ends normally having done nothing more but mark the item
  \<^verbatim>\<open>finished\<close>; when it raises, the invocation raises the same exception in the world
  \<^verbatim>\<open>get_item\<close> left, without another request.
\<close>

lemma get_item_not_found_or_failure:
  "(not_found (api (requests w) (item_request url ps)) \<longrightarrow>
      get_item api url ps w = (Inr None, w\<lparr>requests := requests w @ [item_request url ps]\<rparr>))
   \<and> (other_failure (api (requests w) (item_request url ps)) \<longrightarrow>
      get_item api url ps w
        = (Inl ApiRequestError, w\<lparr>requests := requests w @ [item_request url ps]\<rparr>))"
  by (simp add: get_item_one_request not_found_item other_failure_item)

lemma bare_fail_api_update:
  "update_job (Suc n) bare_fail_api url ps item None world_0
     = Some (Inr (), world_0
         \<lparr>task_cache := [item \<mapsto> ''collecting''],
          requests :=
            [\<lparr>req_method = Post, req_url = API_URL @ ''/'' @ url @ ''/update'',
               req_params = clean_params ps\<rparr>,
             \<lparr>req_method = Get, req_url = API_URL @ ''/'' @ url @ ''/update'',
               req_params = clean_params ps\<rparr>]\<rparr>)"
  by (simp add: update_job_def request_update_def get_update_status_def make_request_def
      bare_fail_api_def accepted_response_def ok_response_def and_then_def returns_def
      set_task_status_def world_0_def Let_def)

lemma get_item_bare_fail:
  "map req_method (requests w) \<noteq> [Post] \<Longrightarrow> fst (get_item bare_fail_api url ps w) = Inl TypeError"
  by (simp add: get_item_def make_request_def item_of_response_def error_code_is_def
      bare_fail_api_def bare_fail_response_def Let_def)

text \<open>
  C7, the failing input. The remote side accepts the update job, reports it finished, and
  answers the request for the item with status \<^verbatim>\<open>'fail'\<close> and no error payload
  (\<^verbatim>\<open>error\<close> is \<^verbatim>\<open>None\<close>, as \<^verbatim>\<open>Optional[Dict]\<close> allows). \<^verbatim>\<open>get_item\<close> evaluates
  \<^verbatim>\<open>resp.error['code']\<close> for every \<^verbatim>\<open>'fail'\<close> answer, before its own test for a status that
  is not \<^verbatim>\<open>'ok'\<close>: it raises \<^verbatim>\<open>TypeError\<close>, not the API error, and so do the top-level crawls
  of a post, a profile and a search and a spawned profile fetch. On the same answer
  \<^verbatim>\<open>request_update\<close>, \<^verbatim>\<open>get_update_status\<close> and \<^verbatim>\<open>get_collection\<close> raise \<^verbatim>\<open>ApiRequestError\<close>.
\<close>

theorem get_item_bare_fail_raises_type_error:
  "status bare_fail_response \<noteq> ''ok''
   \<and> fst (get_item (\<lambda>history req. bare_fail_response) ''facebook/post/999''
            (post_params False None) world_0) = Inl TypeError
   \<and> fst (request_update (\<lambda>history req. bare_fail_response) ''facebook/post/999''
            (post_params False None) world_0) = Inl ApiRequestError
   \<and> fst (get_update_status (\<lambda>history req. bare_fail_response) ''facebook/post/999''
            (post_params False None) world_0) = Inl ApiRequestError
   \<and> fst (get_collection_next (\<lambda>history req. bare_fail_response) ''facebook/post/999/comments''
            (Gen_start (post_params False None)) world_0) = Inl ApiRequestError
   \<and> map_option fst (crawl_post 1 bare_fail_api ''999'' False None world_0) = Some (Inl TypeError)
   \<and> map_option fst (crawl_profile 1 bare_fail_api ''999'' False False False None None None None
         world_0) = Some (Inl TypeError)
   \<and> map_option fst (crawl_search (\<lambda>text. text) 1 bare_fail_api ''cats'' False None None None None
         Top world_0) = Some (Inl TypeError)
   \<and> map_option fst (await 1 bare_fail_api (Fetch_profile ''9'') world_0) = Some (Inl TypeError)"
proof (intro conjI)
  show "status bare_fail_response \<noteq> ''ok''" by (simp add: bare_fail_response_def)
  show "fst (get_item (\<lambda>history req. bare_fail_response) ''facebook/post/999''
            (post_params False None) world_0) = Inl TypeError"
    by (simp add: get_item_def make_request_def item_of_response_def error_code_is_def
        bare_fail_response_def Let_def)
  show "fst (request_update (\<lambda>history req. bare_fail_response) ''facebook/post/999''
            (post_params False None) world_0) = Inl ApiRequestError"
    by (simp add: request_update_def make_request_def bare_fail_response_def Let_def)
  show "fst (get_update_status (\<lambda>history req. bare_fail_response) ''facebook/post/999''
            (post_params False None) world_0) = Inl ApiRequestError"
    by (simp add: get_update_status_def make_request_def bare_fail_response_def Let_def)
  show "fst (get_collection_next (\<lambda>history req. bare_fail_response) ''facebook/post/999/comments''
            (Gen_start (post_params False None)) world_0) = Inl ApiRequestError"
    by (simp add: get_collection_next_def get_collection_page_def make_request_def
        bare_fail_response_def Let_def)
  have none: "get_task_status item world_0 = None" for item
    by (simp add: get_task_status_def world_0_def)
  have raises: "fetch_self bare_fail_api url ps None save w
      = Some (Inl TypeError, snd (get_item bare_fail_api url ps w))"
    if "map req_method (requests w) \<noteq> [Post]" for url ps save w
    using get_item_bare_fail [OF that, of url ps]
    by (cases "get_item bare_fail_api url ps w") (simp add: fetch_self_def)
  show "map_option fst (crawl_post 1 bare_fail_api ''999'' False None world_0) = Some (Inl TypeError)"
    by (simp add: crawl_post_def fetch_post_def fetch_post_body_def fetch_post_collect_def none
        bare_fail_api_update raises and_then_def Let_def)
  show "map_option fst (crawl_profile 1 bare_fail_api ''999'' False False False None None None None
         world_0) = Some (Inl TypeError)"
    by (simp add: crawl_profile_def fetch_profile_def none bare_fail_api_update raises
        and_then_def Let_def)
  show "map_option fst (crawl_search (\<lambda>text. text) 1 bare_fail_api ''cats'' False None None None None
         Top world_0) = Some (Inl TypeError)"
    by (simp add: crawl_search_def fetch_search_for_posts_def none bare_fail_api_update raises
        and_then_def Let_def)
  show "map_option fst (await 1 bare_fail_api (Fetch_profile ''9'') world_0) = Some (Inl TypeError)"
    by (simp add: fetch_profile_def get_task_status_def raises and_then_def returns_def world_0_def Let_def)
qed

subsection \<open>Paginator\<close>

lemma map_of_dict_set: "map_of (dict_set k v d) k' = (if k' = k then Some v else map_of d k')"
  by (induction d) auto

lemma dict_set_same: "map_of d k = Some v \<Longrightarrow> dict_set k v d = d"
  by (induction d) (auto split: if_splits)

lemma dict_set_twice: "dict_set k v (dict_set k v' d) = dict_set k v d"
  by (induction d) auto

lemma keys_dict_set: "fst ` set (dict_set k v d) = insert k (fst ` set d)"
proof (induction d)
  case Nil
  show ?case by simp
next
  case (Cons a d)
  obtain k' v' where a: "a = (k', v')" by (cases a)
  show ?case
  proof (cases "k' = k")
    case True
    with a show ?thesis by simp
  next
    case False
    with a Cons show ?thesis by (simp add: insert_commute)
  qed
qed

lemma distinct_dict_set: "distinct (map fst d) \<Longrightarrow> distinct (map fst (dict_set k v d))"
proof (induction d)
  case Nil
  show ?case by simp
next
  case (Cons a d)
  obtain k' v' where a: "a = (k', v')" by (cases a)
  show ?case
  proof (cases "k' = k")
    case True
    with Cons.prems a show ?thesis by simp
  next
    case False
    from Cons.prems a have "k' \<notin> fst ` set d" and "distinct (map fst d)" by auto
    with False Cons.IH have "k' \<notin> fst ` set (dict_set k v d)" and "distinct (map fst (dict_set k v d))"
      by (simp_all add: keys_dict_set)
    with False a show ?thesis by simp
  qed
qed

lemma fst_clean_params: "fst ` set (clean_params d) \<subseteq> fst ` set d"
  by (induction d rule: clean_params.induct) auto

lemma map_of_clean_params:
  "distinct (map fst d) \<Longrightarrow>
     map_of (clean_params d) k = (case map_of d k of Some (Some v) \<Rightarrow> Some v | _ \<Rightarrow> None)"
proof (induction d rule: clean_params.induct)
  case 1
  show ?case by simp
next
  case (2 k' ps)
  then have "k' \<notin> fst ` set (clean_params ps)" using fst_clean_params [of ps] by auto
  then have "map_of (clean_params ps) k' = None" by (simp add: map_of_eq_None_iff)
  with 2 show ?case by auto
next
  case (3 k' v ps)
  then show ?case by auto
qed

lemma first_page_cursor: "dict_set ''cursor'' None (first_page_params ps) = first_page_params ps"
  by (rule dict_set_same) (simp add: first_page_params_def map_of_dict_set)

lemma page_request_None:
  "page_request url ps None =
     \<lparr>req_method = Get, req_url = API_URL @ ''/'' @ url, req_params = clean_params (first_page_params ps)\<rparr>"
  by (simp add: page_request_def first_page_cursor)

text \<open>One request of the generator, for the cursor \<open>c\<close> and parameters \<open>q\<close> that hold it.\<close>

lemma get_collection_page_request:
  assumes "q = dict_set ''cursor'' (map_option Str_param c) (first_page_params ps)"
  shows "get_collection_page api (API_URL @ CHR ''/'' # url) q w =
     (let resp = api (requests w) (page_request url ps c);
          w' = w\<lparr>requests := requests w @ [page_request url ps c]\<rparr>
      in if status resp \<noteq> ''ok'' then (Inl ApiRequestError, w')
         else (case data resp of
                 None \<Rightarrow> (Inl TypeError, w')
               | Some (Page items has_next_page cursor) \<Rightarrow>
                   if items = [] then (Inr None, w')
                   else (Inr (Some (items, Gen_yielded q has_next_page cursor)), w')
               | Some _ \<Rightarrow> (Inl KeyError, w')))"
  by (simp add: get_collection_page_def make_request_def page_request_def assms Let_def
      split: option.splits payload.splits)

lemma get_collection_from_yielded:
  assumes "serves api (requests w) url ps cursor pages ending"
    and "\<forall>p\<in>set pages. fst p \<noteq> []"
    and "length pages < n"
    and "q = dict_set ''cursor'' c0 (first_page_params ps)"
  shows "get_collection_from n api url
           (Gen_yielded q (pages \<noteq> [] \<or> ending \<noteq> No_next_page) cursor) w
         = Some ((map fst pages, None),
             w\<lparr>requests := requests w @ map (page_request url ps) (cursors_from cursor pages ending)\<rparr>)"
  using assms
proof (induction pages arbitrary: n w cursor q c0)
  case Nil
  then obtain m where n: "n = Suc m" by (cases n) auto
  let ?q = "dict_set ''cursor'' (map_option Str_param cursor) q"
  have q: "?q = dict_set ''cursor'' (map_option Str_param cursor) (first_page_params ps)"
    by (simp add: Nil.prems(4) dict_set_twice)
  show ?case
  proof (cases ending)
    case No_next_page
    then show ?thesis by (simp add: n get_collection_next_def)
  next
    case (Empty_page h c)
    with Nil.prems(1) have "api (requests w) (page_request url ps cursor) = page_response [] h c"
      by simp
    then show ?thesis
      using Empty_page
      by (simp add: n get_collection_next_def get_collection_page_request [OF q]
          page_response_def Let_def)
  qed
next
  case (Cons p pages)
  obtain items next_cursor where p: "p = (items, next_cursor)" by (cases p)
  from Cons.prems(3) obtain m where n: "n = Suc m" and m: "length pages < m" by (cases n) auto
  let ?q = "dict_set ''cursor'' (map_option Str_param cursor) q"
  let ?w = "w\<lparr>requests := requests w @ [page_request url ps cursor]\<rparr>"
  have q: "?q = dict_set ''cursor'' (map_option Str_param cursor) (first_page_params ps)"
    by (simp add: Cons.prems(4) dict_set_twice)
  from Cons.prems(1) p
  have resp: "api (requests w) (page_request url ps cursor)
        = page_response items (pages \<noteq> [] \<or> ending \<noteq> No_next_page) next_cursor"
    and rest: "serves api (requests ?w) url ps next_cursor pages ending"
    by simp_all
  from Cons.prems(2) p have items: "items \<noteq> []" and all: "\<forall>p\<in>set pages. fst p \<noteq> []" by auto
  have step: "get_collection_next api url (Gen_yielded q True cursor) w
      = (Inr (Some (items, Gen_yielded ?q (pages \<noteq> [] \<or> ending \<noteq> No_next_page) next_cursor)), ?w)"
    using resp items
    by (simp add: get_collection_next_def get_collection_page_request [OF q] page_response_def
        Let_def)
  have "get_collection_from m api url
          (Gen_yielded ?q (pages \<noteq> [] \<or> ending \<noteq> No_next_page) next_cursor) ?w
        = Some ((map fst pages, None),
            ?w\<lparr>requests := requests ?w @ map (page_request url ps) (cursors_from next_cursor pages ending)\<rparr>)"
    by (rule Cons.IH [OF rest all m q])
  with step show ?case by (simp add: n p)
qed

lemma get_collection_serves:
  assumes sv: "serves api (requests w) url ps None pages ending"
    and items: "\<forall>p\<in>set pages. fst p \<noteq> []"
    and some: "pages \<noteq> [] \<or> ending \<noteq> No_next_page"
    and fuel: "length pages < n"
  shows "get_collection n api url ps w
         = Some ((map fst pages, None),
             w\<lparr>requests := requests w @ map (page_request url ps) (cursors_from None pages ending)\<rparr>)"
proof -
  from fuel obtain m where n: "n = Suc m" and m: "length pages \<le> m" by (cases n) auto
  have q: "first_page_params ps = dict_set ''cursor'' (map_option Str_param None) (first_page_params ps)"
    by (simp add: first_page_cursor)
  have start: "get_collection_next api url (Gen_start ps) w
      = get_collection_page api (API_URL @ ''/'' @ url) (first_page_params ps) w"
    by (simp add: get_collection_next_def first_page_params_def)
  show ?thesis
  proof (cases pages)
    case Nil
    with some obtain h c where e: "ending = Empty_page h c" by (cases ending) auto
    with sv Nil have "api (requests w) (page_request url ps None) = page_response [] h c" by simp
    then show ?thesis
      using Nil e
      by (simp add: get_collection_def n start get_collection_page_request [OF q]
          page_response_def Let_def)
  next
    case (Cons p rest)
    obtain its next_cursor where p: "p = (its, next_cursor)" by (cases p)
    let ?w = "w\<lparr>requests := requests w @ [page_request url ps None]\<rparr>"
    from sv Cons p
    have resp: "api (requests w) (page_request url ps None)
          = page_response its (rest \<noteq> [] \<or> ending \<noteq> No_next_page) next_cursor"
      and sv': "serves api (requests ?w) url ps next_cursor rest ending"
      by simp_all
    from items Cons p have its: "its \<noteq> []" and all: "\<forall>p\<in>set rest. fst p \<noteq> []" by auto
    from m Cons have m': "length rest < m" by simp
    have step: "get_collection_next api url (Gen_start ps) w
        = (Inr (Some (its, Gen_yielded (first_page_params ps)
                            (rest \<noteq> [] \<or> ending \<noteq> No_next_page) next_cursor)), ?w)"
      using resp its
      by (simp add: start get_collection_page_request [OF q] page_response_def Let_def)
    have "get_collection_from m api url
            (Gen_yielded (first_page_params ps) (rest \<noteq> [] \<or> ending \<noteq> No_next_page) next_cursor) ?w
          = Some ((map fst rest, None),
              ?w\<lparr>requests := requests ?w @ map (page_request url ps) (cursors_from next_cursor rest ending)\<rparr>)"
      by (rule get_collection_from_yielded [OF sv' all m' first_page_cursor [symmetric]])
    with step show ?thesis by (simp add: get_collection_def n Cons p)
  qed
qed

lemma cursors_from_sent:
  "pages \<noteq> [] \<or> ending \<noteq> No_next_page \<Longrightarrow>
     cursors_from c pages ending
       = c # (case ending of No_next_page \<Rightarrow> butlast (map snd pages) | Empty_page _ _ \<Rightarrow> map snd pages)"
proof (induction pages arbitrary: c)
  case Nil
  then show ?case by (cases ending) auto
next
  case (Cons p pages)
  obtain items next_cursor where p: "p = (items, next_cursor)" by (cases p)
  show ?case
  proof (cases "pages = [] \<and> ending = No_next_page")
    case True
    then show ?thesis by (simp add: p)
  next
    case False
    then have "pages \<noteq> [] \<or> ending \<noteq> No_next_page" by blast
    from Cons.IH [OF this, of next_cursor] False show ?thesis
      by (cases ending) (auto simp: p)
  qed
qed

lemma page_request_params:
  assumes "distinct (map fst ps)"
  shows "map_of (req_params (page_request url ps c)) ''cursor'' = map_option Str_param c"
    and "map_of (req_params (page_request url ps c)) ''max_page_size'' = Some (Int_param 100)"
proof -
  have d: "distinct (map fst (dict_set ''cursor'' (map_option Str_param c) (first_page_params ps)))"
    unfolding first_page_params_def by (intro distinct_dict_set assms)
  have "map_of (req_params (page_request url ps c)) ''cursor''
      = (case Some (map_option Str_param c) of Some (Some v) \<Rightarrow> Some v | _ \<Rightarrow> None)"
    by (simp only: page_request_def request.simps map_of_clean_params [OF d] map_of_dict_set
        refl if_True)
  then show "map_of (req_params (page_request url ps c)) ''cursor'' = map_option Str_param c"
    by (cases c) simp_all
  have "map_of (first_page_params ps) ''max_page_size'' = Some (Some (Int_param 100))"
    by (simp add: first_page_params_def map_of_dict_set)
  then show "map_of (req_params (page_request url ps c)) ''max_page_size'' = Some (Int_param 100)"
    by (simp add: page_request_def map_of_clean_params [OF d] map_of_dict_set)
qed

text \<open>
  C4. Against an endpoint that serves N pages of at least one item each, the N-th with
  \<^verbatim>\<open>has_next_page = false\<close>, the Paginator (given fuel for more than N steps) yields exactly
  those N batches, in order, and ends normally; when instead a page comes back with zero
  items, it ends there and yields only the pages before it. The requests it has made are
  the page requests for the cursors \<open>None\<close>, then the cursor of each page's info in turn;
  and such a request carries that cursor (none for \<open>None\<close>) and \<^verbatim>\<open>max_page_size = 100\<close>.
\<close>

theorem paginator_yields_every_page:
  assumes "serves api (requests w) url ps None pages ending"
    and "\<forall>p\<in>set pages. fst p \<noteq> []"
    and "pages \<noteq> [] \<or> ending \<noteq> No_next_page"
    and "length pages < n"
  shows "get_collection n api url ps w
           = Some ((map fst pages, None),
               w\<lparr>requests := requests w @ map (page_request url ps) (cursors_sent pages ending)\<rparr>)
         \<and> (distinct (map fst ps) \<longrightarrow>
              (\<forall>c. map_of (req_params (page_request url ps c)) ''cursor'' = map_option Str_param c
                 \<and> map_of (req_params (page_request url ps c)) ''max_page_size''
                     = Some (Int_param 100)))"
  using get_collection_serves [OF assms] cursors_from_sent [OF assms(3), of None]
    page_request_params [of ps url]
  by (simp add: cursors_sent_def)

text \<open>The comments of post 123: a page of three, then a page of two.\<close>

theorem paginator_yields_every_page_witness:
  "serves mock_api (requests world_0) ''facebook/post/123/comments'' [] None comment_pages No_next_page
   \<and> fst (comment_pages ! 0) \<noteq> [] \<and> fst (comment_pages ! 1) \<noteq> [] \<and> length comment_pages = 2
   \<and> get_collection 3 mock_api ''facebook/post/123/comments'' [] world_0
       = Some (([[comment_of ''1'', comment_of ''2'', comment_of ''3''],
                 [comment_of ''4'', comment_of ''5'']], None),
            world_0\<lparr>requests :=
              [page_request ''facebook/post/123/comments'' [] None,
               page_request ''facebook/post/123/comments'' [] (Some ''page-2'')]\<rparr>)
   \<and> map_of (req_params (page_request ''facebook/post/123/comments'' [] (Some ''page-2''))) ''cursor''
       = Some (Str_param ''page-2'')"
proof -
  have sv: "serves mock_api (requests world_0) ''facebook/post/123/comments'' [] None
      comment_pages No_next_page"
    by (simp add: comment_pages_def mock_api_def ok_response_def page_response_def
        page_request_def first_page_params_def API_URL_def world_0_def)
  have items: "\<forall>p\<in>set comment_pages. fst p \<noteq> []" by (simp add: comment_pages_def)
  have some: "comment_pages \<noteq> [] \<or> No_next_page \<noteq> No_next_page" by (simp add: comment_pages_def)
  have fuel: "length comment_pages < 3" by (simp add: comment_pages_def)
  from paginator_yields_every_page [OF sv items some fuel] sv show ?thesis
    by (simp add: comment_pages_def cursors_sent_def world_0_def)
qed

subsection \<open>Scheduler\<close>

lemma refill_props:
  "refill mx coros tasks = (tasks1, coros1, hm1) \<Longrightarrow>
     (\<exists>m. tasks1 = tasks @ take m coros \<and> coros1 = drop m coros \<and> m \<le> length coros)
     \<and> (length tasks \<le> mx \<longrightarrow> length tasks1 \<le> mx)
     \<and> (\<not> hm1 \<longrightarrow> coros1 = [] \<and> length tasks1 < mx)
     \<and> (hm1 \<longrightarrow> mx \<le> length tasks1)"
proof (induction coros arbitrary: tasks)
  case Nil
  then show ?case by (auto split: if_splits)
next
  case (Cons c coros)
  show ?case
  proof (cases "length tasks < mx")
    case False
    with Cons.prems show ?thesis by (auto intro: exI [of _ 0])
  next
    case True
    with Cons.prems have r: "refill mx coros (tasks @ [c]) = (tasks1, coros1, hm1)" by simp
    from Cons.IH [OF r] obtain m where m: "tasks1 = (tasks @ [c]) @ take m coros"
        "coros1 = drop m coros" "m \<le> length coros"
      and rest: "(length (tasks @ [c]) \<le> mx \<longrightarrow> length tasks1 \<le> mx)"
        "(\<not> hm1 \<longrightarrow> coros1 = [] \<and> length tasks1 < mx)" "(hm1 \<longrightarrow> mx \<le> length tasks1)"
      by blast
    from m have "tasks1 = tasks @ take (Suc m) (c # coros) \<and> coros1 = drop (Suc m) (c # coros)
        \<and> Suc m \<le> length (c # coros)" by simp
    then have "\<exists>m. tasks1 = tasks @ take m (c # coros) \<and> coros1 = drop m (c # coros)
        \<and> m \<le> length (c # coros)" by blast
    with rest True show ?thesis by simp
  qed
qed

lemma refilled_props:
  assumes "refilled mx tasks coros hm = (tasks1, coros1, hm1)"
  shows "\<exists>m. tasks1 = tasks @ take m coros \<and> coros1 = drop m coros \<and> m \<le> length coros"
    and "length tasks \<le> mx \<Longrightarrow> length tasks1 \<le> mx"
    and "settled mx tasks1 hm1"
    and "0 < mx \<Longrightarrow> tasks1 = [] \<Longrightarrow> \<not> hm1"
    and "\<not> hm \<longrightarrow> coros = [] \<Longrightarrow> \<not> hm1 \<longrightarrow> coros1 = []"
proof -
  show "\<exists>m. tasks1 = tasks @ take m coros \<and> coros1 = drop m coros \<and> m \<le> length coros"
  proof (cases hm)
    case True
    with assms refill_props [of mx coros tasks tasks1 coros1 hm1] show ?thesis
      by (simp add: refilled_def)
  next
    case False
    with assms show ?thesis by (auto simp: refilled_def intro: exI [of _ 0])
  qed
  show "length tasks \<le> mx \<Longrightarrow> length tasks1 \<le> mx"
    using assms refill_props [of mx coros tasks tasks1 coros1 hm1]
    by (cases hm) (auto simp: refilled_def)
  show "settled mx tasks1 hm1"
    using assms refill_props [of mx coros tasks tasks1 coros1 hm1]
    by (cases hm) (auto simp: refilled_def settled_def)
  show "0 < mx \<Longrightarrow> tasks1 = [] \<Longrightarrow> \<not> hm1"
    using assms refill_props [of mx coros tasks tasks1 coros1 hm1]
    by (cases hm) (auto simp: refilled_def)
  show "\<not> hm \<longrightarrow> coros = [] \<Longrightarrow> \<not> hm1 \<longrightarrow> coros1 = []"
    using assms refill_props [of mx coros tasks tasks1 coros1 hm1]
    by (cases hm) (auto simp: refilled_def)
qed

lemma refilled_settled: "settled mx tasks hm \<Longrightarrow> refilled mx tasks coros hm = (tasks, coros, hm)"
  by (cases coros) (auto simp: refilled_def settled_def)

lemma first_exception_Some:
  "first_exception done = Some e \<Longrightarrow> \<exists>t\<in>set done. snd t = Some e"
  by (auto simp: first_exception_def find_Some_iff split: option.splits)

lemma first_exception_None:
  assumes "first_exception done = None"
  shows "\<forall>t\<in>set done. snd t = None"
proof (cases "List.find (\<lambda>t. snd t \<noteq> None) done")
  case None
  then show ?thesis by (auto simp: find_None_iff)
next
  case (Some t)
  then have "snd t \<noteq> None" by (auto simp: find_Some_iff)
  with Some assms show ?thesis by (simp add: first_exception_def)
qed

text \<open>One pass of the loop, with the refill step named.\<close>

lemma schedule_loop_pass:
  "schedule_loop (Suc n) mx done_at k tasks coros hm run =
     (case refilled mx tasks coros hm of
        (tasks1, coros1, hm1) \<Rightarrow>
          (let run1 = run\<lparr>started := started run @ map fst (drop (length tasks) tasks1)\<rparr>
           in if tasks1 = [] \<and> \<not> hm1 then Some run1
              else if tasks1 = [] then Some (run1\<lparr>raised := Some ValueError\<rparr>)
              else
                (let done = filter (\<lambda>t. done_at k (fst t)) tasks1;
                     pending = filter (\<lambda>t. \<not> done_at k (fst t)) tasks1;
                     run2 = run1\<lparr>in_flight := in_flight run1 @ [map fst tasks1]\<rparr>
                 in case first_exception done of
                      Some e \<Rightarrow> Some (run2\<lparr>raised := Some e, cancelled := map fst pending\<rparr>)
                    | None \<Rightarrow>
                        schedule_loop n mx done_at (Suc k) pending coros1 hm1
                          (run2\<lparr>completed := completed run2 @ map fst done\<rparr>))))"
  by (simp add: refilled_def)


lemma map_fst_indexed [simp]: "map fst (indexed stream) = [0 ..< length stream]"
  by (simp add: indexed_def)

lemma length_indexed [simp]: "length (indexed stream) = length stream"
  by (simp add: indexed_def)

lemma in_indexed: "(i, x) \<in> set (indexed stream) \<longleftrightarrow> i < length stream \<and> x = stream ! i"
  by (force simp: indexed_def in_set_zip)

lemma ids_take_drop:
  assumes "c + m \<le> length stream"
  shows "map fst (take m (drop c (indexed stream))) = [c ..< c + m]"
proof -
  have "map fst (take m (drop c (indexed stream))) = take m (drop c [0 ..< length stream])"
    by (simp only: take_map [symmetric] drop_map [symmetric] map_fst_indexed)
  also have "\<dots> = [c ..< c + m]"
    using assms by (simp add: drop_upt take_upt)
  finally show ?thesis .
qed

lemma sched_inv_refilled:
  assumes inv: "sched_inv mx stream k tasks coros hm run"
    and rf: "refilled mx tasks coros hm = (tasks1, coros1, hm1)"
  shows "sched_inv mx stream k tasks1 coros1 hm1
           (run\<lparr>started := started run @ map fst (drop (length tasks) tasks1)\<rparr>)"
proof -
  let ?c = "length (started run)"
  from inv have nohm: "\<not> hm \<longrightarrow> coros = []" and co: "coros = drop ?c (indexed stream)"
    and c: "?c \<le> length stream" and st: "started run = [0 ..< ?c]"
    and len: "length tasks \<le> mx"
    unfolding sched_inv_def by blast+
  from refilled_props(1) [OF rf] obtain m where m: "tasks1 = tasks @ take m coros"
      "coros1 = drop m coros" "m \<le> length coros" by blast
  from m(3) co c have cm: "?c + m \<le> length stream" by simp
  have new: "map fst (drop (length tasks) tasks1) = [?c ..< ?c + m]"
    using m(1) co ids_take_drop [OF cm] by simp
  have st1: "started run @ map fst (drop (length tasks) tasks1) = [0 ..< ?c + m]"
    using st new by (metis le_add1 upt_add_eq_append zero_le)
  have ids1: "map fst tasks1 = map fst tasks @ [?c ..< ?c + m]"
    using m(1) co ids_take_drop [OF cm] by simp
  have sub: "set tasks1 \<subseteq> set (indexed stream)"
    using inv m(1) co by (auto simp: sched_inv_def dest: in_set_takeD in_set_dropD)
  have un: "set (map fst tasks1) \<union> set (completed run) = {0 ..< ?c + m}"
  proof -
    from inv have "set (map fst tasks) \<union> set (completed run) = {0 ..< ?c}"
      by (simp add: sched_inv_def)
    then have "set (map fst tasks1) \<union> set (completed run) = {0 ..< ?c} \<union> {?c ..< ?c + m}"
      unfolding ids1 by auto
    then show ?thesis by auto
  qed
  have tr: "\<forall>T\<in>set (in_flight run). length T \<le> mx \<and> set T \<subseteq> set [0 ..< ?c + m]"
  proof
    fix T assume "T \<in> set (in_flight run)"
    with inv have "length T \<le> mx" "set T \<subseteq> set (started run)" by (auto simp: sched_inv_def)
    with st have "set T \<subseteq> set [0 ..< ?c]" by simp
    with \<open>length T \<le> mx\<close> show "length T \<le> mx \<and> set T \<subseteq> set [0 ..< ?c + m]" by auto
  qed
  let ?run1 = "run\<lparr>started := started run @ map fst (drop (length tasks) tasks1)\<rparr>"
  have l1: "length (started ?run1) = ?c + m" using st1 by simp
  show ?thesis
    unfolding sched_inv_def
  proof (intro conjI)
    show "raised ?run1 = None" "cancelled ?run1 = []" "k = length (in_flight ?run1)"
      using inv by (simp_all add: sched_inv_def)
    show "length (started ?run1) \<le> length stream" using l1 cm by simp
    show "started ?run1 = [0 ..< length (started ?run1)]" unfolding l1 using st1 by simp
    show "coros1 = drop (length (started ?run1)) (indexed stream)"
      unfolding l1 using m(2) co by (simp add: add.commute)
    show "set (map fst tasks1) \<union> set (completed ?run1) = {0 ..< length (started ?run1)}"
      unfolding l1 using un by simp
    show "set tasks1 \<subseteq> set (indexed stream)" by (rule sub)
    show "\<forall>i\<in>set (completed ?run1). i < length stream \<and> stream ! i = None"
      using inv by (simp add: sched_inv_def)
    show "length tasks1 \<le> mx" using refilled_props(2) [OF rf] len by simp
    show "\<forall>T\<in>set (in_flight ?run1). length T \<le> mx \<and> set T \<subseteq> set (started ?run1)"
      using tr st1 by simp
    show "\<not> hm1 \<longrightarrow> coros1 = []" by (rule refilled_props(5) [OF rf nohm])
  qed
qed


lemma sched_inv_wait:
  assumes inv: "sched_inv mx stream k tasks coros hm run"
    and none: "first_exception (filter (\<lambda>t. done_at k (fst t)) tasks) = None"
  shows "sched_inv mx stream (Suc k) (filter (\<lambda>t. \<not> done_at k (fst t)) tasks) coros hm
           (run\<lparr>in_flight := in_flight run @ [map fst tasks],
                completed := completed run @ map fst (filter (\<lambda>t. done_at k (fst t)) tasks)\<rparr>)"
proof -
  let ?done = "filter (\<lambda>t. done_at k (fst t)) tasks"
  let ?pending = "filter (\<lambda>t. \<not> done_at k (fst t)) tasks"
  let ?c = "length (started run)"
  let ?run = "run\<lparr>in_flight := in_flight run @ [map fst tasks],
                completed := completed run @ map fst ?done\<rparr>"
  from inv have un: "set (map fst tasks) \<union> set (completed run) = {0 ..< ?c}"
    and st: "started run = [0 ..< ?c]" and sub: "set tasks \<subseteq> set (indexed stream)"
    and len: "length tasks \<le> mx"
    and co: "\<forall>i\<in>set (completed run). i < length stream \<and> stream ! i = None"
    and tr: "\<forall>T\<in>set (in_flight run). length T \<le> mx \<and> set T \<subseteq> set (started run)"
    and r: "raised run = None" "cancelled run = []" and le: "?c \<le> length stream"
    and ceq: "coros = drop ?c (indexed stream)" and nohm: "\<not> hm \<longrightarrow> coros = []"
    and k: "k = length (in_flight run)"
    unfolding sched_inv_def by blast+
  have split: "set (map fst ?pending) \<union> set (map fst ?done) = set (map fst tasks)"
    by auto
  have ids: "set (map fst tasks) \<subseteq> set (started run)"
  proof -
    from un have "set (map fst tasks) \<subseteq> {0 ..< ?c}" by blast
    also have "\<dots> = set [0 ..< ?c]" by simp
    also have "\<dots> = set (started run)" using st by simp
    finally show ?thesis .
  qed
  have dn: "\<forall>i\<in>set (map fst ?done). i < length stream \<and> stream ! i = None"
  proof
    fix i assume "i \<in> set (map fst ?done)"
    then obtain t where t: "t \<in> set ?done" "i = fst t" by auto
    with first_exception_None [OF none] have "snd t = None" by blast
    moreover from t sub have "(fst t, snd t) \<in> set (indexed stream)" by auto
    ultimately show "i < length stream \<and> stream ! i = None"
      using t(2) by (simp add: in_indexed)
  qed
  show ?thesis
    unfolding sched_inv_def
  proof (intro conjI)
    show "raised ?run = None" "cancelled ?run = []" "length (started ?run) \<le> length stream"
      "coros = drop (length (started ?run)) (indexed stream)"
      using r le ceq by simp_all
    show "\<not> hm \<longrightarrow> coros = []" by (rule nohm)
    show "Suc k = length (in_flight ?run)" using k by simp
    show "started ?run = [0 ..< length (started ?run)]" using st by simp
    show "set (map fst ?pending) \<union> set (completed ?run) = {0 ..< length (started ?run)}"
      using un split by auto
    show "set ?pending \<subseteq> set (indexed stream)" using sub by auto
    show "\<forall>i\<in>set (completed ?run). i < length stream \<and> stream ! i = None"
      using co dn by auto
    show "length ?pending \<le> mx" using len length_filter_le [of _ tasks] le_trans by blast
    show "\<forall>T\<in>set (in_flight ?run). length T \<le> mx \<and> set T \<subseteq> set (started ?run)"
      using tr len ids by auto
  qed
qed

lemma sched_inv_ended:
  assumes inv: "sched_inv mx stream k [] coros False run"
  shows "sched_post mx stream done_at run"
proof -
  let ?c = "length (started run)"
  from inv have "coros = []" "coros = drop ?c (indexed stream)" and le: "?c \<le> length stream"
    and st: "started run = [0 ..< ?c]"
    and un: "set (map fst ([] :: invocation list)) \<union> set (completed run) = {0 ..< ?c}"
    and co: "\<forall>i\<in>set (completed run). i < length stream \<and> stream ! i = None"
    and tr: "\<forall>T\<in>set (in_flight run). length T \<le> mx \<and> set T \<subseteq> set (started run)"
    and r: "raised run = None" "cancelled run = []"
    unfolding sched_inv_def by blast+
  then have "length stream \<le> ?c" by simp
  with le have c: "?c = length stream" by simp
  from un c have all: "set (completed run) = {0 ..< length stream}" by simp
  with co have "\<forall>i<length stream. stream ! i = None" by auto
  with all st c r tr show ?thesis unfolding sched_post_def by simp
qed

lemma sched_inv_raised:
  assumes inv: "sched_inv mx stream k tasks coros hm run"
    and exc: "first_exception (filter (\<lambda>t. done_at k (fst t)) tasks) = Some e"
  shows "sched_post mx stream done_at
           (run\<lparr>in_flight := in_flight run @ [map fst tasks], raised := Some e,
                cancelled := map fst (filter (\<lambda>t. \<not> done_at k (fst t)) tasks)\<rparr>)"
proof -
  let ?c = "length (started run)"
  let ?run = "run\<lparr>in_flight := in_flight run @ [map fst tasks], raised := Some e,
                cancelled := map fst (filter (\<lambda>t. \<not> done_at k (fst t)) tasks)\<rparr>"
  from inv have un: "set (map fst tasks) \<union> set (completed run) = {0 ..< ?c}"
    and st: "started run = [0 ..< ?c]" and sub: "set tasks \<subseteq> set (indexed stream)"
    and len: "length tasks \<le> mx" and le: "?c \<le> length stream"
    and k: "k = length (in_flight run)"
    and tr: "\<forall>T\<in>set (in_flight run). length T \<le> mx \<and> set T \<subseteq> set (started run)"
    unfolding sched_inv_def by blast+
  from first_exception_Some [OF exc] obtain t where t: "t \<in> set tasks" "done_at k (fst t)"
      "snd t = Some e" by auto
  from t(1) sub have "(fst t, snd t) \<in> set (indexed stream)" by auto
  with t(3) have ti: "fst t < length stream" "stream ! fst t = Some e" by (simp_all add: in_indexed)
  have which: "\<exists>i\<in>set (map fst tasks). done_at k i \<and> i < length stream \<and> stream ! i = Some e"
    using t ti by auto
  have canc: "map fst (filter (\<lambda>t. \<not> done_at k (fst t)) tasks)
      = filter (\<lambda>i. \<not> done_at k i) (map fst tasks)"
    by (simp add: filter_map comp_def)
  have all: "set (started run) = set (completed run) \<union> set (map fst tasks)"
  proof -
    have "set (started run) = set [0 ..< ?c]" using st by simp
    then show ?thesis using un by auto
  qed
  show ?thesis
    unfolding sched_post_def
  proof (intro conjI)
    show "\<forall>T\<in>set (in_flight ?run). length T \<le> mx" using tr len by auto
    show "started ?run = [0 ..< length (started ?run)]" using st by simp
    show "length (started ?run) \<le> length stream" using le by simp
    show "case raised ?run of
            None \<Rightarrow> cancelled ?run = [] \<and> started ?run = [0 ..< length stream]
              \<and> set (completed ?run) = {0 ..< length stream}
              \<and> (\<forall>i<length stream. stream ! i = None)
          | Some e \<Rightarrow> in_flight ?run \<noteq> []
              \<and> (\<exists>i\<in>set (last (in_flight ?run)).
                    done_at (length (in_flight ?run) - 1) i \<and> i < length stream
                    \<and> stream ! i = Some e)
              \<and> cancelled ?run
                  = filter (\<lambda>i. \<not> done_at (length (in_flight ?run) - 1) i) (last (in_flight ?run))
              \<and> set (started ?run) = set (completed ?run) \<union> set (last (in_flight ?run))"
      using which canc all k by simp
  qed
qed

lemma schedule_loop_post:
  assumes mx: "0 < mx"
  shows "sched_inv mx stream k tasks coros hm run \<Longrightarrow>
     schedule_loop n mx done_at k tasks coros hm run = Some r \<Longrightarrow> sched_post mx stream done_at r"
proof (induction n arbitrary: k tasks coros hm run)
  case 0
  then show ?case by simp
next
  case (Suc n)
  obtain tasks1 coros1 hm1 where rf: "refilled mx tasks coros hm = (tasks1, coros1, hm1)"
    by (cases "refilled mx tasks coros hm") auto
  let ?run1 = "run\<lparr>started := started run @ map fst (drop (length tasks) tasks1)\<rparr>"
  let ?done = "filter (\<lambda>t. done_at k (fst t)) tasks1"
  let ?pending = "filter (\<lambda>t. \<not> done_at k (fst t)) tasks1"
  have inv1: "sched_inv mx stream k tasks1 coros1 hm1 ?run1"
    by (rule sched_inv_refilled [OF Suc.prems(1) rf])
  show ?case
  proof (cases "tasks1 = []")
    case True
    with refilled_props(4) [OF rf mx] have hm1: "\<not> hm1" by simp
    from Suc.prems(2) rf True hm1 have "r = ?run1" by (simp add: schedule_loop_pass del: schedule_loop.simps)
    with inv1 True hm1 show ?thesis using sched_inv_ended by simp
  next
    case False
    show ?thesis
    proof (cases "first_exception ?done")
      case (Some e)
      from Suc.prems(2) rf False Some
      have "r = ?run1\<lparr>in_flight := in_flight ?run1 @ [map fst tasks1], raised := Some e,
                       cancelled := map fst ?pending\<rparr>"
        by (simp add: schedule_loop_pass del: schedule_loop.simps)
      with sched_inv_raised [where done_at = done_at, OF inv1 Some] show ?thesis by simp
    next
      case None
      from Suc.prems(2) rf False None
      have "schedule_loop n mx done_at (Suc k) ?pending coros1 hm1
              (?run1\<lparr>in_flight := in_flight ?run1 @ [map fst tasks1],
                      completed := completed ?run1 @ map fst ?done\<rparr>) = Some r"
        by (simp add: schedule_loop_pass del: schedule_loop.simps)
      with Suc.IH [OF sched_inv_wait [where done_at = done_at, OF inv1 None]] show ?thesis by simp
    qed
  qed
qed

lemma sched_inv_new: "sched_inv mx stream 0 [] (indexed stream) True new_run"
  by (simp add: sched_inv_def new_run_def)


lemma schedule_loop_refilled:
  assumes "refilled mx tasks coros hm = (tasks1, coros1, hm1)"
  shows "schedule_loop n mx done_at k tasks coros hm run
           = schedule_loop n mx done_at k tasks1 coros1 hm1
               (run\<lparr>started := started run @ map fst (drop (length tasks) tasks1)\<rparr>)"
proof (cases n)
  case 0
  then show ?thesis by simp
next
  case (Suc n')
  from refilled_props(3) [OF assms] have "refilled mx tasks1 coros1 hm1 = (tasks1, coros1, hm1)"
    by (rule refilled_settled)
  with assms Suc show ?thesis by (simp add: schedule_loop_pass del: schedule_loop.simps)
qed

lemma schedule_loop_wait:
  assumes "settled mx tasks hm" and "tasks \<noteq> []"
  shows "schedule_loop (Suc n) mx done_at k tasks coros hm run =
           (case first_exception (filter (\<lambda>t. done_at k (fst t)) tasks) of
              Some e \<Rightarrow>
                Some (run\<lparr>in_flight := in_flight run @ [map fst tasks], raised := Some e,
                          cancelled := map fst (filter (\<lambda>t. \<not> done_at k (fst t)) tasks)\<rparr>)
            | None \<Rightarrow>
                schedule_loop n mx done_at (Suc k) (filter (\<lambda>t. \<not> done_at k (fst t)) tasks) coros hm
                  (run\<lparr>in_flight := in_flight run @ [map fst tasks],
                       completed := completed run @ map fst (filter (\<lambda>t. done_at k (fst t)) tasks)\<rparr>))"
  using assms
  by (simp add: schedule_loop_pass refilled_settled del: schedule_loop.simps split: option.splits)

lemma schedule_loop_ends_settled:
  assumes smaller: "\<And>k tasks' run'. length tasks' < length tasks \<Longrightarrow>
      \<exists>n r. schedule_loop n mx done_at k tasks' coros hm run' = Some r"
    and st: "settled mx tasks hm" and t: "t \<in> set tasks"
  shows "done_at (k + d) (fst t) \<Longrightarrow> \<exists>n r. schedule_loop n mx done_at k tasks coros hm run = Some r"
proof (induction d arbitrary: k run)
  case 0
  let ?pending = "filter (\<lambda>t. \<not> done_at k (fst t)) tasks"
  from t have ne: "tasks \<noteq> []" by auto
  show ?case
  proof (cases "first_exception (filter (\<lambda>t. done_at k (fst t)) tasks)")
    case (Some e)
    then have "\<exists>r. schedule_loop (Suc 0) mx done_at k tasks coros hm run = Some r"
      by (simp add: schedule_loop_wait [OF st ne] del: schedule_loop.simps)
    then show ?thesis by blast
  next
    case None
    from t 0 have "length ?pending < length tasks" by (auto intro: length_filter_less)
    from smaller [OF this] obtain n r where
      "schedule_loop n mx done_at (Suc k) ?pending coros hm
         (run\<lparr>in_flight := in_flight run @ [map fst tasks],
              completed := completed run @ map fst (filter (\<lambda>t. done_at k (fst t)) tasks)\<rparr>) = Some r"
      by blast
    with None have "schedule_loop (Suc n) mx done_at k tasks coros hm run = Some r"
      by (simp add: schedule_loop_wait [OF st ne] del: schedule_loop.simps)
    then show ?thesis by blast
  qed
next
  case (Suc d)
  let ?done = "filter (\<lambda>t. done_at k (fst t)) tasks"
  let ?pending = "filter (\<lambda>t. \<not> done_at k (fst t)) tasks"
  let ?run = "run\<lparr>in_flight := in_flight run @ [map fst tasks],
                  completed := completed run @ map fst ?done\<rparr>"
  from t have ne: "tasks \<noteq> []" by auto
  show ?case
  proof (cases "first_exception ?done")
    case (Some e)
    then have "\<exists>r. schedule_loop (Suc 0) mx done_at k tasks coros hm run = Some r"
      by (simp add: schedule_loop_wait [OF st ne] del: schedule_loop.simps)
    then show ?thesis by blast
  next
    case None
    have "\<exists>n r. schedule_loop n mx done_at (Suc k) ?pending coros hm ?run = Some r"
    proof (cases "?done = []")
      case True
      then have "\<forall>t\<in>set tasks. \<not> done_at k (fst t)" by (simp add: filter_empty_conv)
      then have "?pending = tasks" by (simp add: filter_id_conv)
      moreover from Suc.prems have "done_at (Suc k + d) (fst t)" by simp
      from Suc.IH [OF this] have
        "\<exists>n r. schedule_loop n mx done_at (Suc k) tasks coros hm ?run = Some r" .
      ultimately show ?thesis by simp
    next
      case False
      then obtain u where "u \<in> set tasks" "done_at k (fst u)"
        by (auto simp: filter_empty_conv)
      then have "length ?pending < length tasks" by (auto intro: length_filter_less)
      from smaller [OF this] show ?thesis .
    qed
    then obtain n r where
      "schedule_loop n mx done_at (Suc k) ?pending coros hm ?run = Some r" by blast
    with None have "schedule_loop (Suc n) mx done_at k tasks coros hm run = Some r"
      by (simp add: schedule_loop_wait [OF st ne] del: schedule_loop.simps)
    then show ?thesis by blast
  qed
qed

lemma schedule_loop_ends:
  assumes fair: "every_invocation_ends done_at"
  shows "\<exists>n r. schedule_loop n mx done_at k tasks coros hm run = Some r"
proof (induction "length tasks + length coros" arbitrary: k tasks coros hm run rule: less_induct)
  case less
  obtain tasks1 coros1 hm1 where rf: "refilled mx tasks coros hm = (tasks1, coros1, hm1)"
    by (cases "refilled mx tasks coros hm") auto
  let ?run1 = "run\<lparr>started := started run @ map fst (drop (length tasks) tasks1)\<rparr>"
  from refilled_props(1) [OF rf]
  have size: "length tasks1 + length coros1 = length tasks + length coros" by auto
  have "\<exists>n r. schedule_loop n mx done_at k tasks1 coros1 hm1 ?run1 = Some r"
  proof (cases tasks1)
    case Nil
    have "refilled mx [] coros1 hm1 = ([], coros1, hm1)"
      using refilled_props(3) [OF rf] Nil by (simp add: refilled_settled)
    then have "\<exists>r. schedule_loop (Suc 0) mx done_at k [] coros1 hm1 ?run1 = Some r"
      by (cases hm1) (simp_all add: schedule_loop_pass Let_def del: schedule_loop.simps)
    with Nil show ?thesis by blast
  next
    case (Cons t ts)
    from fair obtain k' where k': "k \<le> k'" "done_at k' (fst t)"
      unfolding every_invocation_ends_def by blast
    then have d: "done_at (k + (k' - k)) (fst t)" by simp
    have smaller: "\<exists>n r. schedule_loop n mx done_at j tasks' coros1 hm1 run' = Some r"
      if "length tasks' < length tasks1" for j tasks' run'
      using that size by (intro less.hyps) simp
    from Cons have "t \<in> set tasks1" by simp
    from schedule_loop_ends_settled [where done_at = done_at, OF smaller refilled_props(3) [OF rf] this d]
    show ?thesis by blast
  qed
  then show ?case by (simp add: schedule_loop_refilled [OF rf])
qed


lemma steady_loop_ends: "every_invocation_ends steady_loop"
  unfolding every_invocation_ends_def steady_loop_def
proof (intro allI)
  fix k i :: nat
  have "k \<le> k + i + 1 \<and> i < 3 * (k + i + 1)" by simp
  then show "\<exists>k'\<ge>k. i < 3 * k'" by blast
qed

lemma schedule_stream_7: "schedule 3 MAX_QUEUE_SIZE steady_loop stream_7 = Some run_7"
  by code_simp

lemma schedule_stream_6: "schedule 4 MAX_QUEUE_SIZE steady_loop stream_6 = Some run_6"
  by code_simp

text \<open>
  C5. Let the queue size be positive and let every invocation end (an invocation in flight
  is done at some later wait). Then for every stream of invocations \<^verbatim>\<open>schedule\<close> ends, and
  when it has ended: no wait was for more than \<open>max_queue_size\<close> tasks. If it raised \<open>e\<close>,
  then \<open>e\<close> is the exception of an invocation that was in flight and done at the last wait;
  the invocations cancelled are exactly those in flight and not done at that wait; and
  nothing was started besides the invocations gathered before and those in flight at that
  wait. If it returned, nothing was cancelled, and every invocation of the stream was
  started and gathered as done. It returns exactly when no invocation of the stream raises.
\<close>

theorem schedule_fail_fast_bounded:
  assumes "0 < max_queue_size" and "every_invocation_ends done_at"
  shows "(\<exists>n r. schedule n max_queue_size done_at stream = Some r)
       \<and> (\<forall>n r. schedule n max_queue_size done_at stream = Some r \<longrightarrow>
            (\<forall>T\<in>set (in_flight r). length T \<le> max_queue_size)
          \<and> (\<forall>e. raised r = Some e \<longrightarrow>
                 in_flight r \<noteq> []
               \<and> (\<exists>i\<in>set (last (in_flight r)).
                     done_at (length (in_flight r) - 1) i \<and> i < length stream \<and> stream ! i = Some e)
               \<and> cancelled r
                   = filter (\<lambda>i. \<not> done_at (length (in_flight r) - 1) i) (last (in_flight r))
               \<and> set (started r) = set (completed r) \<union> set (last (in_flight r)))
          \<and> (raised r = None \<longrightarrow>
                 cancelled r = [] \<and> started r = [0 ..< length stream]
               \<and> set (completed r) = {0 ..< length stream})
          \<and> ((\<forall>i<length stream. stream ! i = None) \<longleftrightarrow> raised r = None))"
proof (intro conjI allI impI)
  show "\<exists>n r. schedule n max_queue_size done_at stream = Some r"
    unfolding schedule_def by (rule schedule_loop_ends [OF assms(2)])
next
  fix n r
  assume "schedule n max_queue_size done_at stream = Some r"
  then have "schedule_loop n max_queue_size done_at 0 [] (indexed stream) True new_run = Some r"
    by (simp add: schedule_def indexed_def)
  from schedule_loop_post [OF assms(1) sched_inv_new this]
  have post: "sched_post max_queue_size stream done_at r" .
  show "\<forall>T\<in>set (in_flight r). length T \<le> max_queue_size"
    using post by (simp add: sched_post_def)
  show "(\<forall>i<length stream. stream ! i = None) \<longleftrightarrow> raised r = None"
    using post by (cases "raised r") (auto simp: sched_post_def)
  {
    assume "raised r = None"
    with post show "cancelled r = []" "started r = [0 ..< length stream]"
      "set (completed r) = {0 ..< length stream}"
      by (simp_all add: sched_post_def)
  }
  {
    fix e assume "raised r = Some e"
    with post show "in_flight r \<noteq> []"
      "\<exists>i\<in>set (last (in_flight r)).
         done_at (length (in_flight r) - 1) i \<and> i < length stream \<and> stream ! i = Some e"
      "cancelled r = filter (\<lambda>i. \<not> done_at (length (in_flight r) - 1) i) (last (in_flight r))"
      "set (started r) = set (completed r) \<union> set (last (in_flight r))"
      by (simp_all add: sched_post_def)
  }
qed

text \<open>
  With the default queue size: of seven invocations the sixth raises at the third wait,
  where the seventh is cancelled; six invocations that return are all run.
\<close>

theorem schedule_fail_fast_bounded_witness:
  "0 < MAX_QUEUE_SIZE \<and> every_invocation_ends steady_loop
   \<and> schedule 3 MAX_QUEUE_SIZE steady_loop stream_7 = Some run_7
   \<and> raised run_7 = Some ApiRequestError \<and> stream_7 ! 5 = Some ApiRequestError
   \<and> steady_loop 2 5 \<and> last (in_flight run_7) = [3, 4, 5, 6] \<and> cancelled run_7 = [6]
   \<and> length (in_flight run_7 ! 0) \<le> MAX_QUEUE_SIZE \<and> length (in_flight run_7 ! 1) \<le> MAX_QUEUE_SIZE
   \<and> length (in_flight run_7 ! 2) \<le> MAX_QUEUE_SIZE
   \<and> schedule 4 MAX_QUEUE_SIZE steady_loop stream_6 = Some run_6
   \<and> raised run_6 = None \<and> cancelled run_6 = [] \<and> started run_6 = [0 ..< length stream_6]
   \<and> set (completed run_6) = {0 ..< length stream_6}"
proof -
  have pos: "0 < MAX_QUEUE_SIZE" by (simp add: MAX_QUEUE_SIZE_def)
  have r7: "raised run_7 = Some ApiRequestError" and r6: "raised run_6 = None"
    by (simp_all add: run_7_def run_6_def)
  from schedule_fail_fast_bounded [OF pos steady_loop_ends, of stream_7] schedule_stream_7 r7
  have seven: "cancelled run_7 = filter (\<lambda>i. \<not> steady_loop (length (in_flight run_7) - 1) i)
      (last (in_flight run_7))"
    by blast
  from schedule_fail_fast_bounded [OF pos steady_loop_ends, of stream_6] schedule_stream_6 r6
  have six: "cancelled run_6 = []" "started run_6 = [0 ..< length stream_6]"
    "set (completed run_6) = {0 ..< length stream_6}"
    by blast+
  have "0 < MAX_QUEUE_SIZE \<and> every_invocation_ends steady_loop
   \<and> schedule 3 MAX_QUEUE_SIZE steady_loop stream_7 = Some run_7
   \<and> raised run_7 = Some ApiRequestError \<and> stream_7 ! 5 = Some ApiRequestError
   \<and> steady_loop 2 5 \<and> last (in_flight run_7) = [3, 4, 5, 6]
   \<and> length (in_flight run_7 ! 0) \<le> MAX_QUEUE_SIZE \<and> length (in_flight run_7 ! 1) \<le> MAX_QUEUE_SIZE
   \<and> length (in_flight run_7 ! 2) \<le> MAX_QUEUE_SIZE
   \<and> schedule 4 MAX_QUEUE_SIZE steady_loop stream_6 = Some run_6 \<and> raised run_6 = None"
    using pos steady_loop_ends schedule_stream_7 schedule_stream_6
    by (simp add: run_7_def run_6_def stream_7_def steady_loop_def MAX_QUEUE_SIZE_def)
  moreover from seven have "cancelled run_7 = [6]"
    by (simp add: run_7_def steady_loop_def)
  ultimately show ?thesis using six by simp
qed

end
